(* ===== verification/Prelude.thy ===== *)
theory Prelude
  imports
    Main
    "HOL-Library.Word"
    "HOL-Library.Char_ord"
    "HOL-Library.List_Lexorder"
    "HOL-Library.Product_Lexorder"
    "HOL-Library.Multiset"
begin

text \<open>
  The shared vocabulary of the development: Go error values, Go results, run-time panics,
  decimal and hexadecimal printing (\<^verbatim>\<open>%d\<close>, \<^verbatim>\<open>%x\<close>), \<^verbatim>\<open>strings.Split\<close> on a single
  separator, and the generic lemmas on sorted lists, maps and options that the component
  theories use. The collection \<open>run_defs\<close> gathers the definitions that unfold a run with state
  and panics.
\<close>

named_theorems run_defs \<open>definitions that unfold a run with state and panics\<close>

section \<open>Go values shared by every component\<close>

text \<open>
  A Go \<^verbatim>\<open>error\<close>: \<open>Errorf msg\<close> is \<^verbatim>\<open>fmt.Errorf(msg)\<close> (or an error of a library), and
  \<open>Wrapf msg e\<close> is \<^verbatim>\<open>fmt.Errorf("msg: %w", e)\<close>. A Go result \<^verbatim>\<open>(T, error)\<close> whose value is
  meaningless next to an error is the sum \<open>'a result\<close>; results whose two parts are both used
  are pairs \<open>'a \<times> error option\<close>. A nil \<^verbatim>\<open>error\<close> is \<open>None\<close>.
\<close>

datatype error = Errorf string | Wrapf string error

type_synonym 'a result = "error + 'a"

text \<open>A run-time panic aborts the handler; \<open>Ret\<close> is an ordinary return.\<close>

datatype panic = NilDereference string | PanicError error

datatype 'a outcome = Ret 'a | Panic panic

definition is_ok :: "'a result \<Rightarrow> bool" where
  "is_ok r = (case r of Inl _ \<Rightarrow> False | Inr _ \<Rightarrow> True)"

definition wrap_result :: "string \<Rightarrow> 'a result \<Rightarrow> 'a result" where
  "wrap_result msg r = (case r of Inl e \<Rightarrow> Inl (Wrapf msg e) | Inr v \<Rightarrow> Inr v)"

text \<open>
  Code that reads and changes a state and may panic. What was done before a panic stays done:
  files already written are on disk, so the state is returned in both cases.
\<close>

type_synonym ('s, 'a) run = "'s \<Rightarrow> 'a outcome \<times> 's"

definition run_return :: "'a \<Rightarrow> ('s, 'a) run" where
  [run_defs]: "run_return a = (\<lambda>s. (Ret a, s))"

definition run_bind :: "('s, 'a) run \<Rightarrow> ('a \<Rightarrow> ('s, 'b) run) \<Rightarrow> ('s, 'b) run" where
  [run_defs]: "run_bind m f = (\<lambda>s. case m s of (Ret a, s') \<Rightarrow> f a s' | (Panic p, s') \<Rightarrow> (Panic p, s'))"

definition run_seq :: "('s, 'a) run \<Rightarrow> ('s, 'b) run \<Rightarrow> ('s, 'b) run" where
  [run_defs]: "run_seq m k = run_bind m (\<lambda>_. k)"

section \<open>Text\<close>

text \<open>A text between single quotes, as error messages show values.\<close>

definition squote :: "string \<Rightarrow> string" where
  "squote s = CHR 0x27 # s @ [CHR 0x27]"

definition nl :: string where
  "nl = [CHR 0x0A]"

definition ln :: "string \<Rightarrow> string" where
  "ln s = s @ nl"

definition digit_char :: "int \<Rightarrow> char" where
  "digit_char d = (if d < 10 then char_of (48 + d) else char_of (87 + d))"

fun dec_str :: "int \<Rightarrow> string" where
  "dec_str n = (if n < 10 then [digit_char n] else dec_str (n div 10) @ [digit_char (n mod 10)])"

declare dec_str.simps [simp del]

definition int_str :: "int \<Rightarrow> string" where
  "int_str i = (if i < 0 then ''-'' @ dec_str (- i) else dec_str i)"

fun hex_str :: "int \<Rightarrow> string" where
  "hex_str n = (if n < 16 then [digit_char n] else hex_str (n div 16) @ [digit_char (n mod 16)])"

declare hex_str.simps [simp del]

definition hex_byte :: "int \<Rightarrow> string" where
  "hex_byte b = [digit_char (b div 16 mod 16), digit_char (b mod 16)]"

definition is_digit :: "char \<Rightarrow> bool" where
  "is_digit c = (48 \<le> (of_char c :: int) \<and> (of_char c :: int) \<le> 57)"

definition digit_val :: "char \<Rightarrow> int" where
  "digit_val c = of_char c - 48"

text \<open>\<^verbatim>\<open>strings.Split(s, sep)\<close> for a one-byte separator, and its inverse \<^verbatim>\<open>strings.Join\<close>.\<close>

fun split_on :: "char \<Rightarrow> string \<Rightarrow> string list" where
  "split_on c [] = [[]]"
| "split_on c (x # xs) =
     (if x = c then [] # split_on c xs
      else (case split_on c xs of [] \<Rightarrow> [[x]] | y # ys \<Rightarrow> (x # y) # ys))"

fun join_with :: "string \<Rightarrow> string list \<Rightarrow> string" where
  "join_with sep [] = []"
| "join_with sep [x] = x"
| "join_with sep (x # y # ys) = x @ sep @ join_with sep (y # ys)"

section \<open>Sorting with a comparison function\<close>

text \<open>
  \<^verbatim>\<open>slices.SortFunc(xs, cmp)\<close>. Go's sort is not stable and its algorithm is not part of its
  contract: it returns some permutation of \<open>xs\<close> that is sorted with respect to \<open>cmp\<close>. The
  definition is insertion sort; the locale \<open>comparison\<close> below shows that on elements
  that \<open>cmp\<close> tells apart there is exactly one sorted permutation, so every correct sort returns it.
\<close>

fun insert_cmp :: "('a \<Rightarrow> 'a \<Rightarrow> int) \<Rightarrow> 'a \<Rightarrow> 'a list \<Rightarrow> 'a list" where
  "insert_cmp cmp x [] = [x]"
| "insert_cmp cmp x (y # ys) = (if cmp x y \<le> 0 then x # y # ys else y # insert_cmp cmp x ys)"

definition slices_SortFunc :: "('a \<Rightarrow> 'a \<Rightarrow> int) \<Rightarrow> 'a list \<Rightarrow> 'a list" where
  "slices_SortFunc cmp xs = foldr (insert_cmp cmp) xs []"

definition sorted_cmp :: "('a \<Rightarrow> 'a \<Rightarrow> int) \<Rightarrow> 'a list \<Rightarrow> bool" where
  "sorted_cmp cmp xs = sorted_wrt (\<lambda>a b. cmp a b \<le> 0) xs"

section \<open>Generic lemmas\<close>

lemma is_ok_simps [simp]: "is_ok (Inr v)" "\<not> is_ok (Inl e)"
  by (simp_all add: is_ok_def)

lemma is_ok_iff: "is_ok r \<longleftrightarrow> (\<exists>v. r = Inr v)"
  by (cases r) auto

lemma wrap_result_simps [simp]:
  "wrap_result m (Inr v) = Inr v" "wrap_result m (Inl e) = Inl (Wrapf m e)"
  by (simp_all add: wrap_result_def)

lemma wrap_result_Inr_iff: "wrap_result m r = Inr v \<longleftrightarrow> r = Inr v"
  by (cases r) auto

lemma dec_str_nonempty [simp]: "dec_str n \<noteq> []"
  by (subst dec_str.simps) simp

lemma dec_str_small: "n < 10 \<Longrightarrow> dec_str n = [digit_char n]"
  by (subst dec_str.simps) simp

lemma dec_str_step: "10 \<le> n \<Longrightarrow> dec_str n = dec_str (n div 10) @ [digit_char (n mod 10)]"
  by (subst dec_str.simps) simp

lemma of_char_digit_char: "0 \<le> d \<Longrightarrow> d < 10 \<Longrightarrow> (of_char (digit_char d) :: int) = 48 + d"
  by (simp add: digit_char_def)

lemma digit_char_digit [simp]: "0 \<le> d \<Longrightarrow> d < 10 \<Longrightarrow> is_digit (digit_char d)"
  by (simp add: is_digit_def of_char_digit_char)

lemma digit_val_digit_char [simp]: "0 \<le> d \<Longrightarrow> d < 10 \<Longrightarrow> digit_val (digit_char d) = d"
  by (simp add: digit_val_def of_char_digit_char)

lemma dec_str_digits: "0 \<le> n \<Longrightarrow> c \<in> set (dec_str n) \<Longrightarrow> is_digit c"
proof (induction n rule: dec_str.induct)
  case (1 n)
  show ?case
  proof (cases "n < 10")
    case True
    with "1.prems" show ?thesis by (simp add: dec_str_small)
  next
    case False
    with "1.prems" have "c \<in> set (dec_str (n div 10)) \<or> c = digit_char (n mod 10)"
      by (auto simp: dec_str_step)
    with False "1.IH" show ?thesis by auto
  qed
qed

lemma dec_str_cases:
  assumes "0 \<le> n" "n < 256"
  obtains "n < 10" "dec_str n = [digit_char n]"
  | "10 \<le> n" "n < 100" "dec_str n = [digit_char (n div 10), digit_char (n mod 10)]"
  | "100 \<le> n" "dec_str n =
      [digit_char (n div 100), digit_char (n div 10 mod 10), digit_char (n mod 10)]"
proof -
  consider "n < 10" | "10 \<le> n" "n < 100" | "100 \<le> n" by linarith
  then show thesis
  proof cases
    case 1
    then show ?thesis using that(1) by (simp add: dec_str_small)
  next
    case 2
    then have "n div 10 < 10" by linarith
    with 2 show ?thesis using that(2) by (simp add: dec_str_step dec_str_small)
  next
    case 3
    with assms have *: "10 \<le> n" "10 \<le> n div 10" "n div 10 div 10 < 10" by linarith+
    have "n div 10 div 10 = n div 100" by (simp add: zdiv_zmult2_eq [symmetric])
    with 3 * show ?thesis using that(3) by (simp add: dec_str_step dec_str_small)
  qed
qed

lemma split_on_nonempty [simp]: "split_on c s \<noteq> []"
  by (induction s) (auto split: list.splits)

lemma join_with_Cons: "ys \<noteq> [] \<Longrightarrow> join_with sep (y # ys) = y @ sep @ join_with sep ys"
  by (cases ys) auto

lemma split_on_step: "x \<noteq> c \<Longrightarrow> \<exists>y ys. split_on c xs = y # ys \<and> split_on c (x # xs) = (x # y) # ys"
  by (cases "split_on c xs") auto

lemma join_split: "join_with [c] (split_on c s) = s"
proof (induction s)
  case Nil
  then show ?case by simp
next
  case (Cons x s)
  show ?case
  proof (cases "x = c")
    case True
    with Cons show ?thesis by (simp add: join_with_Cons)
  next
    case False
    then obtain y ys where "split_on c s = y # ys" "split_on c (x # s) = (x # y) # ys"
      using split_on_step [OF False] by blast
    with Cons show ?thesis by (cases ys) simp_all
  qed
qed

lemma split_on_no_sep: "c \<notin> set s \<Longrightarrow> split_on c s = [s]"
  by (induction s) auto

lemma split_on_append: "c \<notin> set s \<Longrightarrow> split_on c (s @ c # t) = s # split_on c t"
  by (induction s) auto

lemma split_join:
  "xs \<noteq> [] \<Longrightarrow> \<forall>x \<in> set xs. c \<notin> set x \<Longrightarrow> split_on c (join_with [c] xs) = xs"
proof (induction xs)
  case Nil
  then show ?case by simp
next
  case (Cons x xs)
  then show ?case
    by (cases xs) (simp_all add: split_on_no_sep split_on_append)
qed

text \<open>A strictly sorted list is determined by its set of elements.\<close>

lemma sorted_distinct_eq:
  fixes xs ys :: "'a::linorder list"
  assumes "sorted xs" "distinct xs" "sorted ys" "distinct ys" "set xs = set ys"
  shows "xs = ys"
  using assms by (metis sorted_distinct_set_unique)

lemma mset_insert_cmp [simp]: "mset (insert_cmp cmp x ys) = add_mset x (mset ys)"
  by (induction ys) auto

lemma set_insert_cmp [simp]: "set (insert_cmp cmp x ys) = insert x (set ys)"
  by (metis mset_insert_cmp set_mset_add_mset_insert set_mset_mset)

lemma mset_SortFunc [simp]: "mset (slices_SortFunc cmp xs) = mset xs"
  by (induction xs) (simp_all add: slices_SortFunc_def)

lemma set_SortFunc [simp]: "set (slices_SortFunc cmp xs) = set xs"
  by (metis mset_SortFunc set_mset_mset)

lemma distinct_SortFunc [simp]: "distinct (slices_SortFunc cmp xs) = distinct xs"
  by (metis mset_SortFunc mset_eq_imp_distinct_iff)

section \<open>The contract of a comparison function\<close>

text \<open>
  What \<^verbatim>\<open>slices.SortFunc\<close> asks of \<open>cmp\<close> (a strict weak ordering), on a carrier \<open>S\<close> on which
  \<open>cmp\<close> also tells different elements apart.
\<close>

locale comparison =
  fixes cmp :: "'a \<Rightarrow> 'a \<Rightarrow> int" and S :: "'a set"
  assumes cmp_eq: "a \<in> S \<Longrightarrow> b \<in> S \<Longrightarrow> cmp a b = 0 \<longleftrightarrow> a = b"
    and cmp_flip: "0 < cmp a b \<longleftrightarrow> cmp b a < 0"
    and cmp_trans: "cmp a b \<le> 0 \<Longrightarrow> cmp b c \<le> 0 \<Longrightarrow> cmp a c \<le> 0"
begin

lemma cmp_total: "cmp a b \<le> 0 \<or> cmp b a \<le> 0"
  using cmp_flip [of a b] by linarith

lemma cmp_antisym: "a \<in> S \<Longrightarrow> b \<in> S \<Longrightarrow> cmp a b \<le> 0 \<Longrightarrow> cmp b a \<le> 0 \<Longrightarrow> a = b"
  using cmp_flip [of a b] cmp_flip [of b a] cmp_eq [of a b] by linarith

lemma sorted_insert_cmp: "sorted_cmp cmp ys \<Longrightarrow> sorted_cmp cmp (insert_cmp cmp x ys)"
proof (induction ys)
  case Nil
  then show ?case by (simp add: sorted_cmp_def)
next
  case (Cons y ys)
  then show ?case
    using cmp_total [of x y] by (auto simp: sorted_cmp_def intro: cmp_trans)
qed

lemma sorted_SortFunc: "sorted_cmp cmp (slices_SortFunc cmp xs)"
proof (induction xs)
  case Nil
  then show ?case by (simp add: slices_SortFunc_def sorted_cmp_def)
next
  case (Cons x xs)
  then show ?case
    using sorted_insert_cmp by (simp add: slices_SortFunc_def)
qed

lemma sorted_cmp_unique:
  assumes "sorted_cmp cmp xs" "sorted_cmp cmp ys" "mset xs = mset ys" "set xs \<subseteq> S"
  shows "xs = ys"
  using assms
proof (induction xs arbitrary: ys)
  case Nil
  then show ?case by simp
next
  case (Cons x xs)
  then obtain y ys' where ys: "ys = y # ys'"
    by (cases ys) auto
  have sets: "set (x # xs) = set ys"
    using Cons.prems(3) by (metis set_mset_mset)
  have "x \<in> set (y # ys')" "y \<in> set (x # xs)"
    using sets by (auto simp: ys)
  then have "x = y"
    using Cons.prems cmp_antisym [of x y] by (auto simp: ys sorted_cmp_def)
  with Cons.prems show ?case
    using Cons.IH [of ys'] by (auto simp: ys sorted_cmp_def)
qed

lemma SortFunc_unique:
  assumes "sorted_cmp cmp ys" "mset ys = mset xs" "set xs \<subseteq> S"
  shows "slices_SortFunc cmp xs = ys"
  using assms sorted_SortFunc by (intro sorted_cmp_unique) simp_all

lemma SortFunc_perm:
  assumes "mset ys = mset xs" "set xs \<subseteq> S"
  shows "slices_SortFunc cmp xs = slices_SortFunc cmp ys"
  using assms sorted_SortFunc by (intro SortFunc_unique) simp_all

end

end
