(* ===== verification/Netip.thy ===== *)
theory Netip
  imports Prelude
begin

text \<open>
  The part of Go's standard package \<^verbatim>\<open>net/netip\<close> that the controller calls: addresses and
  prefixes, \<^verbatim>\<open>ParseAddr\<close>, \<^verbatim>\<open>ParsePrefix\<close>, \<^verbatim>\<open>String\<close>, \<^verbatim>\<open>Compare\<close>, \<^verbatim>\<open>Next\<close>, \<^verbatim>\<open>Masked\<close>,
  \<^verbatim>\<open>Prefix\<close> and \<^verbatim>\<open>IsSingleIP\<close>, and \<^verbatim>\<open>net.HardwareAddr.String\<close>. The theory instantiates
  \<open>linorder\<close> for addresses with the order of \<^verbatim>\<open>Addr.Compare\<close> and proves the parse/print round
  trip for IPv4 addresses and prefixes.

  An address is one of Go's three representations. \<open>AddrInvalid n\<close> is a value with no address
  family: \<^verbatim>\<open>Addr{}\<close> is \<open>AddrInvalid 0\<close>, and \<^verbatim>\<open>Addr{}.Next()\<close> is \<open>AddrInvalid 1\<close>. The second
  field of \<open>Addr6\<close> is the zone, empty for none.
\<close>

section \<open>Addresses\<close>

datatype Addr = AddrInvalid "128 word" | Addr4 "32 word" | Addr6 "128 word" string

definition zeroAddr :: Addr where
  "zeroAddr = AddrInvalid 0"

fun BitLen :: "Addr \<Rightarrow> nat" where
  "BitLen (AddrInvalid _) = 0"
| "BitLen (Addr4 _) = 32"
| "BitLen (Addr6 _ _) = 128"

fun Is4 :: "Addr \<Rightarrow> bool" where
  "Is4 (Addr4 _) = True"
| "Is4 _ = False"

fun Is6 :: "Addr \<Rightarrow> bool" where
  "Is6 (Addr6 _ _) = True"
| "Is6 _ = False"

fun Zone :: "Addr \<Rightarrow> string" where
  "Zone (Addr6 _ z) = z"
| "Zone _ = []"

fun addr_int :: "Addr \<Rightarrow> int" where
  "addr_int (AddrInvalid w) = uint w"
| "addr_int (Addr4 w) = uint w"
| "addr_int (Addr6 w _) = uint w"

text \<open>\<^verbatim>\<open>Addr.Compare\<close>: bit length first, then the address bits, then (for IPv6) the zone.\<close>

definition Addr_Compare :: "Addr \<Rightarrow> Addr \<Rightarrow> int" where
  "Addr_Compare a b =
     (if BitLen a < BitLen b then -1
      else if BitLen b < BitLen a then 1
      else if addr_int a < addr_int b then -1
      else if addr_int b < addr_int a then 1
      else if Is6 a \<and> Zone a < Zone b then -1
      else if Is6 a \<and> Zone b < Zone a then 1
      else 0)"

text \<open>\<^verbatim>\<open>Addr.Next\<close>: the zero address on overflow; the family is kept otherwise.\<close>

fun Next :: "Addr \<Rightarrow> Addr" where
  "Next (AddrInvalid w) = AddrInvalid (w + 1)"
| "Next (Addr4 w) = (if w + 1 = 0 then zeroAddr else Addr4 (w + 1))"
| "Next (Addr6 w z) = (if w + 1 = 0 then zeroAddr else Addr6 (w + 1) z)"

section \<open>Prefixes\<close>

text \<open>\<^verbatim>\<open>bitsPlusOne\<close> is 0 in the zero \<^verbatim>\<open>Prefix\<close>, whose \<^verbatim>\<open>Bits()\<close> is -1.\<close>

record Prefix =
  pfx_ip :: Addr
  bitsPlusOne :: int

definition zeroPrefix :: Prefix where
  "zeroPrefix = \<lparr>pfx_ip = zeroAddr, bitsPlusOne = 0\<rparr>"

definition Bits :: "Prefix \<Rightarrow> int" where
  "Bits p = bitsPlusOne p - 1"

definition Prefix_IsValid :: "Prefix \<Rightarrow> bool" where
  "Prefix_IsValid p = (0 < bitsPlusOne p)"

definition IsSingleIP :: "Prefix \<Rightarrow> bool" where
  "IsSingleIP p = (Prefix_IsValid p \<and> Bits p = int (BitLen (pfx_ip p)))"

fun withoutZone :: "Addr \<Rightarrow> Addr" where
  "withoutZone (Addr6 w _) = Addr6 w []"
| "withoutZone a = a"

definition PrefixFrom :: "Addr \<Rightarrow> int \<Rightarrow> Prefix" where
  "PrefixFrom a bits =
     \<lparr>pfx_ip = withoutZone a,
      bitsPlusOne =
        (if (Is4 a \<or> Is6 a) \<and> 0 \<le> bits \<and> bits \<le> int (BitLen a) then bits + 1 else 0)\<rparr>"

definition keep_high :: "nat \<Rightarrow> nat \<Rightarrow> 'a::len word \<Rightarrow> 'a word" where
  "keep_high width b w = push_bit (width - b) (drop_bit (width - b) w)"

text \<open>\<^verbatim>\<open>Addr.Prefix(b)\<close>; an address without a family gives the zero prefix and no error.\<close>

fun Addr_Prefix :: "Addr \<Rightarrow> int \<Rightarrow> Prefix result" where
  "Addr_Prefix a b =
     (if b < 0 then Inl (Errorf ''negative Prefix bits'')
      else (case a of
          AddrInvalid _ \<Rightarrow> Inr zeroPrefix
        | Addr4 w \<Rightarrow>
            (if 32 < b then Inl (Errorf ''prefix length too large for IPv4'')
             else Inr (PrefixFrom (Addr4 (keep_high 32 (nat b) w)) b))
        | Addr6 w z \<Rightarrow>
            (if 128 < b then Inl (Errorf ''prefix length too large for IPv6'')
             else Inr (PrefixFrom (Addr6 (keep_high 128 (nat b) w) z) b))))"

definition Masked :: "Prefix \<Rightarrow> Prefix" where
  "Masked p = (case Addr_Prefix (pfx_ip p) (Bits p) of Inl _ \<Rightarrow> zeroPrefix | Inr m \<Rightarrow> m)"

definition Prefix_Compare :: "Prefix \<Rightarrow> Prefix \<Rightarrow> int" where
  "Prefix_Compare p q =
     (let c = Addr_Compare (pfx_ip (Masked p)) (pfx_ip (Masked q)) in
      if c \<noteq> 0 then c
      else if Bits p < Bits q then -1
      else if Bits q < Bits p then 1
      else Addr_Compare (pfx_ip p) (pfx_ip q))"

section \<open>Parsing\<close>

text \<open>
  \<^verbatim>\<open>parseIPv4Fields\<close>, the loop over the bytes of the address: \<open>prev\<close> is the byte before the
  current one (\<open>None\<close> at index 0), \<open>val\<close> and \<open>digLen\<close> describe the current octet, \<open>fs\<close>
  holds the octets already closed (so \<^verbatim>\<open>pos\<close> is its length).
\<close>

fun parseIPv4Fields :: "char option \<Rightarrow> int \<Rightarrow> nat \<Rightarrow> int list \<Rightarrow> string \<Rightarrow> int list result" where
  "parseIPv4Fields prev val digLen fs [] =
     (if length fs < 3 then Inl (Errorf ''IPv4 address too short'')
      else Inr (fs @ [val]))"
| "parseIPv4Fields prev val digLen fs (c # cs) =
     (if is_digit c then
        (if digLen = 1 \<and> val = 0 then Inl (Errorf ''IPv4 field has octet with leading zero'')
         else if 255 < val * 10 + digit_val c then Inl (Errorf ''IPv4 field has value >255'')
         else parseIPv4Fields (Some c) (val * 10 + digit_val c) (digLen + 1) fs cs)
      else if c = CHR ''.'' then
        (if prev = None \<or> cs = [] \<or> prev = Some (CHR ''.'')
         then Inl (Errorf ''IPv4 field must have at least one digit'')
         else if length fs = 3 then Inl (Errorf ''IPv4 address too long'')
         else parseIPv4Fields (Some c) 0 0 (fs @ [val]) cs)
      else Inl (Errorf ''unexpected character''))"

fun bytes_int :: "int \<Rightarrow> int list \<Rightarrow> int" where
  "bytes_int acc [] = acc"
| "bytes_int acc (b # bs) = bytes_int (acc * 256 + b) bs"

definition AddrFrom4 :: "int list \<Rightarrow> Addr" where
  "AddrFrom4 fs = Addr4 (word_of_int (bytes_int 0 fs))"

definition parseIPv4 :: "string \<Rightarrow> Addr result" where
  "parseIPv4 s =
     (case parseIPv4Fields None 0 0 [] s of
        Inl e \<Rightarrow> Inl e
      | Inr fs \<Rightarrow> Inr (AddrFrom4 fs))"

definition hex_val :: "char \<Rightarrow> int option" where
  "hex_val c =
     (let n = (of_char c :: int) in
      if 48 \<le> n \<and> n \<le> 57 then Some (n - 48)
      else if 97 \<le> n \<and> n \<le> 102 then Some (n - 87)
      else if 65 \<le> n \<and> n \<le> 70 then Some (n - 55)
      else None)"

text \<open>One colon-separated group: the inner loop of \<^verbatim>\<open>parseIPv6\<close>; gives \<open>off\<close>, \<open>acc\<close> and the rest.\<close>

fun scan_hex :: "nat \<Rightarrow> int \<Rightarrow> string \<Rightarrow> (nat \<times> int \<times> string) result" where
  "scan_hex off acc [] = Inr (off, acc, [])"
| "scan_hex off acc (c # cs) =
     (case hex_val c of
        None \<Rightarrow> Inr (off, acc, c # cs)
      | Some v \<Rightarrow>
          (if 3 < off then Inl (Errorf ''each group must have 4 or less digits'')
           else if 65535 < acc * 16 + v then Inl (Errorf ''IPv6 field has value >=2^16'')
           else scan_hex (off + 1) (acc * 16 + v) cs))"

text \<open>
  The outer loop: \<open>ip\<close> holds the bytes written so far (so \<^verbatim>\<open>i\<close> is its length), \<open>ell\<close> the
  position of the ellipsis. The result is the state when the loop is left.
\<close>

function parseIPv6Loop ::
  "int list \<Rightarrow> nat option \<Rightarrow> string \<Rightarrow> (int list \<times> nat option \<times> string) result" where
  "parseIPv6Loop ip ell s =
     (if 16 \<le> length ip then Inr (ip, ell, s)
      else (case scan_hex 0 0 s of
        Inl e \<Rightarrow> Inl e
      | Inr (off, acc, r) \<Rightarrow>
         if off = 0 then Inl (Errorf ''each colon-separated field must have at least one digit'')
         else if r \<noteq> [] \<and> hd r = CHR ''.'' then
           (if ell = None \<and> length ip \<noteq> 12
            then Inl (Errorf ''embedded IPv4 address must replace the final 2 fs of the address'')
            else if 16 < length ip + 4
            then Inl (Errorf ''too many hex fs to fit an embedded IPv4 at the end of the address'')
            else (case parseIPv4Fields None 0 0 [] s of
                    Inl e \<Rightarrow> Inl e
                  | Inr fs \<Rightarrow> Inr (ip @ fs, ell, [])))
         else
           let ip' = ip @ [acc div 256, acc mod 256] in
           if r = [] then Inr (ip', ell, [])
           else if hd r \<noteq> CHR '':'' then Inl (Errorf ''unexpected character, want colon'')
           else if tl r = [] then Inl (Errorf ''colon must be followed by more characters'')
           else
             let s' = tl r in
             if hd s' = CHR '':'' then
               (if ell \<noteq> None then Inl (Errorf ''multiple :: in address'')
                else if tl s' = [] then Inr (ip', Some (length ip'), [])
                else parseIPv6Loop ip' (Some (length ip')) (tl s'))
             else parseIPv6Loop ip' ell s'))"
  by pat_completeness auto
termination
  by (relation "measure (\<lambda>(ip, ell, s). 16 - length ip)") auto

declare parseIPv6Loop.simps [simp del]

definition AddrFrom16 :: "int list \<Rightarrow> string \<Rightarrow> Addr" where
  "AddrFrom16 ip zone = Addr6 (word_of_int (bytes_int 0 ip)) zone"

definition parseIPv6 :: "string \<Rightarrow> Addr result" where
  "parseIPv6 input =
     (let s = takeWhile (\<lambda>c. c \<noteq> CHR ''%'') input;
          hasZone = CHR ''%'' \<in> set input;
          zone = drop (length s + 1) input in
      if hasZone \<and> zone = [] then Inl (Errorf ''zone must be a non-empty string'')
      else
        let lead = 2 \<le> length s \<and> take 2 s = ''::'';
            s' = (if lead then drop 2 s else s) in
        if lead \<and> s' = [] then Inr (AddrFrom16 (replicate 16 0) zone)
        else (case parseIPv6Loop [] (if lead then Some 0 else None) s' of
            Inl e \<Rightarrow> Inl e
          | Inr (ip, ell, rest) \<Rightarrow>
             if rest \<noteq> [] then Inl (Errorf ''trailing garbage after address'')
             else if length ip < 16 then
               (case ell of
                  None \<Rightarrow> Inl (Errorf ''address string too short'')
                | Some e \<Rightarrow>
                    Inr (AddrFrom16 (take e ip @ replicate (16 - length ip) 0 @ drop e ip) zone))
             else if ell \<noteq> None
             then Inl (Errorf ''the :: must expand to at least one field of zeros'')
             else Inr (AddrFrom16 ip zone)))"

definition ParseAddr :: "string \<Rightarrow> Addr result" where
  "ParseAddr s =
     (case dropWhile (\<lambda>c. c \<noteq> CHR ''.'' \<and> c \<noteq> CHR '':'' \<and> c \<noteq> CHR ''%'') s of
        [] \<Rightarrow> Inl (Errorf ''unable to parse IP'')
      | c # _ \<Rightarrow>
          (if c = CHR ''.'' then parseIPv4 s
           else if c = CHR '':'' then parseIPv6 s
           else Inl (Errorf ''missing IPv6 address'')))"

fun dec_val :: "int \<Rightarrow> string \<Rightarrow> int" where
  "dec_val acc [] = acc"
| "dec_val acc (c # cs) = dec_val (acc * 10 + digit_val c) cs"

text \<open>
  \<^verbatim>\<open>strconv.Atoi\<close> behind the guard of \<^verbatim>\<open>ParsePrefix\<close>: more than one byte must start with
  1 to 9, so a sign or a leading zero never reaches \<^verbatim>\<open>Atoi\<close> with digits after it; a single
  byte must be a digit. A value that does not fit \<^verbatim>\<open>int\<close> is an error of \<^verbatim>\<open>Atoi\<close>.
\<close>

definition parse_bits :: "string \<Rightarrow> int result" where
  "parse_bits bs =
     (if 1 < length bs \<and> (\<not> is_digit (hd bs) \<or> hd bs = CHR ''0'') then Inl (Errorf ''bad bits after slash'')
      else if bs = [] \<or> \<not> list_all is_digit bs then Inl (Errorf ''bad bits after slash'')
      else if 9223372036854775808 \<le> dec_val 0 bs then Inl (Errorf ''bad bits after slash'')
      else Inr (dec_val 0 bs))"

text \<open>\<^verbatim>\<open>LastIndexByteString(s, '/')\<close>: the text before and after the last slash.\<close>

definition split_last_slash :: "string \<Rightarrow> (string \<times> string) option" where
  "split_last_slash s =
     (if CHR ''/'' \<in> set s then
        let after = rev (takeWhile (\<lambda>c. c \<noteq> CHR ''/'') (rev s)) in
        Some (take (length s - length after - 1) s, after)
      else None)"

definition ParsePrefix :: "string \<Rightarrow> Prefix result" where
  "ParsePrefix s =
     (case split_last_slash s of
        None \<Rightarrow> Inl (Errorf ''no slash'')
      | Some (addr, bitsStr) \<Rightarrow>
         (case ParseAddr addr of
            Inl e \<Rightarrow> Inl e
          | Inr a \<Rightarrow>
              if Is6 a \<and> Zone a \<noteq> [] then Inl (Errorf ''IPv6 zones cannot be present in a prefix'')
              else (case parse_bits bitsStr of
                 Inl e \<Rightarrow> Inl e
               | Inr bits \<Rightarrow>
                   if (if Is6 a then 128 else 32) < bits then Inl (Errorf ''prefix length out of range'')
                   else Inr (PrefixFrom a bits))))"

section \<open>Printing\<close>

definition octets4 :: "32 word \<Rightarrow> int list" where
  "octets4 w =
     [uint w div 16777216 mod 256, uint w div 65536 mod 256, uint w div 256 mod 256, uint w mod 256]"

definition string4 :: "32 word \<Rightarrow> string" where
  "string4 w = join_with ''.'' (map dec_str (octets4 w))"

definition v6u16 :: "128 word \<Rightarrow> int list" where
  "v6u16 w = map (\<lambda>i. uint w div 65536 ^ (7 - i) mod 65536) [0..<8]"

text \<open>
  The longest run of at least two zero groups, the first one on a tie: the scan of
  \<^verbatim>\<open>appendTo6\<close> over start positions; the result is the run's start and end.
\<close>

definition zero_run_end :: "int list \<Rightarrow> nat \<Rightarrow> nat" where
  "zero_run_end gs i = i + length (takeWhile (\<lambda>g. g = 0) (drop i gs))"

definition longest_zero_run :: "int list \<Rightarrow> nat \<times> nat" where
  "longest_zero_run gs =
     fold (\<lambda>i (zs, ze).
             let j = zero_run_end gs i in
             if 2 \<le> j - i \<and> ze - zs < j - i then (i, j) else (zs, ze))
       [0..<8] (255, 255)"

definition hex_groups :: "int list \<Rightarrow> string" where
  "hex_groups gs = join_with '':'' (map hex_str gs)"

definition string6 :: "128 word \<Rightarrow> string" where
  "string6 w =
     (let gs = v6u16 w; (zs, ze) = longest_zero_run gs in
      if zs < 8 then hex_groups (take zs gs) @ ''::'' @ hex_groups (drop ze gs)
      else hex_groups gs)"

definition zone_suffix :: "string \<Rightarrow> string" where
  "zone_suffix z = (if z = [] then [] else ''%'' @ z)"

fun Addr_String :: "Addr \<Rightarrow> string" where
  "Addr_String (AddrInvalid _) = ''invalid IP''"
| "Addr_String (Addr4 w) = string4 w"
| "Addr_String (Addr6 w z) =
     (if uint w div 4294967296 = 65535 then ''::ffff:'' @ string4 (ucast w) @ zone_suffix z
      else string6 w @ zone_suffix z)"

definition Prefix_String :: "Prefix \<Rightarrow> string" where
  "Prefix_String p =
     (if Prefix_IsValid p then Addr_String (pfx_ip p) @ ''/'' @ int_str (Bits p)
      else ''invalid Prefix'')"

text \<open>\<^verbatim>\<open>net.HardwareAddr.String\<close>: two hexadecimal digits per byte, separated by colons.\<close>

definition HardwareAddr_String :: "int list \<Rightarrow> string" where
  "HardwareAddr_String bs = join_with '':'' (map hex_byte bs)"

section \<open>The order of addresses\<close>

text \<open>
  \<^verbatim>\<open>Addr.Compare\<close> is a linear order: it compares the injective key of bit length, bits and zone.
\<close>

definition addr_key :: "Addr \<Rightarrow> nat \<times> int \<times> string" where
  "addr_key a = (BitLen a, addr_int a, Zone a)"

lemma addr_key_inject: "addr_key a = addr_key b \<longleftrightarrow> a = b"
  by (cases a; cases b) (auto simp: addr_key_def word_uint_eq_iff)

instantiation Addr :: linorder
begin

definition less_eq_Addr :: "Addr \<Rightarrow> Addr \<Rightarrow> bool" where
  "less_eq_Addr a b = (addr_key a \<le> addr_key b)"

definition less_Addr :: "Addr \<Rightarrow> Addr \<Rightarrow> bool" where
  "less_Addr a b = (addr_key a < addr_key b)"

instance
proof
  fix a b c :: Addr
  show "a < b \<longleftrightarrow> a \<le> b \<and> \<not> b \<le> a"
    by (auto simp: less_eq_Addr_def less_Addr_def)
  show "a \<le> a"
    by (simp add: less_eq_Addr_def)
  show "a \<le> b \<Longrightarrow> b \<le> c \<Longrightarrow> a \<le> c"
    unfolding less_eq_Addr_def by (rule order_trans)
  show "a \<le> b \<Longrightarrow> b \<le> a \<Longrightarrow> a = b"
    unfolding less_eq_Addr_def using addr_key_inject order_antisym by blast
  show "a \<le> b \<or> b \<le> a"
    unfolding less_eq_Addr_def by (rule linear)
qed

end

lemma Addr_Compare_less: "Addr_Compare a b < 0 \<longleftrightarrow> a < b"
  by (cases a; cases b) (auto simp: Addr_Compare_def less_Addr_def addr_key_def less_prod_def)

lemma Addr_Compare_le: "Addr_Compare a b \<le> 0 \<longleftrightarrow> a \<le> b"
  by (cases a; cases b)
    (auto simp: Addr_Compare_def less_eq_Addr_def addr_key_def less_eq_prod_def not_less)

lemma Addr_Compare_eq: "Addr_Compare a b = 0 \<longleftrightarrow> a = b"
  using Addr_Compare_less [of a b] Addr_Compare_le [of a b] by auto

lemma Addr_Compare_greater: "0 < Addr_Compare a b \<longleftrightarrow> b < a"
  using Addr_Compare_le [of a b] by auto

interpretation addr_cmp: comparison Addr_Compare UNIV
  by unfold_locales
    (auto simp: Addr_Compare_eq Addr_Compare_less Addr_Compare_greater Addr_Compare_le)

lemma SortFunc_Addr: "slices_SortFunc Addr_Compare xs = sort xs"
proof (rule addr_cmp.SortFunc_unique)
  show "sorted_cmp Addr_Compare (sort xs)"
    by (simp add: sorted_cmp_def Addr_Compare_le)
qed simp_all

section \<open>Facts about parsed values\<close>

lemma parseIPv4_Is4: "parseIPv4 s = Inr a \<Longrightarrow> Is4 a"
  by (auto simp: parseIPv4_def AddrFrom4_def split: sum.splits)

lemma parseIPv6_Is6: "parseIPv6 s = Inr a \<Longrightarrow> Is6 a"
  by (auto simp: parseIPv6_def AddrFrom16_def Let_def split: sum.splits if_splits option.splits)

lemma ParseAddr_family: "ParseAddr s = Inr a \<Longrightarrow> Is4 a \<or> Is6 a"
  by (auto simp: ParseAddr_def dest: parseIPv4_Is4 parseIPv6_Is6 split: list.splits if_splits)

lemma dec_val_nonneg: "list_all is_digit s \<Longrightarrow> 0 \<le> acc \<Longrightarrow> 0 \<le> dec_val acc s"
  by (induction s arbitrary: acc) (auto simp: is_digit_def digit_val_def)

lemma parse_bits_nonneg: "parse_bits s = Inr n \<Longrightarrow> 0 \<le> n"
  by (auto simp: parse_bits_def dec_val_nonneg split: if_splits)

definition wf_prefix :: "Prefix \<Rightarrow> bool" where
  "wf_prefix p =
     ((Is4 (pfx_ip p) \<or> Is6 (pfx_ip p)) \<and> Zone (pfx_ip p) = [] \<and>
      0 \<le> Bits p \<and> Bits p \<le> int (BitLen (pfx_ip p)))"

lemma withoutZone_simps [simp]:
  "Is4 (withoutZone a) = Is4 a" "Is6 (withoutZone a) = Is6 a" "Zone (withoutZone a) = []"
  "BitLen (withoutZone a) = BitLen a"
  by (cases a; simp)+

lemma wf_PrefixFrom:
  "Is4 a \<or> Is6 a \<Longrightarrow> 0 \<le> b \<Longrightarrow> b \<le> int (BitLen a) \<Longrightarrow> wf_prefix (PrefixFrom a b)"
  by (auto simp: wf_prefix_def PrefixFrom_def Bits_def)

lemma ParsePrefix_wf:
  assumes "ParsePrefix s = Inr p"
  shows "wf_prefix p"
proof -
  obtain addr bs a bits where a: "ParseAddr addr = Inr a" and b: "parse_bits bs = Inr bits"
    and le: "\<not> (if Is6 a then 128 else 32) < bits" and p: "p = PrefixFrom a bits"
    using assms by (auto simp: ParsePrefix_def split: option.splits sum.splits if_splits)
  have "bits \<le> int (BitLen a)"
    using le ParseAddr_family [OF a] by (cases a) auto
  then show ?thesis
    unfolding p using ParseAddr_family [OF a] parse_bits_nonneg [OF b] by (intro wf_PrefixFrom)
qed

lemma wf_prefix_valid: "wf_prefix p \<Longrightarrow> Prefix_IsValid p"
  by (simp add: wf_prefix_def Prefix_IsValid_def Bits_def)

text \<open>Among single-address prefixes the address determines the prefix.\<close>

lemma single_ip_inject:
  assumes "IsSingleIP p" "IsSingleIP q" "pfx_ip p = pfx_ip q"
  shows "p = q"
  using assms by (simp add: IsSingleIP_def Bits_def)

section \<open>Round trip of IPv4 addresses and prefixes\<close>

lemma digit_not_dot: "is_digit c \<Longrightarrow> c \<noteq> CHR ''.'' \<and> c \<noteq> CHR '':'' \<and> c \<noteq> CHR ''%'' \<and> c \<noteq> CHR ''/''"
  by (auto simp: is_digit_def)

lemma digit_char_zero_iff:
  assumes "0 \<le> d" "d < 10"
  shows "digit_char d = CHR ''0'' \<longleftrightarrow> d = 0"
proof
  assume "digit_char d = CHR ''0''"
  then have "digit_val (digit_char d) = digit_val (CHR ''0'')" by simp
  with assms show "d = 0" by (simp add: digit_val_def of_char_digit_char)
next
  assume "d = 0"
  then show "digit_char d = CHR ''0''" by (simp add: digit_char_def char_of_def)
qed

lemma two_digits: "10 \<le> n \<Longrightarrow> n < 100 \<Longrightarrow> 0 < n div 10 \<and> n div 10 < 10"
  for n :: int
  by linarith

lemma three_digits:
  fixes n :: int
  assumes "100 \<le> n" "n < 256"
  shows "0 < n div 100" "n div 100 < 10" "n div 10 < 26" "n div 100 * 10 + n div 10 mod 10 = n div 10"
proof -
  have "n div 100 = n div 10 div 10" by (simp add: zdiv_zmult2_eq [symmetric])
  then show "n div 100 * 10 + n div 10 mod 10 = n div 10" by simp
qed (use assms in linarith)+

text \<open>Reading the decimal digits of an octet leaves the loop with that octet as its value.\<close>

lemma parse_octet:
  assumes "0 \<le> n" "n < 256"
  shows "\<exists>c d. is_digit c \<and>
    parseIPv4Fields prev 0 0 fs (dec_str n @ cs) = parseIPv4Fields (Some c) n d fs cs"
  using assms
proof (cases rule: dec_str_cases)
  case 1
  with assms show ?thesis
    by (intro exI [of _ "digit_char n"] exI [of _ 1]) simp
next
  case 2
  with two_digits [of n] assms show ?thesis
    by (intro exI [of _ "digit_char (n mod 10)"] exI [of _ 2]) (simp add: numeral_2_eq_2)
next
  case 3
  with three_digits [OF _ assms(2)] assms show ?thesis
    by (intro exI [of _ "digit_char (n mod 10)"] exI [of _ 3]) (simp add: numeral_3_eq_3)
qed

lemma parse_octet_dot:
  assumes "0 \<le> n" "n < 256" "cs \<noteq> []" "length fs < 3"
  shows "parseIPv4Fields prev 0 0 fs (dec_str n @ CHR ''.'' # cs) =
    parseIPv4Fields (Some (CHR ''.'')) 0 0 (fs @ [n]) cs"
proof -
  obtain c d where "is_digit c" and eq: "parseIPv4Fields prev 0 0 fs (dec_str n @ CHR ''.'' # cs) =
      parseIPv4Fields (Some c) n d fs (CHR ''.'' # cs)"
    using parse_octet [OF assms(1,2)] by blast
  then have "c \<noteq> CHR ''.''" "\<not> is_digit (CHR ''.'')"
    using digit_not_dot by auto
  with eq assms(3,4) show ?thesis by simp
qed

lemma parse_octet_last:
  assumes "0 \<le> n" "n < 256" "length fs = 3"
  shows "parseIPv4Fields prev 0 0 fs (dec_str n) = Inr (fs @ [n])"
proof -
  obtain c d where "parseIPv4Fields prev 0 0 fs (dec_str n @ []) = parseIPv4Fields (Some c) n d fs []"
    using parse_octet [OF assms(1,2)] by blast
  with assms(3) show ?thesis by simp
qed

lemma parseIPv4_octets:
  assumes "0 \<le> a" "a < 256" "0 \<le> b" "b < 256" "0 \<le> c" "c < 256" "0 \<le> d" "d < 256"
  shows "parseIPv4 (join_with ''.'' (map dec_str [a, b, c, d])) = Inr (AddrFrom4 [a, b, c, d])"
  using assms by (simp add: parseIPv4_def parse_octet_dot parse_octet_last)

lemma octets4_value: "bytes_int 0 (octets4 w) = uint w"
proof -
  define a where "a = uint w"
  have a: "0 \<le> a" "a < 4294967296"
    using uint_lt2p [of w] by (simp_all add: a_def)
  have d: "a div 65536 = a div 256 div 256" "a div 16777216 = a div 256 div 256 div 256"
    by (simp_all add: zdiv_zmult2_eq [symmetric])
  have "a div 256 div 256 div 256 < 256" "0 \<le> a div 256 div 256 div 256"
    using a by linarith+
  then have m: "a div 256 div 256 div 256 mod 256 = a div 256 div 256 div 256"
    by simp
  show ?thesis
    using div_mult_mod_eq [of a 256] div_mult_mod_eq [of "a div 256" 256]
      div_mult_mod_eq [of "a div 256 div 256" 256]
    by (simp add: octets4_def a_def [symmetric] d m)
qed

lemma parseIPv4_string4: "parseIPv4 (string4 w) = Inr (Addr4 w)"
proof -
  have "parseIPv4 (string4 w) = Inr (AddrFrom4 (octets4 w))"
    unfolding string4_def octets4_def by (rule parseIPv4_octets) simp_all
  then show ?thesis
    by (simp add: AddrFrom4_def octets4_value)
qed

lemma dropWhile_digits:
  assumes "\<forall>c \<in> set ds. is_digit c"
  shows "dropWhile (\<lambda>c. c \<noteq> CHR ''.'' \<and> c \<noteq> CHR '':'' \<and> c \<noteq> CHR ''%'') (ds @ CHR ''.'' # cs)
    = CHR ''.'' # cs"
  using assms by (induction ds) (auto dest: digit_not_dot)

lemma string4_shape: "\<exists>cs. string4 w = dec_str (uint w div 16777216 mod 256) @ CHR ''.'' # cs"
  by (simp add: string4_def octets4_def)

lemma ParseAddr_string4: "ParseAddr (string4 w) = Inr (Addr4 w)"
proof -
  obtain cs where s: "string4 w = dec_str (uint w div 16777216 mod 256) @ CHR ''.'' # cs"
    using string4_shape by blast
  have "dropWhile (\<lambda>c. c \<noteq> CHR ''.'' \<and> c \<noteq> CHR '':'' \<and> c \<noteq> CHR ''%'') (string4 w) = CHR ''.'' # cs"
    unfolding s by (rule dropWhile_digits) (auto intro: dec_str_digits [rotated])
  then show ?thesis
    by (simp add: ParseAddr_def parseIPv4_string4)
qed

lemma parse_bits_dec_str:
  assumes "0 \<le> n" "n < 256"
  shows "parse_bits (dec_str n) = Inr n"
  using assms
proof (cases rule: dec_str_cases)
  case 1
  with assms show ?thesis by (simp add: parse_bits_def)
next
  case 2
  with two_digits [of n] assms show ?thesis by (simp add: parse_bits_def digit_char_zero_iff)
next
  case 3
  with three_digits [OF _ assms(2)] assms show ?thesis by (simp add: parse_bits_def digit_char_zero_iff)
qed

lemma split_last_slash_append:
  assumes "CHR ''/'' \<notin> set bs"
  shows "split_last_slash (as @ CHR ''/'' # bs) = Some (as, bs)"
proof -
  have "takeWhile (\<lambda>c. c \<noteq> CHR ''/'') (rev bs @ CHR ''/'' # rev as) = rev bs"
    using assms by (subst takeWhile_append2) auto
  then show ?thesis by (simp add: split_last_slash_def)
qed

lemma ParsePrefix_round_trip:
  assumes "0 \<le> b" "b \<le> 32"
  shows "ParsePrefix (string4 w @ ''/'' @ dec_str b) = Inr \<lparr>pfx_ip = Addr4 w, bitsPlusOne = b + 1\<rparr>"
proof -
  have "CHR ''/'' \<notin> set (dec_str b)"
    using dec_str_digits [OF assms(1)] digit_not_dot by blast
  with assms show ?thesis
    by (simp add: ParsePrefix_def split_last_slash_append ParseAddr_string4 parse_bits_dec_str
        PrefixFrom_def)
qed

lemma Prefix_String4: "Is4 (pfx_ip p) \<Longrightarrow> wf_prefix p \<Longrightarrow>
    ParsePrefix (Prefix_String p) = Inr p"
proof -
  assume "Is4 (pfx_ip p)" "wf_prefix p"
  then obtain w where w: "pfx_ip p = Addr4 w" and b: "0 \<le> Bits p" "Bits p \<le> 32"
    by (cases "pfx_ip p") (auto simp: wf_prefix_def)
  have "Prefix_String p = string4 w @ ''/'' @ dec_str (Bits p)"
    using w b by (simp add: Prefix_String_def Prefix_IsValid_def Bits_def int_str_def)
  moreover have "p = \<lparr>pfx_ip = Addr4 w, bitsPlusOne = Bits p + 1\<rparr>"
    using w by (simp add: Bits_def)
  ultimately show ?thesis
    using ParsePrefix_round_trip [OF b] by simp
qed

end
