(* ===== verification/ApiTypes.thy ===== *)
theory ApiTypes
  imports Netip
begin

text \<open>
  The data of the controller: the \<^verbatim>\<open>v1alpha1\<close> API types
  (\<^verbatim>\<open>api/v1alpha1/loadbalancerconfig_types.go\<close>), the Kubernetes objects the controller reads, the
  reconciler's own configuration, and the two records through which the model sees the world:
  \<open>ext\<close> holds the third-party functions the code calls (multierr, x/exp/maps, tailscale's route
  table, the Kubernetes client) and \<open>host\<close> the operating system (network interfaces, processes,
  file-system faults). Nothing is assumed about them here; the laws the proofs rely on are the
  predicates \<open>Combine_spec\<close> and \<open>Keys_spec\<close>.
\<close>

section \<open>LoadBalancerConfig\<close>

definition AddressTypePrivate :: string where
  "AddressTypePrivate = ''private''"

definition AddressTypePublic :: string where
  "AddressTypePublic = ''public''"

record VirtualAddress =
  va_Type :: string
  va_Address :: string

record LoadBalancerConfigVIPs =
  vips_API :: "VirtualAddress list"
  vips_Ingress :: "VirtualAddress list"
  vips_NAT :: "VirtualAddress option"

record LabelSelectorRequirement =
  req_Key :: string
  req_Operator :: string
  req_Values :: "string list"

record LabelSelector =
  MatchLabels :: "string \<rightharpoonup> string"
  MatchExpressions :: "LabelSelectorRequirement list"

record LoadBalancerConfigBackend =
  NodeSelector :: LabelSelector

record LoadBalancerConfigSpec =
  Cloud :: string
  CloudCredentials :: string
  Distribution :: string
  VirtualAddresses :: LoadBalancerConfigVIPs
  APIBackend :: LoadBalancerConfigBackend
  IngressBackend :: "LoadBalancerConfigBackend option"
  FirewallRules :: "string list"

text \<open>A nil Go map is \<open>None\<close>; a map value that is a nil pointer is \<open>Some None\<close>.\<close>

record LoadBalancerNodeStatus =
  PublicIP :: string
  PrivateIP :: string
  VrrpIP :: string
  ConfigHashes :: "(string \<rightharpoonup> string) option"
  NodeStatus :: string

definition NodeStatusConfiguring :: string where
  "NodeStatusConfiguring = ''Configuring''"

definition NodeStatusReady :: string where
  "NodeStatusReady = ''Ready''"

definition NodeStatusFailed :: string where
  "NodeStatusFailed = ''Failed''"

record Condition =
  cond_Type :: string
  cond_Status :: string
  cond_ObservedGeneration :: int
  cond_LastTransitionTime :: int
  cond_Reason :: string
  cond_Message :: string

record LoadBalancerConfigStatus =
  Nodes :: "(string \<rightharpoonup> LoadBalancerNodeStatus option) option"
  Conditions :: "Condition list"

record ObjectMeta =
  Namespace :: string
  Name :: string
  UID :: string
  Generation :: int

record LoadBalancerConfig =
  Meta :: ObjectMeta
  Spec :: LoadBalancerConfigSpec
  Status :: LoadBalancerConfigStatus

text \<open>\<^verbatim>\<open>&LoadBalancerNodeStatus{}\<close>, the zero value.\<close>

definition zeroNodeStatus :: LoadBalancerNodeStatus where
  "zeroNodeStatus =
     \<lparr>PublicIP = [], PrivateIP = [], VrrpIP = [], ConfigHashes = None, NodeStatus = []\<rparr>"

text \<open>\<^verbatim>\<open>lbconfig.Status.Nodes[host]\<close>: nil (\<open>None\<close>) for a nil map, a missing key or a nil pointer.\<close>

definition node_ptr :: "LoadBalancerConfig \<Rightarrow> string \<Rightarrow> LoadBalancerNodeStatus option" where
  "node_ptr c h =
     (case Nodes (Status c) of
        None \<Rightarrow> None
      | Some m \<Rightarrow> (case m h of None \<Rightarrow> None | Some p \<Rightarrow> p))"

text \<open>A store through the pointer \<^verbatim>\<open>lbconfig.Status.Nodes[host]\<close>, where it is not nil.\<close>

definition set_node ::
  "string \<Rightarrow> LoadBalancerNodeStatus \<Rightarrow> LoadBalancerConfig \<Rightarrow> LoadBalancerConfig" where
  "set_node h ns c =
     c\<lparr>Status := Status c\<lparr>Nodes := map_option (\<lambda>m. m(h \<mapsto> Some ns)) (Nodes (Status c))\<rparr>\<rparr>"

section \<open>Kubernetes objects the controller reads\<close>

record NodeAddress =
  na_Type :: string
  na_Address :: string

record Node =
  node_Name :: string
  node_Labels :: "string \<rightharpoonup> string"
  node_Addresses :: "NodeAddress list"

definition NodeInternalIP :: string where
  "NodeInternalIP = ''InternalIP''"

record Secret =
  sec_Namespace :: string
  sec_Name :: string
  sec_Data :: "string \<rightharpoonup> string"
  sec_StringData :: "string \<rightharpoonup> string"

type_synonym NamespacedName = "string \<times> string"

type_synonym Selector = "(string \<rightharpoonup> string) \<Rightarrow> bool"

section \<open>The reconciler and its surroundings\<close>

record KeepalivedConfig =
  IsPrimary :: bool

record LoadBalancerConfigReconciler =
  ConfigRoot :: string
  PublicInterface :: string
  ClusterNetwork :: Prefix
  WatchNamespace :: string
  Hostname :: string
  Keepalived_Config :: KeepalivedConfig

record Backend =
  be_Name :: string
  be_Address :: string

record LocalBackendConfiguration =
  local_API :: "Backend list"
  local_Ingress :: "Backend list"

record RouteEntry =
  rt_Dst :: Prefix
  rt_Interface :: string

record Interface =
  HardwareAddr :: "int list"
  Addrs :: "string list result"

text \<open>
  A file-system operation, by the path it works on. \<open>io_fault op = Some n\<close> is a failure of the
  operation; for a write, \<open>n\<close> is the number of bytes that reached the file before it failed.
\<close>

datatype io_op = MkdirAll string | OpenFile string | WriteString string | CloseFile string | ReadFile string

text \<open>
  \<^verbatim>\<open>maps.Keys\<close> of a Go map used as a set: the map is the list of its distinct keys, and the
  parameter may enumerate them in any order.
\<close>

record ext =
  multierr_Combine :: "error option list \<Rightarrow> error option"
  maps_Keys_Addr :: "Addr list \<Rightarrow> Addr list"
  maps_Keys_Prefix :: "Prefix list \<Rightarrow> Prefix list"
  routetable_Get :: "int \<Rightarrow> RouteEntry list result"
  LabelSelectorAsSelector :: "LabelSelector \<Rightarrow> Selector result"
  client_ListNodes :: "Selector \<Rightarrow> Node list result"
  client_GetLB :: "NamespacedName \<Rightarrow> LoadBalancerConfig result"
  client_GetSecret :: "NamespacedName \<Rightarrow> Secret result"
  client_ListLB :: "LoadBalancerConfig list result"
  client_StatusUpdate :: "LoadBalancerConfig \<Rightarrow> error option"
  client_IgnoreNotFound :: "error \<Rightarrow> error option"

record host =
  InterfaceByName :: "string \<Rightarrow> Interface result"
  exec_Run :: "string list \<Rightarrow> error option"
  io_fault :: "io_op \<Rightarrow> nat option"
  umask :: "12 word"

text \<open>Documented behaviour of the third-party functions.\<close>

definition Combine_spec :: "ext \<Rightarrow> bool" where
  "Combine_spec x = (\<forall>es. multierr_Combine x es = None \<longleftrightarrow> (\<forall>e \<in> set es. e = None))"

definition Keys_spec :: "ext \<Rightarrow> bool" where
  "Keys_spec x =
     ((\<forall>ks. distinct ks \<longrightarrow> mset (maps_Keys_Addr x ks) = mset ks) \<and>
      (\<forall>ks. distinct ks \<longrightarrow> mset (maps_Keys_Prefix x ks) = mset ks))"

section \<open>Lemmas\<close>

lemma set_node_frame [simp]:
  "Meta (set_node h ns c) = Meta c" "Spec (set_node h ns c) = Spec c"
  "Conditions (Status (set_node h ns c)) = Conditions (Status c)"
  by (simp_all add: set_node_def)

lemma node_ptr_set_node:
  "node_ptr (set_node h ns c) h' =
     (if h' = h \<and> Nodes (Status c) \<noteq> None then Some ns else node_ptr c h')"
  by (auto simp: node_ptr_def set_node_def split: option.splits)

lemma node_ptr_nodes: "node_ptr c h = Some ns \<Longrightarrow> Nodes (Status c) \<noteq> None"
  by (auto simp: node_ptr_def split: option.splits)

lemma set_node_set_node [simp]: "set_node h b (set_node h a c) = set_node h b c"
  by (cases "Nodes (Status c)") (simp_all add: set_node_def)

lemma set_node_same: "node_ptr c h = Some ns \<Longrightarrow> set_node h ns c = c"
  by (auto simp: node_ptr_def set_node_def fun_upd_idem split: option.splits)

lemma Combine_None: "Combine_spec x \<Longrightarrow> multierr_Combine x (map Some es) = None \<longleftrightarrow> es = []"
  by (cases es) (auto simp: Combine_spec_def)

end
