(* ===== verification/Samples.thy ===== *)
theory Samples
  imports ApiTypes
begin

text \<open>
  A concrete cluster and load balancer, close to \<^verbatim>\<open>examples/openshift-cloudscale.yaml\<close>, at which
  the witnesses evaluate the properties. The third-party functions are instantiated by functions
  that satisfy their documented behaviour; the key order of \<^verbatim>\<open>maps.Keys\<close> is deliberately not the
  sorted one.
\<close>

definition sample_prefix :: "32 word \<Rightarrow> Prefix" where
  "sample_prefix w = \<lparr>pfx_ip = Addr4 w, bitsPlusOne = 33\<rparr>"

text \<open>172.18.200.0/24\<close>

definition sample_network :: Prefix where
  "sample_network = \<lparr>pfx_ip = Addr4 2886912000, bitsPlusOne = 25\<rparr>"

definition sample_nodes :: "Node list" where
  "sample_nodes =
     [\<lparr>node_Name = ''master-0'', node_Labels = [''role'' \<mapsto> ''master''],
       node_Addresses =
         [\<lparr>na_Type = ''Hostname'', na_Address = ''master-0''\<rparr>,
          \<lparr>na_Type = ''InternalIP'', na_Address = ''172.18.200.10''\<rparr>]\<rparr>,
      \<lparr>node_Name = ''master-1'', node_Labels = [''role'' \<mapsto> ''master''],
       node_Addresses = [\<lparr>na_Type = ''InternalIP'', na_Address = ''172.18.200.11''\<rparr>]\<rparr>]"

definition sample_vips :: LoadBalancerConfigVIPs where
  "sample_vips =
     \<lparr>vips_API =
        [\<lparr>va_Type = ''private'', va_Address = ''192.168.100.100/32''\<rparr>,
         \<lparr>va_Type = ''public'', va_Address = ''198.51.100.100/32''\<rparr>],
      vips_Ingress = [\<lparr>va_Type = ''public'', va_Address = ''198.51.100.80/32''\<rparr>],
      vips_NAT = Some \<lparr>va_Type = ''public'', va_Address = ''198.51.100.253/32''\<rparr>\<rparr>"

definition sample_selector :: LabelSelector where
  "sample_selector = \<lparr>MatchLabels = [''role'' \<mapsto> ''master''], MatchExpressions = []\<rparr>"

definition sample_spec :: LoadBalancerConfigSpec where
  "sample_spec =
     \<lparr>Cloud = ''cloudscale'', CloudCredentials = ''cloudscale-token'', Distribution = ''openshift'',
      VirtualAddresses = sample_vips,
      APIBackend = \<lparr>NodeSelector = sample_selector\<rparr>,
      IngressBackend = Some \<lparr>NodeSelector = sample_selector\<rparr>,
      FirewallRules = []\<rparr>"

definition sample_lbconfig :: LoadBalancerConfig where
  "sample_lbconfig =
     \<lparr>Meta = \<lparr>Namespace = ''default'', Name = ''test-lb'', UID = ''u-1'', Generation = 1\<rparr>,
      Spec = sample_spec, Status = \<lparr>Nodes = None, Conditions = []\<rparr>\<rparr>"

definition sample_secret :: Secret where
  "sample_secret =
     \<lparr>sec_Namespace = ''default'', sec_Name = ''cloudscale-token'',
      sec_Data = [''token'' \<mapsto> ''verysecrettoken''], sec_StringData = Map.empty\<rparr>"

definition sample_ext :: ext where
  "sample_ext =
     \<lparr>multierr_Combine = (\<lambda>es. case filter (\<lambda>e. e \<noteq> None) es of [] \<Rightarrow> None | e # _ \<Rightarrow> e),
      maps_Keys_Addr = rev, maps_Keys_Prefix = rev,
      routetable_Get = (\<lambda>_. Inr [\<lparr>rt_Dst = sample_network, rt_Interface = ''eth1''\<rparr>]),
      LabelSelectorAsSelector = (\<lambda>_. Inr (\<lambda>_. True)),
      client_ListNodes = (\<lambda>_. Inr sample_nodes),
      client_GetLB = (\<lambda>_. Inr sample_lbconfig),
      client_GetSecret = (\<lambda>_. Inr sample_secret),
      client_ListLB = Inr [sample_lbconfig],
      client_StatusUpdate = (\<lambda>_. None),
      client_IgnoreNotFound = Some\<rparr>"

definition sample_host :: host where
  "sample_host =
     \<lparr>InterfaceByName =
        (\<lambda>n. if n = ''eth0'' then
               Inr \<lparr>HardwareAddr = [2, 0, 0, 0, 0, 1], Addrs = Inr [''198.51.100.5/24'']\<rparr>
             else if n = ''eth1'' then
               Inr \<lparr>HardwareAddr = [2, 0, 0, 0, 0, 2], Addrs = Inr [''172.18.200.2/32'', ''172.18.200.5/24'']\<rparr>
             else Inl (Errorf ''no such network interface'')),
      exec_Run = (\<lambda>_. None),
      io_fault = (\<lambda>_. None),
      umask = 18\<rparr>"

definition sample_reconciler :: LoadBalancerConfigReconciler where
  "sample_reconciler =
     \<lparr>ConfigRoot = ''/'', PublicInterface = ''eth0'', ClusterNetwork = sample_network,
      WatchNamespace = ''default'', Hostname = ''lb1'',
      Keepalived_Config = \<lparr>IsPrimary = True\<rparr>\<rparr>"

lemma sample_Combine: "Combine_spec sample_ext"
proof -
  have "(case filter (\<lambda>e. e \<noteq> None) es of [] \<Rightarrow> None | e # _ \<Rightarrow> e) = None \<longleftrightarrow> (\<forall>e \<in> set es. e = None)"
    for es :: "error option list"
    by (induction es) auto
  then show ?thesis
    by (simp add: Combine_spec_def sample_ext_def)
qed

lemma sample_Keys: "Keys_spec sample_ext"
  by (simp add: Keys_spec_def sample_ext_def)

lemmas sample_specs = sample_Combine sample_Keys

end
