(* ===== verification/Vip.thy ===== *)
theory Vip
  imports Samples
begin

text \<open>
  \<^verbatim>\<open>internal/controller/vip.go\<close>: parsing of virtual addresses, the HAProxy frontends and
  backends, the private (Keepalived) and public (Floaty) address lists, and the internal
  addresses of the two load balancers. A Go map with empty struct values is the list of its
  distinct keys; \<open>add_key\<close> is the store \<^verbatim>\<open>m[k] = struct{}{}\<close>.
\<close>

section \<open>Definitions\<close>

definition add_key :: "'a \<Rightarrow> 'a list \<Rightarrow> 'a list" where
  "add_key k m = (if k \<in> set m then m else m @ [k])"

record FrontendData =
  fe_API :: "Addr list"
  fe_Ignition :: "Addr list"
  fe_Ingress :: "Addr list"

record InternalIPs =
  ii_ClusterNetwork :: Prefix
  ii_DefaultGateway :: Addr
  ii_Primary :: Addr
  ii_Secondary :: Addr

definition parseVIP :: "VirtualAddress \<Rightarrow> Prefix result" where
  "parseVIP addr =
     (case ParsePrefix (va_Address addr) of
        Inl e \<Rightarrow> Inl (Wrapf ''failed to parse VIP'' e)
      | Inr a \<Rightarrow>
          if \<not> IsSingleIP a then Inl (Errorf ''address ranges not supported as VIP'')
          else Inr a)"

definition sortIPs :: "Addr list \<Rightarrow> Addr list" where
  "sortIPs ips = slices_SortFunc Addr_Compare ips"

definition prefix_addr_cmp :: "Prefix \<Rightarrow> Prefix \<Rightarrow> int" where
  "prefix_addr_cmp a b = Addr_Compare (pfx_ip a) (pfx_ip b)"

definition sortPrefixes :: "Prefix list \<Rightarrow> Prefix list" where
  "sortPrefixes pfx = slices_SortFunc prefix_addr_cmp pfx"

text \<open>The address of the first \<^verbatim>\<open>InternalIP\<close> entry of a node (the inner loop breaks there).\<close>

fun node_backend :: "Node \<Rightarrow> NodeAddress list \<Rightarrow> Backend list" where
  "node_backend node [] = []"
| "node_backend node (addr # addrs) =
     (if na_Type addr = NodeInternalIP
      then [\<lparr>be_Name = node_Name node, be_Address = na_Address addr\<rparr>]
      else node_backend node addrs)"

definition getHAProxyBackends :: "ext \<Rightarrow> LabelSelector \<Rightarrow> Backend list result" where
  "getHAProxyBackends x ls =
     (case LabelSelectorAsSelector x ls of
        Inl e \<Rightarrow> Inl (Wrapf ''failed to convert node selector'' e)
      | Inr nodeSelector \<Rightarrow>
         (case client_ListNodes x nodeSelector of
            Inl e \<Rightarrow> Inl (Wrapf ''failed to list nodes'' e)
          | Inr nodes \<Rightarrow>
              Inr (concat (map (\<lambda>node. node_backend node (node_Addresses node)) nodes))))"

text \<open>The bodies of the two loops of \<^verbatim>\<open>getHAProxyFrontends\<close>.\<close>

fun frontend_api_step ::
  "VirtualAddress \<Rightarrow> Addr list \<times> Addr list \<times> error list \<Rightarrow> Addr list \<times> Addr list \<times> error list"
where
  "frontend_api_step address (api, ignition, errors) =
     (case parseVIP address of
        Inr addr \<Rightarrow>
          (add_key (pfx_ip addr) api,
           if va_Type address = AddressTypePrivate then add_key (pfx_ip addr) ignition else ignition,
           errors)
      | Inl err \<Rightarrow> (api, ignition, errors @ [err]))"

fun frontend_ingress_step ::
  "VirtualAddress \<Rightarrow> Addr list \<times> error list \<Rightarrow> Addr list \<times> error list" where
  "frontend_ingress_step address (ingress, errors) =
     (case parseVIP address of
        Inr addr \<Rightarrow> (add_key (pfx_ip addr) ingress, errors)
      | Inl err \<Rightarrow> (ingress, errors @ [err]))"

definition getHAProxyFrontends :: "ext \<Rightarrow> LoadBalancerConfigVIPs \<Rightarrow> FrontendData \<times> error option" where
  "getHAProxyFrontends x vips =
     (let (api, ignition, errors) = fold frontend_api_step (vips_API vips) ([], [], []);
          (ingress, errors') = fold frontend_ingress_step (vips_Ingress vips) ([], errors) in
      (\<lparr>fe_API = sortIPs (maps_Keys_Addr x api),
        fe_Ignition = sortIPs (maps_Keys_Addr x ignition),
        fe_Ingress = sortIPs (maps_Keys_Addr x ingress)\<rparr>,
       multierr_Combine x (map Some errors')))"

text \<open>
  One address of type \<open>ty\<close> in the loops of \<^verbatim>\<open>privateVIPs\<close> and \<^verbatim>\<open>publicVIPs\<close>; an address of
  another type is skipped before it is parsed.
\<close>

fun vip_step ::
  "string \<Rightarrow> VirtualAddress \<Rightarrow> Prefix list \<times> error list \<Rightarrow> Prefix list \<times> error list" where
  "vip_step ty address (addrs, errors) =
     (if va_Type address \<noteq> ty then (addrs, errors)
      else (case parseVIP address of
          Inr a \<Rightarrow> (add_key a addrs, errors)
        | Inl err \<Rightarrow> (addrs, errors @ [err])))"

definition nat_step ::
  "string \<Rightarrow> VirtualAddress option \<Rightarrow> Prefix list \<times> error list \<Rightarrow> Prefix list \<times> error list" where
  "nat_step ty natVip s = (case natVip of None \<Rightarrow> s | Some a \<Rightarrow> vip_step ty a s)"

definition privateVIPs ::
  "ext \<Rightarrow> LoadBalancerConfigVIPs \<Rightarrow> Prefix list \<Rightarrow> Prefix list \<times> error option" where
  "privateVIPs x vips additionalVIPs =
     (let addrs0 = fold add_key additionalVIPs [];
          s1 = fold (vip_step AddressTypePrivate) (vips_API vips) (addrs0, []);
          s2 = fold (vip_step AddressTypePrivate) (vips_Ingress vips) s1;
          (addrs, errors) = nat_step AddressTypePrivate (vips_NAT vips) s2 in
      (sortPrefixes (maps_Keys_Prefix x addrs), multierr_Combine x (map Some errors)))"

definition publicVIPs :: "ext \<Rightarrow> LoadBalancerConfigVIPs \<Rightarrow> Prefix list \<times> error option" where
  "publicVIPs x vips =
     (let s1 = fold (vip_step AddressTypePublic) (vips_API vips) ([], []);
          s2 = fold (vip_step AddressTypePublic) (vips_Ingress vips) s1;
          (addrs, errors) = nat_step AddressTypePublic (vips_NAT vips) s2 in
      (sortPrefixes (maps_Keys_Prefix x addrs), multierr_Combine x (map Some errors)))"

definition internalIPs :: "LoadBalancerConfigReconciler \<Rightarrow> InternalIPs result" where
  "internalIPs r =
     (let netaddr = pfx_ip (Masked (ClusterNetwork r)) in
      if \<not> Is4 netaddr then Inl (Errorf ''IPv6 cluster network isn't supported'')
      else
        let defaultGateway = Next netaddr;
            primaryIP = Next defaultGateway;
            secondaryIP = Next primaryIP in
        Inr \<lparr>ii_ClusterNetwork = zeroPrefix, ii_DefaultGateway = defaultGateway,
             ii_Primary = primaryIP, ii_Secondary = secondaryIP\<rparr>)"

definition myInternalIP :: "InternalIPs \<Rightarrow> bool \<Rightarrow> string" where
  "myInternalIP ip isPrimary =
     (if isPrimary then Addr_String (ii_Primary ip) else Addr_String (ii_Secondary ip))"

definition peerInternalIP :: "InternalIPs \<Rightarrow> bool \<Rightarrow> string" where
  "peerInternalIP ip isPrimary =
     (if isPrimary then Addr_String (ii_Secondary ip) else Addr_String (ii_Primary ip))"

section \<open>What the address lists mean\<close>

text \<open>The specification: the addresses of one type that a resource lists, and the prefixes they denote.\<close>

definition all_vips :: "LoadBalancerConfigVIPs \<Rightarrow> VirtualAddress list" where
  "all_vips vips = vips_API vips @ vips_Ingress vips @ (case vips_NAT vips of None \<Rightarrow> [] | Some a \<Rightarrow> [a])"

definition parsed :: "VirtualAddress list \<Rightarrow> Prefix set" where
  "parsed vs = {p. \<exists>v \<in> set vs. parseVIP v = Inr p}"

definition parsed_list :: "VirtualAddress list \<Rightarrow> Prefix list" where
  "parsed_list vs = concat (map (\<lambda>v. case parseVIP v of Inr p \<Rightarrow> [p] | Inl _ \<Rightarrow> []) vs)"

definition parse_errors :: "VirtualAddress list \<Rightarrow> error list" where
  "parse_errors vs = concat (map (\<lambda>v. case parseVIP v of Inl e \<Rightarrow> [e] | Inr _ \<Rightarrow> []) vs)"

definition of_type :: "string \<Rightarrow> VirtualAddress list \<Rightarrow> VirtualAddress list" where
  "of_type ty vs = filter (\<lambda>v. va_Type v = ty) vs"

text \<open>The prefixes that address lists contain: single addresses, or the zero prefix.\<close>

definition vip_prefixes :: "Prefix set" where
  "vip_prefixes = {p. wf_prefix p \<and> IsSingleIP p} \<union> {zeroPrefix}"

text \<open>The address \<open>a\<close> belongs to the network of the prefix \<open>p\<close>.\<close>

definition in_network :: "Prefix \<Rightarrow> Addr \<Rightarrow> bool" where
  "in_network p a = (Is4 a = Is4 (pfx_ip p) \<and> pfx_ip (Masked (p\<lparr>pfx_ip := a\<rparr>)) = pfx_ip (Masked p))"

section \<open>Lemmas\<close>

lemma set_add_key [simp]: "set (add_key k m) = insert k (set m)"
  by (auto simp: add_key_def)

lemma distinct_add_key [simp]: "distinct m \<Longrightarrow> distinct (add_key k m)"
  by (simp add: add_key_def)

lemma fold_add_key: "set (fold add_key ks m) = set ks \<union> set m"
  by (induction ks arbitrary: m) auto

lemma distinct_fold_add_key: "distinct m \<Longrightarrow> distinct (fold add_key ks m)"
  by (induction ks arbitrary: m) auto

lemma parseVIP_ok: "parseVIP v = Inr p \<Longrightarrow> wf_prefix p \<and> IsSingleIP p"
  by (auto simp: parseVIP_def dest: ParsePrefix_wf split: sum.splits if_splits)

lemma parsed_vip_prefixes: "parsed vs \<subseteq> vip_prefixes"
  by (auto simp: parsed_def vip_prefixes_def dest: parseVIP_ok)

lemma parsed_append [simp]: "parsed (xs @ ys) = parsed xs \<union> parsed ys"
  by (auto simp: parsed_def)

lemma parse_errors_append [simp]: "parse_errors (xs @ ys) = parse_errors xs @ parse_errors ys"
  by (simp add: parse_errors_def)

lemma parse_errors_Nil_iff: "parse_errors vs = [] \<longleftrightarrow> (\<forall>v \<in> set vs. is_ok (parseVIP v))"
  by (induction vs) (auto simp: parse_errors_def is_ok_def split: sum.splits)

lemma wf_prefix_not_zero: "wf_prefix p \<Longrightarrow> pfx_ip p \<noteq> AddrInvalid n"
  by (cases "pfx_ip p") (simp_all add: wf_prefix_def)

lemma vip_prefixes_inject:
  assumes "p \<in> vip_prefixes" "q \<in> vip_prefixes" "pfx_ip p = pfx_ip q"
  shows "p = q"
  using assms single_ip_inject [of p q] wf_prefix_not_zero [of p 0] wf_prefix_not_zero [of q 0]
  by (auto simp: vip_prefixes_def zeroPrefix_def zeroAddr_def)

interpretation prefix_cmp: comparison prefix_addr_cmp vip_prefixes
  by unfold_locales
    (auto simp: prefix_addr_cmp_def Addr_Compare_eq Addr_Compare_less Addr_Compare_greater
      Addr_Compare_le intro: vip_prefixes_inject)

lemma set_parsed_list: "set (parsed_list vs) = parsed vs"
  by (induction vs) (auto simp: parsed_list_def parsed_def split: sum.splits)

lemma vip_fold:
  "fold (vip_step ty) vs (addrs, errs) =
     (fold add_key (parsed_list (of_type ty vs)) addrs, errs @ parse_errors (of_type ty vs))"
  by (induction vs arbitrary: addrs errs)
    (auto simp: of_type_def parse_errors_def parsed_list_def split: sum.splits)

lemma vip_fold_facts:
  assumes "fold (vip_step ty) vs (addrs, errs) = (addrs', errs')" and "distinct addrs"
  shows "distinct addrs'" "set addrs' = set addrs \<union> parsed (of_type ty vs)"
    "errs' = errs @ parse_errors (of_type ty vs)"
  using assms by (auto simp: vip_fold distinct_fold_add_key fold_add_key set_parsed_list)

lemma vip_fold_all:
  "nat_step ty (vips_NAT vips)
     (fold (vip_step ty) (vips_Ingress vips) (fold (vip_step ty) (vips_API vips) s)) =
   fold (vip_step ty) (all_vips vips) s"
  by (auto simp: nat_step_def all_vips_def split: option.splits)

lemma Keys_Prefix_spec:
  assumes "Keys_spec x" "distinct ks"
  shows "mset (maps_Keys_Prefix x ks) = mset ks" "set (maps_Keys_Prefix x ks) = set ks"
  using assms by (auto simp: Keys_spec_def dest: mset_eq_setD)

lemma Keys_Addr_spec:
  assumes "Keys_spec x" "distinct ks"
  shows "mset (maps_Keys_Addr x ks) = mset ks" "set (maps_Keys_Addr x ks) = set ks"
  using assms by (auto simp: Keys_spec_def dest: mset_eq_setD)

text \<open>Sorting the keys of a set of prefixes: sorted by address, without duplicates, any key order.\<close>

lemma sortPrefixes_keys:
  assumes "Keys_spec x" "distinct ks" "set ks \<subseteq> vip_prefixes"
  shows "distinct (sortPrefixes (maps_Keys_Prefix x ks))"
    "set (sortPrefixes (maps_Keys_Prefix x ks)) = set ks"
    "sorted (map pfx_ip (sortPrefixes (maps_Keys_Prefix x ks)))"
    "sortPrefixes (maps_Keys_Prefix x ks) = sortPrefixes ks"
proof -
  note k = Keys_Prefix_spec [OF assms(1,2)]
  show "set (sortPrefixes (maps_Keys_Prefix x ks)) = set ks"
    by (simp add: sortPrefixes_def k)
  show "distinct (sortPrefixes (maps_Keys_Prefix x ks))"
    using k(1) assms(2) mset_eq_imp_distinct_iff by (auto simp: sortPrefixes_def)
  show "sorted (map pfx_ip (sortPrefixes (maps_Keys_Prefix x ks)))"
    using prefix_cmp.sorted_SortFunc [of "maps_Keys_Prefix x ks"]
    by (simp add: sortPrefixes_def sorted_cmp_def prefix_addr_cmp_def Addr_Compare_le sorted_map)
  show "sortPrefixes (maps_Keys_Prefix x ks) = sortPrefixes ks"
    unfolding sortPrefixes_def using k assms(3) by (intro prefix_cmp.SortFunc_perm) simp_all
qed

lemma sortIPs_keys:
  assumes "Keys_spec x" "distinct ks"
  shows "sortIPs (maps_Keys_Addr x ks) = sorted_list_of_set (set ks)"
proof -
  note k = Keys_Addr_spec [OF assms]
  have "distinct (maps_Keys_Addr x ks)"
    using k(1) assms(2) mset_eq_imp_distinct_iff by blast
  then show ?thesis
    using k(2) by (simp add: sortIPs_def SortFunc_Addr sorted_list_of_set_sort_remdups
        distinct_remdups_id flip: k(2))
qed

text \<open>The strictly sorted list of a finite set of prefixes with different addresses is unique.\<close>

lemma prefix_list_unique:
  assumes "distinct ps" "distinct qs" "sorted (map pfx_ip ps)" "sorted (map pfx_ip qs)"
    "set ps = set qs" "set ps \<subseteq> vip_prefixes"
  shows "ps = qs"
proof (rule prefix_cmp.sorted_cmp_unique)
  show "sorted_cmp prefix_addr_cmp ps" "sorted_cmp prefix_addr_cmp qs"
    using assms(3,4) by (simp_all add: sorted_cmp_def prefix_addr_cmp_def Addr_Compare_le sorted_map)
  show "mset ps = mset qs"
    using assms(1,2,5) by (simp add: set_eq_iff_mset_eq_distinct)
qed (rule assms(6))

section \<open>Masks and the internal addresses\<close>

lemma uint_keep_high4:
  fixes w :: "32 word"
  assumes "b \<le> 32"
  shows "uint (keep_high 32 b w) = uint w div 2 ^ (32 - b) * 2 ^ (32 - b)"
proof -
  have "uint w div 2 ^ (32 - b) * 2 ^ (32 - b) \<le> uint w"
    by (simp add: minus_mod_eq_div_mult [symmetric])
  also have "uint w < 2 ^ 32"
    using uint_lt2p [of w] by simp
  finally have "uint w div 2 ^ (32 - b) * 2 ^ (32 - b) < 2 ^ 32" .
  moreover have "0 \<le> uint w div 2 ^ (32 - b) * 2 ^ (32 - b)"
    by (intro mult_nonneg_nonneg) (simp_all add: pos_imp_zdiv_nonneg_iff)
  moreover have "take_bit 32 (uint w) = uint w"
    using uint_lt2p [of w] by (simp add: take_bit_int_eq_self)
  ultimately show ?thesis
    unfolding keep_high_def unsigned_push_bit_eq unsigned_drop_bit_eq
    by (simp add: drop_bit_eq_div push_bit_eq_mult take_bit_int_eq_self)
qed

lemma Masked4:
  assumes "pfx_ip p = Addr4 w" "0 \<le> Bits p" "Bits p \<le> 32"
  shows "pfx_ip (Masked p) = Addr4 (keep_high 32 (nat (Bits p)) w)"
  using assms by (simp add: Masked_def PrefixFrom_def)

text \<open>The network address of a prefix of at most 30 bits leaves room for three addresses.\<close>

lemma keep_high_room:
  fixes w :: "32 word"
  assumes "b \<le> 30" "i < 4"
  shows "uint (keep_high 32 b w + of_nat i) = uint (keep_high 32 b w) + int i"
    and "keep_high 32 b (keep_high 32 b w + of_nat i) = keep_high 32 b w"
proof -
  define m where "m = (2::int) ^ (32 - b)"
  define k where "k = uint w div m"
  have "(2::int) ^ 2 dvd m"
    unfolding m_def using assms(1) by (intro le_imp_power_dvd) simp
  then obtain q where q: "m = 4 * q" by (auto elim: dvdE)
  have m0: "0 < m" by (simp add: m_def)
  have n: "uint (keep_high 32 b w) = k * m"
    using assms(1) by (simp add: uint_keep_high4 k_def m_def)
  have M: "(4294967296::int) = 2 ^ b * m"
    using assms(1) by (simp add: m_def flip: power_add)
  have "k * m < 2 ^ b * m"
    using uint_lt2p [of "keep_high 32 b w"] M n by simp
  then have "k + 1 \<le> 2 ^ b"
    using m0 by simp
  then have "(k + 1) * m \<le> 4294967296"
    unfolding M using m0 by (intro mult_right_mono) simp_all
  moreover have "1 \<le> q"
    using m0 q by simp
  then have im: "int i < m"
    using q assms(2) by linarith
  ultimately have lt: "k * m + int i < 4294967296"
    by (simp add: algebra_simps)
  have "0 \<le> k * m"
    using n by (metis uint_ge_0)
  have "take_bit 32 i = i"
    using assms(2) by (simp add: take_bit_nat_eq_self)
  with lt \<open>0 \<le> k * m\<close> show u: "uint (keep_high 32 b w + of_nat i) = uint (keep_high 32 b w) + int i"
    unfolding n [symmetric]
    by (simp add: uint_word_ariths unsigned_of_nat mod_pos_pos_trivial)
  have "(k * m + int i) div m = k"
    using m0 im by simp
  then show "keep_high 32 b (keep_high 32 b w + of_nat i) = keep_high 32 b w"
    using assms(1) u n by (simp add: word_uint_eq_iff uint_keep_high4 m_def)
qed

lemma string4_inject: "string4 v = string4 w \<longleftrightarrow> v = w"
  using ParseAddr_string4 by (metis Addr.inject(2) sum.inject(2))

text \<open>The three addresses the code derives from the network address.\<close>

lemma internalIPs_eq:
  assumes "pfx_ip (ClusterNetwork r) = Addr4 w" "0 \<le> Bits (ClusterNetwork r)" "Bits (ClusterNetwork r) \<le> 30"
  defines "n \<equiv> keep_high 32 (nat (Bits (ClusterNetwork r))) w"
  shows "internalIPs r = Inr \<lparr>ii_ClusterNetwork = zeroPrefix, ii_DefaultGateway = Addr4 (n + 1),
           ii_Primary = Addr4 (n + 2), ii_Secondary = Addr4 (n + 3)\<rparr>"
proof -
  have b: "nat (Bits (ClusterNetwork r)) \<le> 30"
    using assms(3) by simp
  have "uint (n + 1) = uint n + 1" "uint (n + 2) = uint n + 2" "uint (n + 3) = uint n + 3"
    using keep_high_room(1) [OF b, of 1 w] keep_high_room(1) [OF b, of 2 w]
      keep_high_room(1) [OF b, of 3 w] by (simp_all add: n_def)
  moreover have "0 \<le> uint n" by simp
  ultimately have "0 < uint (n + 1)" "0 < uint (n + 2)" "0 < uint (n + 3)"
    by linarith+
  then have "n + 1 \<noteq> 0" "n + 2 \<noteq> 0" "n + 3 \<noteq> 0"
    by auto
  moreover have "n + 1 + 1 = n + 2" "n + 2 + 1 = n + 3"
    by simp_all
  moreover have "pfx_ip (Masked (ClusterNetwork r)) = Addr4 n"
    using assms(1-3) unfolding n_def by (intro Masked4) simp_all
  ultimately show ?thesis
    by (simp add: internalIPs_def Let_def add.commute)
qed

lemma in_network4:
  assumes "pfx_ip p = Addr4 w" "0 \<le> Bits p" "Bits p \<le> 30" "i < 4"
  shows "in_network p (Addr4 (keep_high 32 (nat (Bits p)) w + of_nat i))"
proof -
  have "Bits (p\<lparr>pfx_ip := a\<rparr>) = Bits p" for a
    by (simp add: Bits_def)
  then show ?thesis
    using assms keep_high_room(2) [of "nat (Bits p)" i w]
    by (simp add: in_network_def Masked4)
qed

section \<open>Correctness of the address lists\<close>

lemma VIPs_facts:
  assumes "Combine_spec x" "Keys_spec x" "distinct m" "set m \<subseteq> vip_prefixes"
    and f: "fold (vip_step ty) (all_vips vips) (m, []) = (addrs, errs)"
  defines "ps \<equiv> sortPrefixes (maps_Keys_Prefix x addrs)"
  shows "set ps = set m \<union> parsed (of_type ty (all_vips vips))" "distinct ps" "sorted (map pfx_ip ps)"
    "ps = sortPrefixes addrs"
    "multierr_Combine x (map Some errs) = None \<longleftrightarrow>
       (\<forall>v \<in> set (of_type ty (all_vips vips)). is_ok (parseVIP v))"
proof -
  note facts = vip_fold_facts [OF f assms(3)]
  have "set addrs \<subseteq> vip_prefixes"
    using facts(2) assms(4) parsed_vip_prefixes by auto
  note keys = sortPrefixes_keys [OF assms(2) facts(1) this]
  show "set ps = set m \<union> parsed (of_type ty (all_vips vips))" "distinct ps"
    "sorted (map pfx_ip ps)" "ps = sortPrefixes addrs"
    using keys facts(2) by (simp_all add: ps_def)
  show "multierr_Combine x (map Some errs) = None \<longleftrightarrow>
       (\<forall>v \<in> set (of_type ty (all_vips vips)). is_ok (parseVIP v))"
    using facts(3) by (simp add: Combine_None [OF assms(1)] parse_errors_Nil_iff)
qed

lemma privateVIPs_fold:
  "privateVIPs x vips extra =
     (let (addrs, errors) = fold (vip_step AddressTypePrivate) (all_vips vips) (fold add_key extra [], []) in
      (sortPrefixes (maps_Keys_Prefix x addrs), multierr_Combine x (map Some errors)))"
  by (simp add: privateVIPs_def vip_fold_all Let_def)

lemma publicVIPs_fold:
  "publicVIPs x vips =
     (let (addrs, errors) = fold (vip_step AddressTypePublic) (all_vips vips) ([], []) in
      (sortPrefixes (maps_Keys_Prefix x addrs), multierr_Combine x (map Some errors)))"
  by (simp add: publicVIPs_def vip_fold_all Let_def)

lemma privateVIPs_correct:
  assumes "Combine_spec x" "Keys_spec x" "set extra \<subseteq> vip_prefixes"
  shows "set (fst (privateVIPs x vips extra)) =
      set extra \<union> parsed (of_type AddressTypePrivate (all_vips vips))"
    "distinct (fst (privateVIPs x vips extra))"
    "sorted (map pfx_ip (fst (privateVIPs x vips extra)))"
    "snd (privateVIPs x vips extra) = None \<longleftrightarrow>
      (\<forall>v \<in> set (of_type AddressTypePrivate (all_vips vips)). is_ok (parseVIP v))"
proof -
  obtain addrs errs where f:
    "fold (vip_step AddressTypePrivate) (all_vips vips) (fold add_key extra [], []) = (addrs, errs)"
    by (cases "fold (vip_step AddressTypePrivate) (all_vips vips) (fold add_key extra [], [])")
  note * = VIPs_facts [OF assms(1,2) _ _ f]
  show "set (fst (privateVIPs x vips extra)) =
      set extra \<union> parsed (of_type AddressTypePrivate (all_vips vips))"
    "distinct (fst (privateVIPs x vips extra))"
    "sorted (map pfx_ip (fst (privateVIPs x vips extra)))"
    "snd (privateVIPs x vips extra) = None \<longleftrightarrow>
      (\<forall>v \<in> set (of_type AddressTypePrivate (all_vips vips)). is_ok (parseVIP v))"
    using * assms(3) by (simp_all add: privateVIPs_fold f distinct_fold_add_key fold_add_key)
qed

lemma publicVIPs_correct:
  assumes "Combine_spec x" "Keys_spec x"
  shows "set (fst (publicVIPs x vips)) = parsed (of_type AddressTypePublic (all_vips vips))"
    "distinct (fst (publicVIPs x vips))"
    "sorted (map pfx_ip (fst (publicVIPs x vips)))"
    "snd (publicVIPs x vips) = None \<longleftrightarrow>
      (\<forall>v \<in> set (of_type AddressTypePublic (all_vips vips)). is_ok (parseVIP v))"
proof -
  obtain addrs errs where f:
    "fold (vip_step AddressTypePublic) (all_vips vips) ([], []) = (addrs, errs)"
    by (cases "fold (vip_step AddressTypePublic) (all_vips vips) ([], [])")
  note * = VIPs_facts [OF assms _ _ f]
  show "set (fst (publicVIPs x vips)) = parsed (of_type AddressTypePublic (all_vips vips))"
    "distinct (fst (publicVIPs x vips))"
    "sorted (map pfx_ip (fst (publicVIPs x vips)))"
    "snd (publicVIPs x vips) = None \<longleftrightarrow>
      (\<forall>v \<in> set (of_type AddressTypePublic (all_vips vips)). is_ok (parseVIP v))"
    using * by (simp_all add: publicVIPs_fold f)
qed

section \<open>Correctness of the frontends\<close>

lemma frontend_api_fold:
  "fold frontend_api_step vs (api, ign, errs) =
     (fold add_key (map pfx_ip (parsed_list vs)) api,
      fold add_key (map pfx_ip (parsed_list (of_type AddressTypePrivate vs))) ign,
      errs @ parse_errors vs)"
  by (induction vs arbitrary: api ign errs)
    (auto simp: of_type_def parse_errors_def parsed_list_def split: sum.splits)

lemma frontend_ingress_fold:
  "fold frontend_ingress_step vs (ing, errs) =
     (fold add_key (map pfx_ip (parsed_list vs)) ing, errs @ parse_errors vs)"
  by (induction vs arbitrary: ing errs)
    (auto simp: parse_errors_def parsed_list_def split: sum.splits)

lemma sortIPs_fold:
  assumes "Keys_spec x"
  shows "sortIPs (maps_Keys_Addr x (fold add_key ks [])) = sorted_list_of_set (set ks)"
  using sortIPs_keys [OF assms, of "fold add_key ks []"]
  by (simp add: distinct_fold_add_key fold_add_key)

lemma getHAProxyFrontends_eq:
  assumes "Keys_spec x"
  shows "getHAProxyFrontends x vips =
    (\<lparr>fe_API = sorted_list_of_set (pfx_ip ` parsed (vips_API vips)),
      fe_Ignition = sorted_list_of_set (pfx_ip ` parsed (of_type AddressTypePrivate (vips_API vips))),
      fe_Ingress = sorted_list_of_set (pfx_ip ` parsed (vips_Ingress vips))\<rparr>,
     multierr_Combine x (map Some (parse_errors (vips_API vips @ vips_Ingress vips))))"
  by (simp add: getHAProxyFrontends_def frontend_api_fold frontend_ingress_fold
      sortIPs_fold [OF assms] set_parsed_list)

lemma node_backend_find:
  "node_backend node addrs =
     (case find (\<lambda>a. na_Type a = NodeInternalIP) addrs of
        None \<Rightarrow> []
      | Some a \<Rightarrow> [\<lparr>be_Name = node_Name node, be_Address = na_Address a\<rparr>])"
  by (induction addrs) auto

section \<open>Properties\<close>

text \<open>
  C15: Keepalived and Floaty together manage exactly the configured addresses. When every address
  has one of the two types and is a single address in CIDR notation, \<^verbatim>\<open>privateVIPs\<close> and
  \<^verbatim>\<open>publicVIPs\<close> succeed, each list holds exactly the addresses of its type, sorted and without
  duplicates, and nothing is lost between them.
\<close>

theorem vip_lists_cover:
  assumes "Combine_spec x" "Keys_spec x"
    and "\<forall>v \<in> set (all_vips vips).
      va_Type v \<in> {AddressTypePrivate, AddressTypePublic} \<and> is_ok (parseVIP v)"
  shows "snd (privateVIPs x vips []) = None \<and> snd (publicVIPs x vips) = None \<and>
    set (fst (privateVIPs x vips [])) = parsed (of_type AddressTypePrivate (all_vips vips)) \<and>
    set (fst (publicVIPs x vips)) = parsed (of_type AddressTypePublic (all_vips vips)) \<and>
    set (fst (privateVIPs x vips [])) \<union> set (fst (publicVIPs x vips)) = parsed (all_vips vips) \<and>
    sorted_wrt (<) (map pfx_ip (fst (privateVIPs x vips []))) \<and>
    sorted_wrt (<) (map pfx_ip (fst (publicVIPs x vips)))"
proof -
  note pr = privateVIPs_correct [OF assms(1,2), of "[]" vips, simplified]
  note pu = publicVIPs_correct [OF assms(1,2), of vips]
  have ok: "snd (privateVIPs x vips []) = None" "snd (publicVIPs x vips) = None"
    using pr(4) pu(4) assms(3) by (auto simp: of_type_def)
  have cover: "parsed (of_type AddressTypePrivate vs) \<union> parsed (of_type AddressTypePublic vs) = parsed vs"
    if "\<forall>v \<in> set vs. va_Type v \<in> {AddressTypePrivate, AddressTypePublic}" for vs
    using that by (auto simp: parsed_def of_type_def)
  have strict: "sorted_wrt (<) (map pfx_ip ps)"
    if "distinct ps" "sorted (map pfx_ip ps)" "set ps \<subseteq> vip_prefixes" for ps
    using that vip_prefixes_inject by (auto simp: strict_sorted_iff distinct_map inj_on_def subset_iff)
  show ?thesis
    using ok pr(1-3) pu(1-3) cover [of "all_vips vips"] assms(3)
    by (auto intro!: strict dest: subsetD [OF parsed_vip_prefixes])
qed

theorem vip_lists_cover_witness:
  "fst (privateVIPs sample_ext sample_vips []) = [sample_prefix 3232261220] \<and>
   set (fst (publicVIPs sample_ext sample_vips)) =
     {sample_prefix 3325256784, sample_prefix 3325256804, sample_prefix 3325256957}"
proof -
  have "\<forall>v \<in> set (all_vips sample_vips).
      va_Type v \<in> {AddressTypePrivate, AddressTypePublic} \<and> is_ok (parseVIP v)"
    by code_simp
  note vip_lists_cover [OF sample_specs this]
  moreover have "parsed (of_type AddressTypePublic (all_vips sample_vips)) =
      set (parsed_list (of_type AddressTypePublic (all_vips sample_vips)))"
    by (simp add: set_parsed_list)
  moreover have "parsed_list (of_type AddressTypePublic (all_vips sample_vips)) =
      [sample_prefix 3325256804, sample_prefix 3325256784, sample_prefix 3325256957]"
    by code_simp
  moreover have "fst (privateVIPs sample_ext sample_vips []) = [sample_prefix 3232261220]"
    by code_simp
  ultimately show ?thesis by auto
qed

text \<open>
  C21: The rendered address lists do not depend on Go's map iteration order: for any two ways of
  enumerating map keys, the private and public address lists and the HAProxy frontends are equal,
  so an unchanged resource never renders to different files.
\<close>

theorem vip_lists_order_independent:
  assumes "Keys_spec x" "Keys_spec y" "multierr_Combine x = multierr_Combine y"
    and "set extra \<subseteq> vip_prefixes"
  shows "privateVIPs x vips extra = privateVIPs y vips extra \<and>
    publicVIPs x vips = publicVIPs y vips \<and>
    getHAProxyFrontends x vips = getHAProxyFrontends y vips"
proof -
  have eq: "sortPrefixes (maps_Keys_Prefix x addrs) = sortPrefixes (maps_Keys_Prefix y addrs)"
    if "fold (vip_step ty) (all_vips vips) (m, []) = (addrs, errs)" "distinct m" "set m \<subseteq> vip_prefixes"
    for ty m addrs errs
  proof -
    note facts = vip_fold_facts [OF that(1,2)]
    have "set addrs \<subseteq> vip_prefixes"
      using facts(2) that(3) parsed_vip_prefixes by auto
    then show ?thesis
      using sortPrefixes_keys(4) [OF assms(1) facts(1)] sortPrefixes_keys(4) [OF assms(2) facts(1)]
      by simp
  qed
  have "privateVIPs x vips extra = privateVIPs y vips extra"
    using eq [of AddressTypePrivate "fold add_key extra []"] assms(3,4)
    by (simp add: privateVIPs_fold distinct_fold_add_key fold_add_key split: prod.splits)
  moreover have "publicVIPs x vips = publicVIPs y vips"
    using eq [of AddressTypePublic "[]"] assms(3) by (simp add: publicVIPs_fold split: prod.splits)
  ultimately show ?thesis
    using assms(3) by (simp add: getHAProxyFrontends_eq [OF assms(1)] getHAProxyFrontends_eq [OF assms(2)])
qed

theorem vip_lists_order_independent_witness:
  "publicVIPs sample_ext sample_vips = publicVIPs (sample_ext\<lparr>maps_Keys_Prefix := id\<rparr>) sample_vips"
proof -
  have "Keys_spec (sample_ext\<lparr>maps_Keys_Prefix := id\<rparr>)"
    by (simp add: Keys_spec_def sample_ext_def)
  then show ?thesis
    using vip_lists_order_independent [OF sample_Keys, of "sample_ext\<lparr>maps_Keys_Prefix := id\<rparr>" "[]" sample_vips]
    by simp
qed

text \<open>
  C22: The HAProxy frontends bind exactly the configured addresses: the API frontends are the
  addresses of the API list in ascending order, the ignition frontends the private ones among
  them, the ingress frontends the addresses of the ingress list; the call reports an error exactly
  when some address of these two lists does not parse.
\<close>

theorem frontends_spec:
  assumes "Combine_spec x" "Keys_spec x"
  shows "fe_API (fst (getHAProxyFrontends x vips)) = sorted_list_of_set (pfx_ip ` parsed (vips_API vips)) \<and>
    fe_Ignition (fst (getHAProxyFrontends x vips)) =
      sorted_list_of_set (pfx_ip ` parsed (of_type AddressTypePrivate (vips_API vips))) \<and>
    fe_Ingress (fst (getHAProxyFrontends x vips)) = sorted_list_of_set (pfx_ip ` parsed (vips_Ingress vips)) \<and>
    (snd (getHAProxyFrontends x vips) = None \<longleftrightarrow>
      (\<forall>v \<in> set (vips_API vips) \<union> set (vips_Ingress vips). is_ok (parseVIP v)))"
  using parse_errors_Nil_iff [of "vips_API vips @ vips_Ingress vips"]
  by (simp add: getHAProxyFrontends_eq [OF assms(2)] Combine_None [OF assms(1)]
      del: parse_errors_append)

theorem frontends_spec_witness:
  "snd (getHAProxyFrontends sample_ext sample_vips) = None \<and>
   set (fe_API (fst (getHAProxyFrontends sample_ext sample_vips))) = {Addr4 3232261220, Addr4 3325256804}"
proof -
  have "\<forall>v \<in> set (vips_API sample_vips) \<union> set (vips_Ingress sample_vips). is_ok (parseVIP v)"
    by code_simp
  moreover have "parsed_list (vips_API sample_vips) = [sample_prefix 3232261220, sample_prefix 3325256804]"
    by code_simp
  then have "pfx_ip ` parsed (vips_API sample_vips) = {Addr4 3232261220, Addr4 3325256804}"
    by (simp add: sample_prefix_def flip: set_parsed_list)
  ultimately show ?thesis
    using frontends_spec [OF sample_specs, of sample_vips] by auto
qed

text \<open>
  C23: The backends are the first internal address of every selected node that has one, in the
  order in which the API server lists the nodes; a selector that does not convert and a failed list
  call are reported as errors.
\<close>

theorem backends_spec:
  "getHAProxyBackends x ls =
     (case LabelSelectorAsSelector x ls of
        Inl e \<Rightarrow> Inl (Wrapf ''failed to convert node selector'' e)
      | Inr sel \<Rightarrow>
         (case client_ListNodes x sel of
            Inl e \<Rightarrow> Inl (Wrapf ''failed to list nodes'' e)
          | Inr nodes \<Rightarrow>
              Inr (List.map_filter (\<lambda>n. map_option
                     (\<lambda>a. \<lparr>be_Name = node_Name n, be_Address = na_Address a\<rparr>)
                     (find (\<lambda>a. na_Type a = NodeInternalIP) (node_Addresses n))) nodes)))"
proof -
  have "concat (map (\<lambda>node. node_backend node (node_Addresses node)) nodes) =
      List.map_filter (\<lambda>n. map_option (\<lambda>a. \<lparr>be_Name = node_Name n, be_Address = na_Address a\<rparr>)
        (find (\<lambda>a. na_Type a = NodeInternalIP) (node_Addresses n))) nodes" for nodes
    by (induction nodes) (auto simp: node_backend_find List.map_filter_def split: option.splits)
  then show ?thesis
    by (simp add: getHAProxyBackends_def split: sum.splits)
qed

text \<open>
  C16: For an IPv4 cluster network of at most 30 prefix bits, the default gateway and the two load
  balancer addresses are the first three host addresses of the network: they exist, lie in the
  network and differ; the peer of each load balancer is the other one, and the two never use the
  same address.
\<close>

theorem internal_addresses:
  assumes "pfx_ip (ClusterNetwork r) = Addr4 w" "0 \<le> Bits (ClusterNetwork r)" "Bits (ClusterNetwork r) \<le> 30"
  shows "\<exists>ii n. internalIPs r = Inr ii \<and> pfx_ip (Masked (ClusterNetwork r)) = Addr4 n \<and>
    ii_DefaultGateway ii = Addr4 (n + 1) \<and> ii_Primary ii = Addr4 (n + 2) \<and> ii_Secondary ii = Addr4 (n + 3) \<and>
    in_network (ClusterNetwork r) (ii_DefaultGateway ii) \<and>
    in_network (ClusterNetwork r) (ii_Primary ii) \<and> in_network (ClusterNetwork r) (ii_Secondary ii) \<and>
    distinct [Addr4 n, ii_DefaultGateway ii, ii_Primary ii, ii_Secondary ii] \<and>
    (\<forall>p. peerInternalIP ii p = myInternalIP ii (\<not> p)) \<and> myInternalIP ii True \<noteq> myInternalIP ii False"
proof -
  define n where "n = keep_high 32 (nat (Bits (ClusterNetwork r))) w"
  note ii = internalIPs_eq [OF assms, folded n_def]
  have "in_network (ClusterNetwork r) (Addr4 (n + of_nat i))" if "i < 4" for i
    using in_network4 [OF assms that] by (simp add: n_def)
  from this [of 1] this [of 2] this [of 3] show ?thesis
    using ii Masked4 [OF assms(1,2)] assms(3)
    by (auto simp: n_def [symmetric] myInternalIP_def peerInternalIP_def string4_inject)
qed

theorem internal_addresses_witness:
  "\<exists>ii. internalIPs sample_reconciler = Inr ii \<and> in_network sample_network (ii_Primary ii) \<and>
    myInternalIP ii True \<noteq> myInternalIP ii False"
  using internal_addresses [of sample_reconciler 2886912000]
  by (auto simp: sample_reconciler_def sample_network_def Bits_def)

text \<open>
  C39: Writing an IPv4 address in CIDR notation and parsing it again gives the address back, so
  every IPv4 address can be configured as a virtual address of either type, and it is accepted
  exactly when its prefix length is 32.
\<close>

theorem parseVIP_round_trip:
  assumes "pfx_ip p = Addr4 w" "0 \<le> Bits p" "Bits p \<le> 32"
  shows "ParsePrefix (Prefix_String p) = Inr p \<and>
    parseVIP \<lparr>va_Type = ty, va_Address = Prefix_String p\<rparr> =
      (if Bits p = 32 then Inr p else Inl (Errorf ''address ranges not supported as VIP''))"
proof -
  have "ParsePrefix (Prefix_String p) = Inr p"
    using assms by (intro Prefix_String4) (simp_all add: wf_prefix_def)
  then show ?thesis
    using assms by (simp add: parseVIP_def IsSingleIP_def Prefix_IsValid_def Bits_def)
qed

theorem parseVIP_round_trip_witness:
  "parseVIP \<lparr>va_Type = ''public'', va_Address = ''198.51.100.80/32''\<rparr> = Inr (sample_prefix 3325256784)"
proof -
  have "Prefix_String (sample_prefix 3325256784) = ''198.51.100.80/32''"
    by code_simp
  then show ?thesis
    using parseVIP_round_trip [of "sample_prefix 3325256784" 3325256784 "''public''"]
    by (simp add: sample_prefix_def Bits_def)
qed

end
