(* ===== verification/Template.thy ===== *)
theory Template
  imports Netip
begin

text \<open>
  Go's standard package \<^verbatim>\<open>text/template\<close>, as far as the controller's templates use it: actions in
  double braces with trim markers, \<^verbatim>\<open>range\<close> with zero, one or two variables, \<^verbatim>\<open>if\<close>, \<^verbatim>\<open>end\<close>, field
  chains, variables, pipelines, parentheses and the functions \<^verbatim>\<open>len\<close>, \<^verbatim>\<open>gt\<close> and \<^verbatim>\<open>idx1\<close>.
  \<open>parse_template\<close> is \<^verbatim>\<open>Parse\<close> and \<open>exec_template\<close> is \<^verbatim>\<open>Execute\<close>; anything outside this part of
  the language (quoted strings, comments, \<^verbatim>\<open>else\<close>, \<^verbatim>\<open>with\<close>) is an error of the model's parser.
\<close>

section \<open>Lexing\<close>

datatype piece = Text string | Action string

definition is_space :: "char \<Rightarrow> bool" where
  "is_space c = (c \<in> {CHR '' '', CHR 0x09, CHR 0x0D, CHR 0x0A})"

definition ltrim :: "string \<Rightarrow> string" where
  "ltrim s = dropWhile is_space s"

definition rtrim :: "string \<Rightarrow> string" where
  "rtrim s = rev (dropWhile is_space (rev s))"

text \<open>The text before the first occurrence of a doubled brace, and the text after it.\<close>

fun split_double :: "char \<Rightarrow> string \<Rightarrow> string \<times> string option" where
  "split_double d [] = ([], None)"
| "split_double d (c # cs) =
     (if c = d \<and> cs \<noteq> [] \<and> hd cs = d then ([], Some (tl cs))
      else (let (p, r) = split_double d cs in (c # p, r)))"

definition left_trim_marker :: "string \<Rightarrow> bool" where
  "left_trim_marker s = (2 \<le> length s \<and> hd s = CHR ''-'' \<and> is_space (s ! 1))"

definition right_trim_marker :: "string \<Rightarrow> bool" where
  "right_trim_marker s = (let r = rev s in 2 \<le> length r \<and> hd r = CHR ''-'' \<and> is_space (r ! 1))"

definition text_piece :: "string \<Rightarrow> piece list" where
  "text_piece t = (if t = [] then [] else [Text t])"

lemma split_double_length: "split_double d s = (p, Some r) \<Longrightarrow> length r < length s"
proof (induction s arbitrary: p r)
  case Nil
  then show ?case by simp
next
  case (Cons c cs)
  then show ?case
    by (cases cs) (auto split: if_splits prod.splits dest: Cons.IH)
qed

function lex :: "bool \<Rightarrow> string \<Rightarrow> piece list result" where
  "lex trim s =
     (let (t0, r) = split_double (CHR ''{'') s; t = (if trim then ltrim t0 else t0) in
      case r of
        None \<Rightarrow> Inr (text_piece t)
      | Some r' \<Rightarrow>
         (let lt = left_trim_marker r';
              body0 = (if lt then tl r' else r');
              (a, q) = split_double (CHR ''}'') body0 in
          case q of
            None \<Rightarrow> Inl (Errorf ''unclosed action'')
          | Some q' \<Rightarrow>
             (let rt = right_trim_marker a;
                  body = (if rt then butlast a else a) in
              case lex rt q' of
                Inl e \<Rightarrow> Inl e
              | Inr ps \<Rightarrow> Inr (text_piece (if lt then rtrim t else t) @ Action body # ps))))"
  by pat_completeness auto
termination
proof (relation "measure (\<lambda>(trim, s). length s)", goal_cases)
  case 1
  then show ?case by simp
next
  case (2 trim s st t0 r t r' lt body0 ab a q q' rt body)
  have "length r' < length s"
    using 2 by (auto dest: split_double_length [OF sym])
  moreover have "length body0 \<le> length r'"
    using 2 by (simp split: if_splits)
  moreover have "length q' < length body0"
    using 2 by (auto dest: split_double_length [OF sym])
  ultimately show ?case by simp
qed

declare lex.simps [simp del]

datatype tok = TIdent string | TField "string list" | TVar string "string list" | TNum int
  | TDot | TPipe | TLParen | TRParen | TComma | TDeclare

definition is_alnum :: "char \<Rightarrow> bool" where
  "is_alnum c =
     (let n = (of_char c :: int) in
      48 \<le> n \<and> n \<le> 57 \<or> 65 \<le> n \<and> n \<le> 90 \<or> 97 \<le> n \<and> n \<le> 122 \<or> n = 95)"

text \<open>A chain of field names, each after a dot.\<close>

function field_chain :: "string \<Rightarrow> string list \<times> string" where
  "field_chain s =
     (if s \<noteq> [] \<and> hd s = CHR ''.'' \<and> takeWhile is_alnum (tl s) \<noteq> [] then
        (let (fs, r) = field_chain (dropWhile is_alnum (tl s)) in (takeWhile is_alnum (tl s) # fs, r))
      else ([], s))"
  by pat_completeness auto
termination
  by (relation "measure length")
    (auto simp: neq_Nil_conv intro: le_less_trans [OF length_dropWhile_le])

declare field_chain.simps [simp del]

lemma field_chain_length: "length (snd (field_chain s)) \<le> length s"
proof (induction s rule: field_chain.induct)
  case (1 s)
  show ?case
  proof (cases "s \<noteq> [] \<and> hd s = CHR ''.'' \<and> takeWhile is_alnum (tl s) \<noteq> []")
    case True
    then have "length (snd (field_chain (dropWhile is_alnum (tl s)))) \<le> length (dropWhile is_alnum (tl s))"
      using 1 by simp
    also have "\<dots> \<le> length s"
      using length_dropWhile_le [of is_alnum "tl s"] by simp
    finally show ?thesis
      using True by (auto simp: field_chain.simps [of s] split: prod.splits)
  next
    case False
    then show ?thesis by (auto simp: field_chain.simps [of s])
  qed
qed

lemma field_chain_length': "field_chain s = (fs, r) \<Longrightarrow> length r \<le> length s"
  using field_chain_length [of s] by simp

function tokens :: "string \<Rightarrow> tok list result" where
  "tokens [] = Inr []"
| "tokens (c # cs) =
     (if is_space c then tokens cs
      else if c = CHR ''|'' then map_sum id (Cons TPipe) (tokens cs)
      else if c = CHR ''('' then map_sum id (Cons TLParen) (tokens cs)
      else if c = CHR '')'' then map_sum id (Cons TRParen) (tokens cs)
      else if c = CHR '','' then map_sum id (Cons TComma) (tokens cs)
      else if c = CHR '':'' then
        (if cs \<noteq> [] \<and> hd cs = CHR ''='' then map_sum id (Cons TDeclare) (tokens (tl cs))
         else Inl (Errorf ''expected :=''))
      else if c = CHR ''$'' then
        (let (fs, r) = field_chain (dropWhile is_alnum cs) in
         map_sum id (Cons (TVar (takeWhile is_alnum cs) fs)) (tokens r))
      else if c = CHR ''.'' then
        (let (fs, r) = field_chain (c # cs) in
         if fs = [] then map_sum id (Cons TDot) (tokens cs)
         else map_sum id (Cons (TField fs)) (tokens (if length r \<le> length cs then r else cs)))
      else if is_digit c then
        map_sum id (Cons (TNum (dec_val 0 (c # takeWhile is_digit cs)))) (tokens (dropWhile is_digit cs))
      else if is_alnum c then
        map_sum id (Cons (TIdent (c # takeWhile is_alnum cs))) (tokens (dropWhile is_alnum cs))
      else Inl (Errorf ''unexpected character in action''))"
  by pat_completeness auto
termination
proof (relation "measure length", goal_cases)
  case (8 c cs p fs r)
  then have "length r \<le> length (dropWhile is_alnum cs)"
    using field_chain_length' [of "dropWhile is_alnum cs" fs r] by simp
  then show ?case
    using length_dropWhile_le [of is_alnum cs] by simp
next
  case (11 c cs)
  then show ?case
    using length_dropWhile_le [of is_digit cs] by simp
next
  case (12 c cs)
  then show ?case
    using length_dropWhile_le [of is_alnum cs] by simp
qed (auto split: if_splits simp: neq_Nil_conv)

declare tokens.simps(2) [simp del]

section \<open>Parsing\<close>

text \<open>A pipeline is a list of commands, a command a list of operands.\<close>

datatype operand = ODot | OField "string list" | OVar string "string list" | ONum int
  | OIdent string | OParen "operand list list"

type_synonym pipeline = "operand list list"

fun operand_of :: "tok \<Rightarrow> operand option" where
  "operand_of TDot = Some ODot"
| "operand_of (TField fs) = Some (OField fs)"
| "operand_of (TVar v fs) = Some (OVar v fs)"
| "operand_of (TNum n) = Some (ONum n)"
| "operand_of (TIdent f) = Some (OIdent f)"
| "operand_of _ = None"

text \<open>The stack holds the commands and the operands around each open parenthesis.\<close>

fun parse_pipe ::
  "(pipeline \<times> operand list) list \<Rightarrow> pipeline \<Rightarrow> operand list \<Rightarrow> tok list \<Rightarrow> pipeline result" where
  "parse_pipe stack cmds cur [] =
     (if stack \<noteq> [] then Inl (Errorf ''unclosed left paren'')
      else if cur = [] then Inl (Errorf ''missing value for command'')
      else Inr (cmds @ [cur]))"
| "parse_pipe stack cmds cur (t # ts) =
     (case t of
        TLParen \<Rightarrow> parse_pipe ((cmds, cur) # stack) [] [] ts
      | TRParen \<Rightarrow>
          (case stack of
             [] \<Rightarrow> Inl (Errorf ''unexpected right paren'')
           | (cmds', cur') # st \<Rightarrow>
               (if cur = [] then Inl (Errorf ''missing value for parenthesized pipeline'')
                else parse_pipe st cmds' (cur' @ [OParen (cmds @ [cur])]) ts))
      | TPipe \<Rightarrow>
          (if cur = [] then Inl (Errorf ''missing value for command'')
           else parse_pipe stack (cmds @ [cur]) [] ts)
      | _ \<Rightarrow>
          (case operand_of t of
             None \<Rightarrow> Inl (Errorf ''unexpected token in pipeline'')
           | Some opd \<Rightarrow> parse_pipe stack cmds (cur @ [opd]) ts))"

datatype node = NText string | NAction pipeline
  | NRange "string list" pipeline "node list" | NIf pipeline "node list"

datatype header = HRange "string list" pipeline | HIf pipeline

fun close :: "header \<Rightarrow> node list \<Rightarrow> node" where
  "close (HRange vs p) body = NRange vs p body"
| "close (HIf p) body = NIf p body"

fun range_decl :: "tok list \<Rightarrow> string list \<times> tok list" where
  "range_decl (TVar v [] # TDeclare # ts) = ([v], ts)"
| "range_decl (TVar v [] # TComma # TVar w [] # TDeclare # ts) = ([v, w], ts)"
| "range_decl ts = ([], ts)"

fun parse_nodes ::
  "(header \<times> node list) list \<Rightarrow> node list \<Rightarrow> piece list \<Rightarrow> node list result" where
  "parse_nodes stack cur [] =
     (if stack = [] then Inr cur else Inl (Errorf ''unexpected EOF''))"
| "parse_nodes stack cur (Text t # ps) = parse_nodes stack (cur @ [NText t]) ps"
| "parse_nodes stack cur (Action a # ps) =
     (case tokens a of
        Inl e \<Rightarrow> Inl e
      | Inr ts \<Rightarrow>
         if ts = [TIdent ''end''] then
           (case stack of
              [] \<Rightarrow> Inl (Errorf ''unexpected end'')
            | (h, outer) # st \<Rightarrow> parse_nodes st (outer @ [close h cur]) ps)
         else if ts \<noteq> [] \<and> hd ts = TIdent ''range'' then
           (let (vs, pts) = range_decl (tl ts) in
            case parse_pipe [] [] [] pts of
              Inl e \<Rightarrow> Inl e
            | Inr p \<Rightarrow> parse_nodes ((HRange vs p, cur) # stack) [] ps)
         else if ts \<noteq> [] \<and> hd ts = TIdent ''if'' then
           (case parse_pipe [] [] [] (tl ts) of
              Inl e \<Rightarrow> Inl e
            | Inr p \<Rightarrow> parse_nodes ((HIf p, cur) # stack) [] ps)
         else
           (case parse_pipe [] [] [] ts of
              Inl e \<Rightarrow> Inl e
            | Inr p \<Rightarrow> parse_nodes stack (cur @ [NAction p]) ps))"

definition parse_template :: "string \<Rightarrow> node list result" where
  "parse_template s = (case lex False s of Inl e \<Rightarrow> Inl e | Inr ps \<Rightarrow> parse_nodes [] [] ps)"

section \<open>Execution\<close>

text \<open>
  The values templates work on. \<open>VMap\<close> is a \<^verbatim>\<open>map[string]any\<close>, \<open>VStruct\<close> a struct with its
  fields, \<open>VPtr\<close> a pointer that is not nil; \<open>VNoValue\<close> is what a missing map key yields.
\<close>

datatype tval = VString string | VInt int | VBool bool | VAddr Addr | VPrefix Prefix
  | VSlice "tval list" | VStruct "(string \<times> tval) list" | VMap "(string \<times> tval) list"
  | VPtr tval | VNoValue

fun indirect :: "tval \<Rightarrow> tval" where
  "indirect (VPtr v) = v"
| "indirect v = v"

fun get_field :: "string \<Rightarrow> tval \<Rightarrow> tval result" where
  "get_field f (VMap kvs) = (case map_of kvs f of None \<Rightarrow> Inr VNoValue | Some v \<Rightarrow> Inr v)"
| "get_field f (VStruct kvs) =
     (case map_of kvs f of None \<Rightarrow> Inl (Errorf ''can't evaluate field'') | Some v \<Rightarrow> Inr v)"
| "get_field f _ = Inl (Errorf ''can't evaluate field'')"

fun get_fields :: "string list \<Rightarrow> tval \<Rightarrow> tval result" where
  "get_fields [] v = Inr v"
| "get_fields (f # fs) v =
     (case get_field f (indirect v) of Inl e \<Rightarrow> Inl e | Inr w \<Rightarrow> get_fields fs w)"

text \<open>What \<^verbatim>\<open>printValue\<close> writes; composite values are never printed by the templates.\<close>

fun print_value :: "tval \<Rightarrow> string result" where
  "print_value (VString s) = Inr s"
| "print_value (VInt i) = Inr (int_str i)"
| "print_value (VBool b) = Inr (if b then ''true'' else ''false'')"
| "print_value (VAddr a) = Inr (Addr_String a)"
| "print_value (VPrefix p) = Inr (Prefix_String p)"
| "print_value VNoValue = Inr ''<no value>''"
| "print_value _ = Inl (Errorf ''printing a composite value is not modelled'')"

fun truth :: "tval \<Rightarrow> bool" where
  "truth (VString s) = (s \<noteq> [])"
| "truth (VInt i) = (i \<noteq> 0)"
| "truth (VBool b) = b"
| "truth (VSlice vs) = (vs \<noteq> [])"
| "truth (VMap kvs) = (kvs \<noteq> [])"
| "truth VNoValue = False"
| "truth _ = True"

text \<open>The built-in functions \<^verbatim>\<open>len\<close> and \<^verbatim>\<open>gt\<close>, and \<^verbatim>\<open>idx1\<close> of the function map \<^verbatim>\<open>tFuncs\<close>.\<close>

definition idx1 :: "int \<Rightarrow> int" where
  "idx1 i = i + 1"

definition call_function :: "string \<Rightarrow> tval list \<Rightarrow> tval result" where
  "call_function f args =
     (if f = ''idx1'' then
        (case args of [VInt i] \<Rightarrow> Inr (VInt (idx1 i)) | _ \<Rightarrow> Inl (Errorf ''wrong arguments for idx1''))
      else if f = ''len'' then
        (case map indirect args of
           [VSlice vs] \<Rightarrow> Inr (VInt (int (length vs)))
         | [VString s] \<Rightarrow> Inr (VInt (int (length s)))
         | [VMap kvs] \<Rightarrow> Inr (VInt (int (length kvs)))
         | _ \<Rightarrow> Inl (Errorf ''error calling len''))
      else if f = ''gt'' then
        (case args of [VInt i, VInt j] \<Rightarrow> Inr (VBool (j < i)) | _ \<Rightarrow> Inl (Errorf ''error calling gt''))
      else Inl (Errorf ''function not defined''))"

text \<open>The dot and the variables in scope, innermost first; the variable with the empty name is \<^verbatim>\<open>$\<close>.\<close>

type_synonym tenv = "tval \<times> (string \<times> tval) list"

text \<open>
  Operands are evaluated with a nesting budget: the depth of parentheses in the pipeline is
  smaller than its size, which is the budget that \<open>eval_pipeline\<close> starts with.
\<close>

fun seq_results :: "'a result list \<Rightarrow> 'a list result" where
  "seq_results [] = Inr []"
| "seq_results (r # rs) =
     (case r of
        Inl e \<Rightarrow> Inl e
      | Inr v \<Rightarrow> (case seq_results rs of Inl e \<Rightarrow> Inl e | Inr vs \<Rightarrow> Inr (v # vs)))"

definition final_args :: "tval option \<Rightarrow> tval list" where
  "final_args final = (case final of None \<Rightarrow> [] | Some v \<Rightarrow> [v])"

definition eval_cmd ::
  "(operand \<Rightarrow> tval result) \<Rightarrow> tval option \<Rightarrow> operand list \<Rightarrow> tval result" where
  "eval_cmd ev final cmd =
     (case cmd of
        [] \<Rightarrow> Inl (Errorf ''empty command'')
      | OIdent f # args \<Rightarrow>
          (case seq_results (map ev args) of
             Inl e \<Rightarrow> Inl e
           | Inr vs \<Rightarrow> call_function f (vs @ final_args final))
      | opd # args \<Rightarrow>
          (if args \<noteq> [] \<or> final \<noteq> None then Inl (Errorf ''can't give argument to non-function'')
           else ev opd))"

fun eval_cmds ::
  "(operand \<Rightarrow> tval result) \<Rightarrow> tval option \<Rightarrow> pipeline \<Rightarrow> tval result" where
  "eval_cmds ev final [] =
     (case final of None \<Rightarrow> Inl (Errorf ''missing value'') | Some v \<Rightarrow> Inr v)"
| "eval_cmds ev final (c # cs) =
     (case eval_cmd ev final c of Inl e \<Rightarrow> Inl e | Inr v \<Rightarrow> eval_cmds ev (Some v) cs)"

fun eval_operand :: "nat \<Rightarrow> tenv \<Rightarrow> operand \<Rightarrow> tval result" where
  "eval_operand n env ODot = Inr (fst env)"
| "eval_operand n env (OField fs) = get_fields fs (fst env)"
| "eval_operand n env (OVar v fs) =
     (case map_of (snd env) v of
        None \<Rightarrow> Inl (Errorf ''undefined variable'')
      | Some w \<Rightarrow> get_fields fs w)"
| "eval_operand n env (ONum i) = Inr (VInt i)"
| "eval_operand n env (OIdent f) = call_function f []"
| "eval_operand 0 env (OParen p) = Inl (Errorf ''nesting budget exhausted'')"
| "eval_operand (Suc n) env (OParen p) = eval_cmds (eval_operand n env) None p"

definition eval_pipeline :: "tenv \<Rightarrow> pipeline \<Rightarrow> tval result" where
  "eval_pipeline env p = eval_cmds (eval_operand (size_list (size_list size) p) env) None p"

text \<open>Running a sequence of parts in one environment and concatenating what they write.\<close>

fun exec_seq :: "(tenv \<Rightarrow> string result) list \<Rightarrow> tenv \<Rightarrow> string result" where
  "exec_seq [] env = Inr []"
| "exec_seq (x # xs) env =
     (case x env of
        Inl e \<Rightarrow> Inl e
      | Inr s \<Rightarrow> (case exec_seq xs env of Inl e \<Rightarrow> Inl e | Inr t \<Rightarrow> Inr (s @ t)))"

definition range_env :: "string list \<Rightarrow> (string \<times> tval) list \<Rightarrow> int \<Rightarrow> tval \<Rightarrow> tenv" where
  "range_env decl vars i v =
     (v, (case decl of
            [] \<Rightarrow> vars
          | [x] \<Rightarrow> (x, v) # vars
          | x # y # _ \<Rightarrow> (y, v) # (x, VInt i) # vars))"

fun range_loop ::
  "(tenv \<Rightarrow> string result) \<Rightarrow> string list \<Rightarrow> (string \<times> tval) list \<Rightarrow> int \<Rightarrow> tval list \<Rightarrow> string result"
where
  "range_loop body decl vars i [] = Inr []"
| "range_loop body decl vars i (v # vs) =
     (case body (range_env decl vars i v) of
        Inl e \<Rightarrow> Inl e
      | Inr s \<Rightarrow>
          (case range_loop body decl vars (i + 1) vs of Inl e \<Rightarrow> Inl e | Inr t \<Rightarrow> Inr (s @ t)))"

definition exec_range ::
  "string list \<Rightarrow> pipeline \<Rightarrow> (tenv \<Rightarrow> string result) \<Rightarrow> tenv \<Rightarrow> string result" where
  "exec_range decl p body env =
     (case eval_pipeline env p of
        Inl e \<Rightarrow> Inl e
      | Inr v \<Rightarrow>
          (case indirect v of
             VSlice vs \<Rightarrow> range_loop body decl (snd env) 0 vs
           | _ \<Rightarrow> Inl (Errorf ''range can't iterate over value'')))"

definition exec_if :: "pipeline \<Rightarrow> (tenv \<Rightarrow> string result) \<Rightarrow> tenv \<Rightarrow> string result" where
  "exec_if p body env =
     (case eval_pipeline env p of
        Inl e \<Rightarrow> Inl e
      | Inr v \<Rightarrow> (if truth (indirect v) then body env else Inr []))"

primrec exec_node :: "node \<Rightarrow> tenv \<Rightarrow> string result" where
  "exec_node (NText t) = (\<lambda>env. Inr t)"
| "exec_node (NAction p) =
     (\<lambda>env. case eval_pipeline env p of Inl e \<Rightarrow> Inl e | Inr v \<Rightarrow> print_value (indirect v))"
| "exec_node (NRange decl p body) = exec_range decl p (exec_seq (map exec_node body))"
| "exec_node (NIf p body) = exec_if p (exec_seq (map exec_node body))"

definition exec_template :: "node list \<Rightarrow> tval \<Rightarrow> string result" where
  "exec_template ns root = exec_seq (map exec_node ns) (root, [([], root)])"

text \<open>The elements of a list with their indices, as a two-variable \<^verbatim>\<open>range\<close> visits them.\<close>

definition numbered :: "(int \<Rightarrow> 'a \<Rightarrow> 'b) \<Rightarrow> 'a list \<Rightarrow> 'b list" where
  "numbered g xs = map2 g (map int [0..<length xs]) xs"

section \<open>Lemmas\<close>

lemma map2_const: "length xs = length ys \<Longrightarrow> map2 (\<lambda>_. g) xs ys = map g ys"
  by (induction xs ys rule: list_induct2) auto

lemma numbered_const [simp]: "numbered (\<lambda>_. g) xs = map g xs"
  by (simp add: numbered_def map2_const)

lemma length_numbered [simp]: "length (numbered g xs) = length xs"
  by (simp add: numbered_def)

lemma nth_numbered [simp]: "i < length xs \<Longrightarrow> numbered g xs ! i = g (int i) (xs ! i)"
  by (simp add: numbered_def)

text \<open>A loop whose body always succeeds writes the concatenation of what the body writes.\<close>

lemma range_loop_offset:
  assumes "\<And>k a. body (range_env decl vars k (c a)) = Inr (g k a)"
  shows "range_loop body decl vars i (map c as) =
    Inr (concat (map2 g (map (\<lambda>n. i + int n) [0..<length as]) as))"
proof (induction as arbitrary: i)
  case Nil
  then show ?case by simp
next
  case (Cons a as)
  have "map (\<lambda>n. i + int n) [0..<Suc (length as)] = i # map (\<lambda>n. i + 1 + int n) [0..<length as]"
    by (subst upt_conv_Cons) (simp_all add: map_Suc_upt [symmetric] ac_simps del: upt_Suc map_Suc_upt)
  with Cons assms show ?case by (simp del: upt_Suc)
qed

lemma range_loop_values:
  assumes "\<And>k a. body (range_env decl vars k (c a)) = Inr (g k a)"
  shows "range_loop body decl vars 0 (map c as) = Inr (concat (numbered g as))"
  using range_loop_offset [of body decl vars c g 0 as, OF assms] by (simp add: numbered_def)

text \<open>
  Templates put the line break in front of each item of a loop, the specifications of the
  configuration files write lines that end with one.
\<close>

lemma concat_map2_shift:
  "concat (map2 (\<lambda>k v. c # f k v) ks vs) @ c # ys = c # concat (map2 (\<lambda>k v. f k v @ [c]) ks vs) @ ys"
proof (induction ks arbitrary: vs)
  case Nil
  then show ?case by simp
next
  case (Cons k ks)
  then show ?case by (cases vs) simp_all
qed

lemma concat_shift:
  "concat (map (\<lambda>v. c # f v) vs) @ c # ys = c # concat (map (\<lambda>v. f v @ [c]) vs) @ ys"
  "concat (numbered (\<lambda>k v. c # h k v) vs) @ c # ys = c # concat (numbered (\<lambda>k v. h k v @ [c]) vs) @ ys"
  by (induction vs) (auto simp: numbered_def concat_map2_shift)

lemma map_numbered: "map f (numbered g xs) = numbered (\<lambda>k v. f (g k v)) xs"
  by (auto simp: numbered_def)

end
