(* ===== verification/GoPath.thy ===== *)
theory GoPath
  imports Prelude
begin

text \<open>
  The part of Go's \<^verbatim>\<open>path/filepath\<close> (on Unix) that the controller calls: \<^verbatim>\<open>Clean\<close>, \<^verbatim>\<open>Join\<close>,
  \<^verbatim>\<open>Ext\<close> and \<^verbatim>\<open>Dir\<close>. Paths are split at slashes; \<^verbatim>\<open>Clean\<close> drops empty and \<^verbatim>\<open>.\<close> elements
  and resolves \<^verbatim>\<open>..\<close> lexically. \<open>Join_plain\<close> is the closed form of joining a root with one of
  the controller's absolute file names.
\<close>

text \<open>
  One element of the path against the output so far (newest element first): in a rooted path
  \<^verbatim>\<open>..\<close> at the root disappears, in a relative path it is kept in front.
\<close>

fun clean_elem :: "bool \<Rightarrow> string list \<Rightarrow> string \<Rightarrow> string list" where
  "clean_elem rooted out e =
     (if e = [] \<or> e = ''.'' then out
      else if e = ''..'' then
        (case out of
           [] \<Rightarrow> (if rooted then [] else [''..''])
         | o1 # os \<Rightarrow> (if o1 = ''..'' then ''..'' # out else os))
      else e # out)"

definition clean_elems :: "bool \<Rightarrow> string list \<Rightarrow> string list" where
  "clean_elems rooted es = rev (foldl (clean_elem rooted) [] es)"

definition is_rooted :: "string \<Rightarrow> bool" where
  "is_rooted p = (p \<noteq> [] \<and> hd p = CHR ''/'')"

definition Clean :: "string \<Rightarrow> string" where
  "Clean p =
     (let rooted = is_rooted p;
          body = join_with ''/'' (clean_elems rooted (split_on CHR ''/'' p)) in
      if rooted then ''/'' @ body else if body = [] then ''.'' else body)"

text \<open>\<^verbatim>\<open>Join\<close> drops leading empty elements, joins the rest with slashes and cleans the result.\<close>

definition Join :: "string list \<Rightarrow> string" where
  "Join es =
     (case dropWhile (\<lambda>e. e = []) es of [] \<Rightarrow> [] | fs \<Rightarrow> Clean (join_with ''/'' fs))"

text \<open>\<^verbatim>\<open>Ext\<close>: the suffix from the last dot of the last element, empty if there is none.\<close>

definition Ext :: "string \<Rightarrow> string" where
  "Ext p =
     (let base = rev (takeWhile (\<lambda>c. c \<noteq> CHR ''/'') (rev p)) in
      if CHR ''.'' \<in> set base
      then CHR ''.'' # rev (takeWhile (\<lambda>c. c \<noteq> CHR ''.'') (rev base)) else [])"

definition Dir :: "string \<Rightarrow> string" where
  "Dir p = Clean (rev (dropWhile (\<lambda>c. c \<noteq> CHR ''/'') (rev p)))"

section \<open>Matching path patterns\<close>

text \<open>
  \<^verbatim>\<open>path.Match\<close> on one path element, as used by \<^verbatim>\<open>fs.Glob\<close> when templates are parsed:
  \<^verbatim>\<open>*\<close>, \<^verbatim>\<open>?\<close>, character classes and escapes. A malformed pattern parses to \<open>None\<close>.
\<close>

datatype pat = PChar char | PAny | PStar | PClass bool "(char \<times> char) list"

text \<open>The parser state: outside a class, after a backslash, or inside a class.\<close>

datatype pstate = PNormal | PEsc
  | PIn bool "(char \<times> char) list"          \<comment> \<open>expecting the low end of a range\<close>
  | PInEsc bool "(char \<times> char) list"       \<comment> \<open>after a backslash, low end\<close>
  | PLo bool "(char \<times> char) list" char     \<comment> \<open>low end read\<close>
  | PHi bool "(char \<times> char) list" char     \<comment> \<open>after the dash\<close>
  | PHiEsc bool "(char \<times> char) list" char  \<comment> \<open>after the dash and a backslash\<close>
  | PStart                                   \<comment> \<open>just after the opening bracket\<close>

fun parse_pat :: "pstate \<Rightarrow> string \<Rightarrow> pat list option" where
  "parse_pat st [] = (if st = PNormal then Some [] else None)"
| "parse_pat st (c # cs) =
     (case st of
        PNormal \<Rightarrow>
          (if c = CHR ''*'' then map_option (Cons PStar) (parse_pat PNormal cs)
           else if c = CHR ''?'' then map_option (Cons PAny) (parse_pat PNormal cs)
           else if c = CHR ''['' then parse_pat PStart cs
           else if c = CHR 0x5C then parse_pat PEsc cs
           else map_option (Cons (PChar c)) (parse_pat PNormal cs))
      | PEsc \<Rightarrow> map_option (Cons (PChar c)) (parse_pat PNormal cs)
      | PStart \<Rightarrow>
          (if c = CHR ''^'' then parse_pat (PIn True []) cs
           else if c = CHR ''-'' \<or> c = CHR '']'' then None
           else if c = CHR 0x5C then parse_pat (PInEsc False []) cs
           else parse_pat (PLo False [] c) cs)
      | PIn neg rs \<Rightarrow>
          (if c = CHR '']'' \<and> rs \<noteq> [] then map_option (Cons (PClass neg rs)) (parse_pat PNormal cs)
           else if c = CHR ''-'' \<or> c = CHR '']'' then None
           else if c = CHR 0x5C then parse_pat (PInEsc neg rs) cs
           else parse_pat (PLo neg rs c) cs)
      | PInEsc neg rs \<Rightarrow> parse_pat (PLo neg rs c) cs
      | PLo neg rs lo \<Rightarrow>
          (if c = CHR ''-'' then parse_pat (PHi neg rs lo) cs
           else if c = CHR '']''
           then map_option (Cons (PClass neg ((lo, lo) # rs))) (parse_pat PNormal cs)
           else if c = CHR 0x5C then parse_pat (PInEsc neg ((lo, lo) # rs)) cs
           else parse_pat (PLo neg ((lo, lo) # rs) c) cs)
      | PHi neg rs lo \<Rightarrow>
          (if c = CHR ''-'' \<or> c = CHR '']'' then None
           else if c = CHR 0x5C then parse_pat (PHiEsc neg rs lo) cs
           else parse_pat (PIn neg ((lo, c) # rs)) cs)
      | PHiEsc neg rs lo \<Rightarrow> parse_pat (PIn neg ((lo, c) # rs)) cs)"

fun match_pat :: "pat list \<Rightarrow> string \<Rightarrow> bool" where
  "match_pat [] s = (s = [])"
| "match_pat (PStar # ps) [] = match_pat ps []"
| "match_pat (PStar # ps) (c # cs) = (match_pat ps (c # cs) \<or> match_pat (PStar # ps) cs)"
| "match_pat (PChar d # ps) [] = False"
| "match_pat (PChar d # ps) (c # cs) = (c = d \<and> match_pat ps cs)"
| "match_pat (PAny # ps) [] = False"
| "match_pat (PAny # ps) (c # cs) = match_pat ps cs"
| "match_pat (PClass neg rs # ps) [] = False"
| "match_pat (PClass neg rs # ps) (c # cs) =
     ((list_ex (\<lambda>(lo, hi). lo \<le> c \<and> c \<le> hi) rs \<noteq> neg) \<and> match_pat ps cs)"

definition match_elem :: "string \<Rightarrow> string \<Rightarrow> bool" where
  "match_elem p s = (case parse_pat PNormal p of None \<Rightarrow> False | Some ps \<Rightarrow> match_pat ps s)"

text \<open>The paths of a file system that a slash-separated pattern matches, element by element.\<close>

definition match_path :: "string \<Rightarrow> string \<Rightarrow> bool" where
  "match_path pat p = list_all2 match_elem (split_on CHR ''/'' pat) (split_on CHR ''/'' p)"

section \<open>Plain paths\<close>

text \<open>
  Joining a root with an absolute path whose elements are plain names: the result is a prefix that
  depends on the root only, followed by the path without its leading slash.
\<close>

definition plain_body :: "string \<Rightarrow> bool" where
  "plain_body b = list_all (\<lambda>e. e \<notin> {[], ''.'', ''..''}) (split_on CHR ''/'' b)"

definition root_prefix :: "string \<Rightarrow> string" where
  "root_prefix root =
     (if root = [] then ''/''
      else (if is_rooted root then ''/'' else []) @
        concat (map (\<lambda>e. e @ ''/'') (clean_elems (is_rooted root) (split_on CHR ''/'' root))))"

section \<open>Lemmas\<close>

lemma Ext_append:
  assumes "CHR ''.'' \<notin> set e" "CHR ''/'' \<notin> set e"
  shows "Ext (p @ CHR ''.'' # e) = CHR ''.'' # e"
proof -
  have "takeWhile (\<lambda>c. c \<noteq> CHR ''/'') (rev e @ CHR ''.'' # rev p) =
      rev e @ CHR ''.'' # takeWhile (\<lambda>c. c \<noteq> CHR ''/'') (rev p)"
    using assms(2) by (subst takeWhile_append2) auto
  moreover have "takeWhile (\<lambda>c. c \<noteq> CHR ''.'') (rev e @ CHR ''.'' # q) = rev e" for q
    using assms(1) by (subst takeWhile_append2) auto
  ultimately show ?thesis
    by (simp add: Ext_def)
qed

lemma split_on_append_sep: "split_on c (a @ c # b) = split_on c a @ split_on c b"
  by (induction a) (auto split: list.splits)

lemma join_with_append:
  "bs \<noteq> [] \<Longrightarrow> join_with sep (as @ bs) = concat (map (\<lambda>e. e @ sep) as) @ join_with sep bs"
proof (induction as)
  case (Cons a as)
  then show ?case by (cases "as @ bs") auto
qed simp

lemma foldl_clean_plain:
  "list_all (\<lambda>e. e \<notin> {[], ''.'', ''..''}) es \<Longrightarrow> foldl (clean_elem rooted) out es = rev es @ out"
  by (induction es arbitrary: out) auto

lemma Join_plain:
  assumes "plain_body b"
  shows "Join [root, CHR ''/'' # b] = root_prefix root @ b"
proof (cases "root = []")
  case True
  have "clean_elems True (split_on CHR ''/'' (CHR ''/'' # b)) = split_on CHR ''/'' b"
    using assms by (simp add: clean_elems_def plain_body_def foldl_clean_plain)
  with True show ?thesis
    by (simp add: Join_def Clean_def root_prefix_def is_rooted_def join_split)
next
  case False
  have "split_on CHR ''/'' (root @ CHR ''/'' # CHR ''/'' # b) =
      split_on CHR ''/'' root @ [] # split_on CHR ''/'' b"
    by (simp add: split_on_append_sep)
  then have "clean_elems (is_rooted root) (split_on CHR ''/'' (root @ CHR ''/'' # CHR ''/'' # b)) =
      clean_elems (is_rooted root) (split_on CHR ''/'' root) @ split_on CHR ''/'' b"
    using assms by (simp add: clean_elems_def plain_body_def foldl_clean_plain)
  moreover have "is_rooted (root @ CHR ''/'' # CHR ''/'' # b) = is_rooted root"
    using False by (simp add: is_rooted_def)
  moreover have "b \<noteq> []"
    using assms by (auto simp: plain_body_def)
  ultimately show ?thesis
    using False by (simp add: Join_def Clean_def root_prefix_def join_with_append join_split)
qed

end
