(* ===== verification/Templates.thy ===== *)
theory Templates
  imports Template GoPath
begin

text \<open>
  The embedded configuration templates (\<^verbatim>\<open>internal/controller/config_templates\<close>), line by line
  as the files have them, and \<^verbatim>\<open>renderTemplate\<close> of \<^verbatim>\<open>template.go\<close>, which looks the template up in
  the embedded file system, parses it and executes it. The lemmas give, for each template, the
  closed form of the text it renders.
\<close>

named_theorems template_asts \<open>the syntax trees of the embedded templates\<close>

section \<open>The template files\<close>

definition tmpl_cloudscale_floaty_yaml :: string where
  \<open>tmpl_cloudscale_floaty_yaml = concat (map ln [
     ''provider: cloudscale'',
     ''cloudscale:'',
     ''  token: "{{ .Token }}"'',
     ''lock-file-template: "/var/run/keepalived.floaty.%s.lock"'',
     ''managed-addresses:'',
     ''{{- range $vip := .VIPs }}'',
     ''- {{ $vip }}'',
     ''{{- end }}''])\<close>

definition tmpl_cluster_net_nmconnection :: string where
  \<open>tmpl_cluster_net_nmconnection = concat (map ln [
     ''[connection]'',
     ''id=cluster-net'',
     ''type=ethernet'',
     ''autoconnect-priority=-999'',
     ''zone=internal'',
     '''',
     ''[user]'',
     ''org.freedesktop.NetworkManager.origin=bootc-loadbalancer-controller'',
     '''',
     ''[ethernet]'',
     ''mac-address={{ .MACAddress }}'',
     '''',
     ''[ipv4]'',
     ''method=auto'',
     ''never-default=yes'',
     ''address1={{ .IPAddress }}/32'',
     '''',
     ''[ipv6]'',
     ''addr-gen-mode=default'',
     ''method=auto''])\<close>

definition tmpl_conntrackd_conf :: string where
  \<open>tmpl_conntrackd_conf = concat (map ln [
     ''General {'',
     ''  HashSize 8192'',
     ''  HashLimit 65535'',
     ''  Syslog On'',
     ''  LockFile /var/lock/conntrackd.lock'',
     ''  UNIX {'',
     ''    Path /var/run/conntrackd.sock'',
     ''  }'',
     ''  SocketBufferSize 262142'',
     ''  SocketBufferSizeMaxGrown 655355'',
     ''  Filter {'',
     ''    Protocol Accept {'',
     ''      TCP '',
     ''    }'',
     ''    Address Ignore {'',
     ''      IPv4_address 127.0.0.1'',
     ''    }'',
     ''  }'',
     ''}'',
     ''Sync {'',
     ''  Mode FTFW {'',
     '''',
     ''  }'',
     ''  UDP Default {'',
     ''    IPv4_address {{ .SrcIP }}'',
     ''    IPv4_Destination_Address {{ .DstIP }}'',
     ''    Port 3780'',
     ''    Interface {{ .Interface }}'',
     ''    SndSocketBuffer 24985600'',
     ''    RcvSocketBuffer 24985600'',
     ''    Checksum On'',
     ''  }'',
     ''}''])\<close>

definition tmpl_exoscale_floaty_yaml :: string where
  \<open>tmpl_exoscale_floaty_yaml = concat (map ln [
     ''provider: exoscale'',
     ''exoscale:'',
     ''  key: "{{ .Key }}"'',
     ''  secret: "{{ .Secret }}"'',
     ''lock-file-template: "/var/run/keepalived.floaty.%s.lock"'',
     ''managed-addresses:'',
     ''{{- range $vip := .VIPs }}'',
     ''- {{ $vip }}'',
     ''{{- end }}''])\<close>

definition tmpl_firewalld_direct_xml :: string where
  \<open>tmpl_firewalld_direct_xml = concat (map ln [
     ''<direct>'',
     ''  <rule ipv="ipv4" table="nat" chain="POSTROUTING" priority="0">-o {{ .PublicInterface }} -s {{ .ClusterNetwork }} -p tcp -j SNAT --to-source {{ .NATAddress }}</rule>'',
     ''</direct>''])\<close>

definition tmpl_firewalld_zone_external_xml :: string where
  \<open>tmpl_firewalld_zone_external_xml = concat (map ln [
     ''<zone>'',
     ''  <short>External</short>'',
     ''  <description>For use on external networks. You do not trust the other computers on networks to not harm your computer. Only selected incoming connections are accepted.</description>'',
     ''  <masquerade/>'',
     ''  <forward/>'',
     ''  <service name="ssh"/>'',
     ''  <service name="http"/>'',
     ''  <service name="https"/>'',
     ''  <service name="kube-apiserver"/>'',
     ''{{- range $ip := .IPv4 }}'',
     ''  <rule family="ipv4">'',
     ''    <destination address="{{ $ip }}"/>'',
     ''    <service name="ssh"/>'',
     ''    <reject/>'',
     ''  </rule>'',
     ''{{- end }}'',
     ''{{- range $ip := .IPv6 }}'',
     ''  <rule family="ipv6">'',
     ''    <destination address="{{ $ip }}"/>'',
     ''    <service name="ssh"/>'',
     ''    <reject/>'',
     ''  </rule>'',
     ''{{- end }}'',
     ''</zone>''])\<close>

definition tmpl_keepalived_conf :: string where
  \<open>tmpl_keepalived_conf = concat (map ln [
     ''vrrp_instance lb {'',
     ''  interface                 {{ .Interface }}'',
     ''  state                     BACKUP'',
     ''  virtual_router_id         100'',
     ''  priority                  {{ .Priority }}'',
     ''  advert_int                3'',
     ''  garp_master_delay         5'',
     '''',
     ''  garp_master_refresh       30'',
     '''',
     ''  authentication {'',
     ''    auth_type PASS'',
     ''    auth_pass insec_0'',
     ''  }'',
     '''',
     ''  virtual_ipaddress {'',
     ''{{- range $vip := .VIPs }}'',
     ''    {{ $vip }} dev {{ $.Interface }}'',
     ''{{- end }}'',
     ''  }'',
     '''',
     ''  unicast_src_ip {{ .SrcIP }}'',
     ''  unicast_peer {'',
     ''    {{ .DstIP }}'',
     ''  }'',
     ''}''])\<close>

definition tmpl_keepalived_nmconnection :: string where
  \<open>tmpl_keepalived_nmconnection = concat (map ln [
     ''[connection]'',
     ''id=keepalived'',
     ''type=dummy'',
     ''interface-name=keepalived'',
     '''',
     ''[user]'',
     ''org.freedesktop.NetworkManager.origin=bootc-loadbalancer-controller'',
     '''',
     ''[dummy]'',
     '''',
     ''[ipv4]'',
     ''method=manual'',
     ''{{- range $index, $vip := .VIPs4 }}'',
     ''address{{ idx1 $index }}={{ $vip }}'',
     ''{{- end }}'',
     '''',
     ''{{- if gt (.VIPs6 | len) 0 }}'',
     ''[ipv6]'',
     ''method=manual'',
     ''{{- range $index, $vip := .VIPs6 }}'',
     ''address{{ idx1 $index }}={{ $vip }}'',
     ''{{- end }}'',
     ''{{- end }}''])\<close>

definition tmpl_openshift_haproxy_api_cfg :: string where
  \<open>tmpl_openshift_haproxy_api_cfg = concat (map ln [
     ''frontend fe-api'',
     ''  mode tcp'',
     ''  default_backend be-api'',
     ''{{- range .Frontends.API }}'',
     ''  bind {{ . }}:6443'',
     ''{{- end }}'',
     '''',
     ''frontend fe-ign'',
     ''  mode tcp'',
     ''  default_backend be-ign'',
     ''{{- range .Frontends.Ignition }}'',
     ''  bind {{ . }}:22623'',
     ''{{- end }}'',
     '''',
     ''backend be-api'',
     ''  option httpchk GET /readyz'',
     ''{{- range $index, $backend := .Backends }}'',
     ''  server server_{{ $index }} {{ $backend.Address }}:6443 check check-ssl verify none resolvers localdns'',
     ''{{- end }}'',
     '''',
     ''backend be-ign'',
     ''  balance roundrobin'',
     ''{{- range $index, $backend := .Backends }}'',
     ''  server server_{{ $index }} {{ $backend.Address }}:22623 check check-ssl verify none resolvers localdns'',
     ''{{- end }}''])\<close>

definition tmpl_openshift_haproxy_ingress_cfg :: string where
  \<open>tmpl_openshift_haproxy_ingress_cfg = concat (map ln [
     ''frontend fe-router-http'',
     ''  mode tcp'',
     ''  default_backend be-router-http'',
     ''{{- range .Frontends.Ingress }}'',
     ''  bind {{ . }}:80'',
     ''{{- end }}'',
     '''',
     ''frontend fe-router-https'',
     ''  mode tcp'',
     ''  default_backend be-router-https'',
     ''{{- range .Frontends.Ingress }}'',
     ''  bind {{ . }}:443'',
     ''{{- end }}'',
     '''',
     ''backend be-router-http'',
     ''  option httpchk GET /healthz/ready'',
     ''{{- range $index, $backend := .Backends }}'',
     ''  server server_{{ $index }} {{ $backend.Address }}:80 check port 1936 check-ssl verify none resolvers localdns send-proxy-v2'',
     ''{{- end }}'',
     '''',
     ''backend be-router-https'',
     ''  option httpchk GET /healthz/ready'',
     ''{{- range $index, $backend := .Backends }}'',
     ''  server server_{{ $index }} {{ $backend.Address }}:443 check port 1936 check-ssl verify none resolvers localdns send-proxy-v2'',
     ''{{- end }}''])\<close>

definition tmpl_public_nmconnection :: string where
  \<open>tmpl_public_nmconnection = concat (map ln [
     ''[connection]'',
     ''id=public'',
     ''autoconnect-priority=-999'',
     ''type=ethernet'',
     ''zone=external'',
     '''',
     ''[user]'',
     ''org.freedesktop.NetworkManager.origin=bootc-loadbalancer-controller'',
     '''',
     ''[ethernet]'',
     ''mac-address={{ .MACAddress }}'',
     '''',
     ''[ipv4]'',
     ''method=auto'',
     ''may-fail=true'',
     '''',
     ''[ipv6]'',
     ''method=auto'',
     ''may-fail=true''])\<close>

definition tmpl_sysctl_conf :: string where
  \<open>tmpl_sysctl_conf = concat (map ln [
     ''# Accept router advertisements on public interfac'',
     ''net.ipv6.conf.{{ .Interface }}.accept_ra = 2''])\<close>

definition tmpl_talos_haproxy_api_cfg :: string where
  \<open>tmpl_talos_haproxy_api_cfg = concat (map ln [
     ''frontend fe-api'',
     ''  mode tcp'',
     ''  default_backend be-api'',
     ''{{- range .Frontends.API }}'',
     ''  bind {{ . }}:6443'',
     ''{{- end }}'',
     '''',
     ''backend be-api'',
     ''  option tcp-check'',
     ''{{- range $index, $backend := .Backends }}'',
     ''  server server_{{ $index }} {{ $backend.Address }}:6443 check fall 3 rise 2 inter 10s'',
     ''{{- end }}''])\<close>

definition tmpl_talos_haproxy_ingress_cfg :: string where
  \<open>tmpl_talos_haproxy_ingress_cfg = concat (map ln [
     ''frontend fe-router-http'',
     ''  mode tcp'',
     ''  default_backend be-router-http'',
     ''{{- range .Frontends.Ingress }}'',
     ''  bind {{ . }}:80'',
     ''{{- end }}'',
     '''',
     ''frontend fe-router-https'',
     ''  mode tcp'',
     ''  default_backend be-router-https'',
     ''{{- range .Frontends.Ingress }}'',
     ''  bind {{ . }}:443'',
     ''{{- end }}'',
     '''',
     ''backend be-router-http'',
     ''  option httpchk GET /metrics'',
     ''  http-check expect status 426'',
     ''{{- range $index, $backend := .Backends }}'',
     ''  server server_{{ $index }} {{ $backend.Address }}:30080 check port 30091 send-proxy-v2'',
     ''{{- end }}'',
     '''',
     ''backend be-router-https'',
     ''  option httpchk GET /metrics'',
     ''  http-check expect status 426'',
     ''{{- range $index, $backend := .Backends }}'',
     ''  server server_{{ $index }} {{ $backend.Address }}:30443 check port 30091 send-proxy-v2'',
     ''{{- end }}''])\<close>

definition config_templates :: "(string \<times> string) list" where
  "config_templates =
    [ (''config_templates/cloudscale/floaty.yaml.tmpl'', tmpl_cloudscale_floaty_yaml),
      (''config_templates/cluster-net.nmconnection.tmpl'', tmpl_cluster_net_nmconnection),
      (''config_templates/conntrackd.conf.tmpl'', tmpl_conntrackd_conf),
      (''config_templates/exoscale/floaty.yaml.tmpl'', tmpl_exoscale_floaty_yaml),
      (''config_templates/firewalld/direct.xml.tmpl'', tmpl_firewalld_direct_xml),
      (''config_templates/firewalld/zone-external.xml.tmpl'', tmpl_firewalld_zone_external_xml),
      (''config_templates/keepalived.conf.tmpl'', tmpl_keepalived_conf),
      (''config_templates/keepalived.nmconnection.tmpl'', tmpl_keepalived_nmconnection),
      (''config_templates/openshift/haproxy.api.cfg.tmpl'', tmpl_openshift_haproxy_api_cfg),
      (''config_templates/openshift/haproxy.ingress.cfg.tmpl'', tmpl_openshift_haproxy_ingress_cfg),
      (''config_templates/public.nmconnection.tmpl'', tmpl_public_nmconnection),
      (''config_templates/sysctl.conf.tmpl'', tmpl_sysctl_conf),
      (''config_templates/talos/haproxy.api.cfg.tmpl'', tmpl_talos_haproxy_api_cfg),
      (''config_templates/talos/haproxy.ingress.cfg.tmpl'', tmpl_talos_haproxy_ingress_cfg)]"

section \<open>renderTemplate\<close>

text \<open>
  \<^verbatim>\<open>ParseFS\<close> treats the path as a pattern and parses every file it matches, in lexical order;
  all of them have the base name of the template, so the last one is the template that runs.
\<close>

definition glob_templates :: "string \<Rightarrow> string list" where
  "glob_templates tpath = map snd (filter (\<lambda>(p, t). match_path tpath p) config_templates)"

definition ParseFS :: "string \<Rightarrow> node list result" where
  "ParseFS tpath =
     (case glob_templates tpath of
        [] \<Rightarrow> Inl (Errorf ''template: pattern matches no files'')
      | ts \<Rightarrow>
         (case seq_results (map parse_template ts) of
            Inl e \<Rightarrow> Inl e
          | Inr asts \<Rightarrow> Inr (last asts)))"

definition renderTemplate :: "string \<Rightarrow> string \<Rightarrow> (string \<times> tval) list \<Rightarrow> string result" where
  "renderTemplate prefix templateName templateData =
     (let tpath = Join [''config_templates'', prefix, templateName] in
      case ParseFS tpath of
        Inl e \<Rightarrow> Inl (Wrapf ''failed to parse config template'' e)
      | Inr t \<Rightarrow>
         (case exec_template t (VMap templateData) of
            Inl e \<Rightarrow> Inl (Wrapf ''failed to execute template'' e)
          | Inr s \<Rightarrow> Inr s))"

section \<open>The parsed templates\<close>

lemma ParseFS_cloudscale_floaty_yaml [template_asts]:
  \<open>ParseFS (Join [''config_templates'', ''cloudscale'', ''floaty.yaml.tmpl'']) = Inr
     [ NText ''provider: cloudscale\<newline>cloudscale:\<newline>  token: "'',
       NAction [[OField [''Token'']]],
       NText ''"\<newline>lock-file-template: "/var/run/keepalived.floaty.%s.lock"\<newline>managed-addresses:'',
       NRange [''vip''] [[OField [''VIPs'']]] [NText ''\<newline>- '',
       NAction [[OVar ''vip'' []]]],
       NText ''\<newline>'']\<close>
  by code_simp

lemma ParseFS_cluster_net_nmconnection [template_asts]:
  \<open>ParseFS (Join [''config_templates'', '''', ''cluster-net.nmconnection.tmpl'']) = Inr
     [ NText ''[connection]\<newline>id=cluster-net\<newline>type=ethernet\<newline>autoconnect-priority=-999\<newline>zone=internal\<newline>\<newline>[user]\<newline>org.freedesktop.NetworkManager.origin=bootc-loadbalancer-controller\<newline>\<newline>[ethernet]\<newline>mac-address='',
       NAction [[OField [''MACAddress'']]],
       NText ''\<newline>\<newline>[ipv4]\<newline>method=auto\<newline>never-default=yes\<newline>address1='',
       NAction [[OField [''IPAddress'']]],
       NText ''/32\<newline>\<newline>[ipv6]\<newline>addr-gen-mode=default\<newline>method=auto\<newline>'']\<close>
  by code_simp

lemma ParseFS_conntrackd_conf [template_asts]:
  \<open>ParseFS (Join [''config_templates'', '''', ''conntrackd.conf.tmpl'']) = Inr
     [ NText ''General {\<newline>  HashSize 8192\<newline>  HashLimit 65535\<newline>  Syslog On\<newline>  LockFile /var/lock/conntrackd.lock\<newline>  UNIX {\<newline>    Path /var/run/conntrackd.sock\<newline>  }\<newline>  SocketBufferSize 262142\<newline>  SocketBufferSizeMaxGrown 655355\<newline>  Filter {\<newline>    Protocol Accept {\<newline>      TCP \<newline>    }\<newline>    Address Ignore {\<newline>      IPv4_address 127.0.0.1\<newline>    }\<newline>  }\<newline>}\<newline>Sync {\<newline>  Mode FTFW {\<newline>\<newline>  }\<newline>  UDP Default {\<newline>    IPv4_address '',
       NAction [[OField [''SrcIP'']]],
       NText ''\<newline>    IPv4_Destination_Address '',
       NAction [[OField [''DstIP'']]],
       NText ''\<newline>    Port 3780\<newline>    Interface '',
       NAction [[OField [''Interface'']]],
       NText ''\<newline>    SndSocketBuffer 24985600\<newline>    RcvSocketBuffer 24985600\<newline>    Checksum On\<newline>  }\<newline>}\<newline>'']\<close>
  by code_simp

lemma ParseFS_exoscale_floaty_yaml [template_asts]:
  \<open>ParseFS (Join [''config_templates'', ''exoscale'', ''floaty.yaml.tmpl'']) = Inr
     [ NText ''provider: exoscale\<newline>exoscale:\<newline>  key: "'',
       NAction [[OField [''Key'']]],
       NText ''"\<newline>  secret: "'',
       NAction [[OField [''Secret'']]],
       NText ''"\<newline>lock-file-template: "/var/run/keepalived.floaty.%s.lock"\<newline>managed-addresses:'',
       NRange [''vip''] [[OField [''VIPs'']]] [NText ''\<newline>- '',
       NAction [[OVar ''vip'' []]]],
       NText ''\<newline>'']\<close>
  by code_simp

lemma ParseFS_firewalld_direct_xml [template_asts]:
  \<open>ParseFS (Join [''config_templates'', ''firewalld'', ''direct.xml.tmpl'']) = Inr
     [ NText ''<direct>\<newline>  <rule ipv="ipv4" table="nat" chain="POSTROUTING" priority="0">-o '',
       NAction [[OField [''PublicInterface'']]],
       NText '' -s '',
       NAction [[OField [''ClusterNetwork'']]],
       NText '' -p tcp -j SNAT --to-source '',
       NAction [[OField [''NATAddress'']]],
       NText ''</rule>\<newline></direct>\<newline>'']\<close>
  by code_simp

lemma ParseFS_firewalld_zone_external_xml [template_asts]:
  \<open>ParseFS (Join [''config_templates'', ''firewalld'', ''zone-external.xml.tmpl'']) = Inr
     [ NText ''<zone>\<newline>  <short>External</short>\<newline>  <description>For use on external networks. You do not trust the other computers on networks to not harm your computer. Only selected incoming connections are accepted.</description>\<newline>  <masquerade/>\<newline>  <forward/>\<newline>  <service name="ssh"/>\<newline>  <service name="http"/>\<newline>  <service name="https"/>\<newline>  <service name="kube-apiserver"/>'',
       NRange [''ip''] [[OField [''IPv4'']]] [NText ''\<newline>  <rule family="ipv4">\<newline>    <destination address="'',
       NAction [[OVar ''ip'' []]],
       NText ''"/>\<newline>    <service name="ssh"/>\<newline>    <reject/>\<newline>  </rule>''],
       NRange [''ip''] [[OField [''IPv6'']]] [NText ''\<newline>  <rule family="ipv6">\<newline>    <destination address="'',
       NAction [[OVar ''ip'' []]],
       NText ''"/>\<newline>    <service name="ssh"/>\<newline>    <reject/>\<newline>  </rule>''],
       NText ''\<newline></zone>\<newline>'']\<close>
  by code_simp

lemma ParseFS_keepalived_conf [template_asts]:
  \<open>ParseFS (Join [''config_templates'', '''', ''keepalived.conf.tmpl'']) = Inr
     [ NText ''vrrp_instance lb {\<newline>  interface                 '',
       NAction [[OField [''Interface'']]],
       NText ''\<newline>  state                     BACKUP\<newline>  virtual_router_id         100\<newline>  priority                  '',
       NAction [[OField [''Priority'']]],
       NText ''\<newline>  advert_int                3\<newline>  garp_master_delay         5\<newline>\<newline>  garp_master_refresh       30\<newline>\<newline>  authentication {\<newline>    auth_type PASS\<newline>    auth_pass insec_0\<newline>  }\<newline>\<newline>  virtual_ipaddress {'',
       NRange [''vip''] [[OField [''VIPs'']]] [NText ''\<newline>    '',
       NAction [[OVar ''vip'' []]],
       NText '' dev '',
       NAction [[OVar [] [''Interface'']]]],
       NText ''\<newline>  }\<newline>\<newline>  unicast_src_ip '',
       NAction [[OField [''SrcIP'']]],
       NText ''\<newline>  unicast_peer {\<newline>    '',
       NAction [[OField [''DstIP'']]],
       NText ''\<newline>  }\<newline>}\<newline>'']\<close>
  by code_simp

lemma ParseFS_keepalived_nmconnection [template_asts]:
  \<open>ParseFS (Join [''config_templates'', '''', ''keepalived.nmconnection.tmpl'']) = Inr
     [ NText ''[connection]\<newline>id=keepalived\<newline>type=dummy\<newline>interface-name=keepalived\<newline>\<newline>[user]\<newline>org.freedesktop.NetworkManager.origin=bootc-loadbalancer-controller\<newline>\<newline>[dummy]\<newline>\<newline>[ipv4]\<newline>method=manual'',
       NRange [''index'', ''vip''] [[OField [''VIPs4'']]] [NText ''\<newline>address'',
       NAction [[OIdent ''idx1'', OVar ''index'' []]],
       NText ''='',
       NAction [[OVar ''vip'' []]]],
       NIf [[OIdent ''gt'', OParen [[OField [''VIPs6'']], [OIdent ''len'']], ONum 0]] [NText ''\<newline>[ipv6]\<newline>method=manual'',
       NRange [''index'', ''vip''] [[OField [''VIPs6'']]] [NText ''\<newline>address'',
       NAction [[OIdent ''idx1'', OVar ''index'' []]],
       NText ''='',
       NAction [[OVar ''vip'' []]]]],
       NText ''\<newline>'']\<close>
  by code_simp

lemma ParseFS_openshift_haproxy_api_cfg [template_asts]:
  \<open>ParseFS (Join [''config_templates'', ''openshift'', ''haproxy.api.cfg.tmpl'']) = Inr
     [ NText ''frontend fe-api\<newline>  mode tcp\<newline>  default_backend be-api'',
       NRange [] [[OField [''Frontends'', ''API'']]] [NText ''\<newline>  bind '',
       NAction [[ODot]],
       NText '':6443''],
       NText ''\<newline>\<newline>frontend fe-ign\<newline>  mode tcp\<newline>  default_backend be-ign'',
       NRange [] [[OField [''Frontends'', ''Ignition'']]] [NText ''\<newline>  bind '',
       NAction [[ODot]],
       NText '':22623''],
       NText ''\<newline>\<newline>backend be-api\<newline>  option httpchk GET /readyz'',
       NRange [''index'', ''backend''] [[OField [''Backends'']]] [NText ''\<newline>  server server_'',
       NAction [[OVar ''index'' []]],
       NText '' '',
       NAction [[OVar ''backend'' [''Address'']]],
       NText '':6443 check check-ssl verify none resolvers localdns''],
       NText ''\<newline>\<newline>backend be-ign\<newline>  balance roundrobin'',
       NRange [''index'', ''backend''] [[OField [''Backends'']]] [NText ''\<newline>  server server_'',
       NAction [[OVar ''index'' []]],
       NText '' '',
       NAction [[OVar ''backend'' [''Address'']]],
       NText '':22623 check check-ssl verify none resolvers localdns''],
       NText ''\<newline>'']\<close>
  by code_simp

lemma ParseFS_openshift_haproxy_ingress_cfg [template_asts]:
  \<open>ParseFS (Join [''config_templates'', ''openshift'', ''haproxy.ingress.cfg.tmpl'']) = Inr
     [ NText ''frontend fe-router-http\<newline>  mode tcp\<newline>  default_backend be-router-http'',
       NRange [] [[OField [''Frontends'', ''Ingress'']]] [NText ''\<newline>  bind '',
       NAction [[ODot]],
       NText '':80''],
       NText ''\<newline>\<newline>frontend fe-router-https\<newline>  mode tcp\<newline>  default_backend be-router-https'',
       NRange [] [[OField [''Frontends'', ''Ingress'']]] [NText ''\<newline>  bind '',
       NAction [[ODot]],
       NText '':443''],
       NText ''\<newline>\<newline>backend be-router-http\<newline>  option httpchk GET /healthz/ready'',
       NRange [''index'', ''backend''] [[OField [''Backends'']]] [NText ''\<newline>  server server_'',
       NAction [[OVar ''index'' []]],
       NText '' '',
       NAction [[OVar ''backend'' [''Address'']]],
       NText '':80 check port 1936 check-ssl verify none resolvers localdns send-proxy-v2''],
       NText ''\<newline>\<newline>backend be-router-https\<newline>  option httpchk GET /healthz/ready'',
       NRange [''index'', ''backend''] [[OField [''Backends'']]] [NText ''\<newline>  server server_'',
       NAction [[OVar ''index'' []]],
       NText '' '',
       NAction [[OVar ''backend'' [''Address'']]],
       NText '':443 check port 1936 check-ssl verify none resolvers localdns send-proxy-v2''],
       NText ''\<newline>'']\<close>
  by code_simp

lemma ParseFS_public_nmconnection [template_asts]:
  \<open>ParseFS (Join [''config_templates'', '''', ''public.nmconnection.tmpl'']) = Inr
     [ NText ''[connection]\<newline>id=public\<newline>autoconnect-priority=-999\<newline>type=ethernet\<newline>zone=external\<newline>\<newline>[user]\<newline>org.freedesktop.NetworkManager.origin=bootc-loadbalancer-controller\<newline>\<newline>[ethernet]\<newline>mac-address='',
       NAction [[OField [''MACAddress'']]],
       NText ''\<newline>\<newline>[ipv4]\<newline>method=auto\<newline>may-fail=true\<newline>\<newline>[ipv6]\<newline>method=auto\<newline>may-fail=true\<newline>'']\<close>
  by code_simp

lemma ParseFS_sysctl_conf [template_asts]:
  \<open>ParseFS (Join [''config_templates'', '''', ''sysctl.conf.tmpl'']) = Inr
     [ NText ''# Accept router advertisements on public interfac\<newline>net.ipv6.conf.'',
       NAction [[OField [''Interface'']]],
       NText ''.accept_ra = 2\<newline>'']\<close>
  by code_simp

lemma ParseFS_talos_haproxy_api_cfg [template_asts]:
  \<open>ParseFS (Join [''config_templates'', ''talos'', ''haproxy.api.cfg.tmpl'']) = Inr
     [ NText ''frontend fe-api\<newline>  mode tcp\<newline>  default_backend be-api'',
       NRange [] [[OField [''Frontends'', ''API'']]] [NText ''\<newline>  bind '',
       NAction [[ODot]],
       NText '':6443''],
       NText ''\<newline>\<newline>backend be-api\<newline>  option tcp-check'',
       NRange [''index'', ''backend''] [[OField [''Backends'']]] [NText ''\<newline>  server server_'',
       NAction [[OVar ''index'' []]],
       NText '' '',
       NAction [[OVar ''backend'' [''Address'']]],
       NText '':6443 check fall 3 rise 2 inter 10s''],
       NText ''\<newline>'']\<close>
  by code_simp

lemma ParseFS_talos_haproxy_ingress_cfg [template_asts]:
  \<open>ParseFS (Join [''config_templates'', ''talos'', ''haproxy.ingress.cfg.tmpl'']) = Inr
     [ NText ''frontend fe-router-http\<newline>  mode tcp\<newline>  default_backend be-router-http'',
       NRange [] [[OField [''Frontends'', ''Ingress'']]] [NText ''\<newline>  bind '',
       NAction [[ODot]],
       NText '':80''],
       NText ''\<newline>\<newline>frontend fe-router-https\<newline>  mode tcp\<newline>  default_backend be-router-https'',
       NRange [] [[OField [''Frontends'', ''Ingress'']]] [NText ''\<newline>  bind '',
       NAction [[ODot]],
       NText '':443''],
       NText ''\<newline>\<newline>backend be-router-http\<newline>  option httpchk GET /metrics\<newline>  http-check expect status 426'',
       NRange [''index'', ''backend''] [[OField [''Backends'']]] [NText ''\<newline>  server server_'',
       NAction [[OVar ''index'' []]],
       NText '' '',
       NAction [[OVar ''backend'' [''Address'']]],
       NText '':30080 check port 30091 send-proxy-v2''],
       NText ''\<newline>\<newline>backend be-router-https\<newline>  option httpchk GET /metrics\<newline>  http-check expect status 426'',
       NRange [''index'', ''backend''] [[OField [''Backends'']]] [NText ''\<newline>  server server_'',
       NAction [[OVar ''index'' []]],
       NText '' '',
       NAction [[OVar ''backend'' [''Address'']]],
       NText '':30443 check port 30091 send-proxy-v2''],
       NText ''\<newline>'']\<close>
  by code_simp

end
