(* ===== verification/Network.thy ===== *)
theory Network
  imports Vip Templates
begin

text \<open>
  \<^verbatim>\<open>internal/controller/network.go\<close>: the interface of the cluster network, found by its route,
  hardware addresses, the primary IPv4 address of an interface, and the sysctl file.
\<close>

section \<open>Definitions\<close>

text \<open>The loop over the routes: the interface of the first route to the cluster network, else empty.\<close>

fun route_iface :: "Prefix \<Rightarrow> RouteEntry list \<Rightarrow> string" where
  "route_iface net [] = []"
| "route_iface net (rt # rts) =
     (if Prefix_Compare (rt_Dst rt) net = 0 then rt_Interface rt else route_iface net rts)"

definition ClusterNetworkInterface :: "ext \<Rightarrow> LoadBalancerConfigReconciler \<Rightarrow> string result" where
  "ClusterNetworkInterface x r =
     (case routetable_Get x 200 of
        Inl e \<Rightarrow> Inl (Wrapf ''failed to list system routes'' e)
      | Inr routes \<Rightarrow>
         (let clusterIface = route_iface (ClusterNetwork r) routes in
          if clusterIface = [] then Inl (Errorf (''failed to find interface for cluster network '' @ squote (Prefix_String (ClusterNetwork r))))
          else Inr clusterIface))"

definition RenderSysctlConf :: "LoadBalancerConfigReconciler \<Rightarrow> LoadBalancerConfig \<Rightarrow> string result" where
  "RenderSysctlConf r lbconfig =
     renderTemplate [] ''sysctl.conf.tmpl'' [(''Interface'', VString (PublicInterface r))]"

definition macAddressForInterface :: "host \<Rightarrow> string \<Rightarrow> string result" where
  "macAddressForInterface h interfaceName =
     (case InterfaceByName h interfaceName of
        Inl e \<Rightarrow> Inl (Wrapf ''unable to find interface'' e)
      | Inr iface \<Rightarrow> Inr (HardwareAddr_String (HardwareAddr iface)))"

text \<open>
  The loop over the interface's addresses. As in the code, an address that does not parse is the
  zero prefix, which is not IPv6, and is reported only after that test.
\<close>

fun primary_ip_loop :: "Prefix option \<Rightarrow> string list \<Rightarrow> string result" where
  "primary_ip_loop ifaceNet [] = Inr []"
| "primary_ip_loop ifaceNet (addr # addrs) =
     (let (ip, err) = (case ParsePrefix addr of Inl e \<Rightarrow> (zeroPrefix, Some e) | Inr p \<Rightarrow> (p, None)) in
      if Is6 (pfx_ip ip) then primary_ip_loop ifaceNet addrs
      else (case err of
          Some e \<Rightarrow> Inl (Wrapf ''failed to parse IP'' e)
        | None \<Rightarrow>
           (case ifaceNet of
              Some net \<Rightarrow>
                (if Bits ip = Bits net then Inr (Prefix_String ip) else primary_ip_loop ifaceNet addrs)
            | None \<Rightarrow> Inr (Prefix_String ip))))"

definition primaryIPAddressForInterface :: "host \<Rightarrow> string \<Rightarrow> Prefix option \<Rightarrow> string result" where
  "primaryIPAddressForInterface h interfaceName ifaceNet =
     (case InterfaceByName h interfaceName of
        Inl e \<Rightarrow> Inl (Wrapf ''unable to find interface'' e)
      | Inr iface \<Rightarrow>
         (case Addrs iface of
            Inl e \<Rightarrow> Inl (Wrapf ''failed to get addresses for interface'' e)
          | Inr addrs \<Rightarrow>
              if addrs = [] then Inl (Errorf ''interface has no addresses'')
              else (case primary_ip_loop ifaceNet addrs of
                  Inl e \<Rightarrow> Inl e
                | Inr primaryIP \<Rightarrow>
                    if primaryIP = []
                    then Inl (Errorf ''didn't find an IP which matches interface network prefix length'')
                    else Inr primaryIP)))"

section \<open>Specifications\<close>

text \<open>The address picked by the loop: the first IPv4 address with the wanted prefix length.\<close>

definition is_primary :: "Prefix option \<Rightarrow> Prefix \<Rightarrow> bool" where
  "is_primary net p =
     (\<not> Is6 (pfx_ip p) \<and> (case net of None \<Rightarrow> True | Some n \<Rightarrow> Bits p = Bits n))"

definition sysctl_text :: "string \<Rightarrow> string" where
  "sysctl_text iface =
     ln ''# Accept router advertisements on public interfac'' @
     ln (''net.ipv6.conf.'' @ iface @ ''.accept_ra = 2'')"

section \<open>Lemmas\<close>

lemma Prefix_Compare_eq: "Prefix_Compare p q = 0 \<longleftrightarrow> p = q"
  by (auto simp: Prefix_Compare_def Addr_Compare_eq Bits_def Let_def)

lemma find_first: "\<forall>q \<in> set pre. \<not> P q \<Longrightarrow> P y \<Longrightarrow> find P (pre @ y # post) = Some y"
  by (induction pre) auto

lemma find_split:
  assumes "find P xs = Some y"
  shows "\<exists>pre post. xs = pre @ y # post \<and> P y \<and> (\<forall>q \<in> set pre. \<not> P q)"
proof -
  have d: "dropWhile (Not \<circ> P) xs = y # tl (dropWhile (Not \<circ> P) xs)"
    using assms by (simp add: find_dropWhile split: list.splits)
  then have "P y"
    using hd_dropWhile [of "Not \<circ> P" xs] by (cases "dropWhile (Not \<circ> P) xs") auto
  then show ?thesis
    using d takeWhile_dropWhile_id [of "Not \<circ> P" xs] set_takeWhileD [of _ "Not \<circ> P" xs]
    by (metis comp_apply)
qed

lemma route_iface_find:
  "route_iface net rts =
     (case find (\<lambda>rt. rt_Dst rt = net) rts of None \<Rightarrow> [] | Some rt \<Rightarrow> rt_Interface rt)"
  by (induction rts) (auto simp: Prefix_Compare_eq)

lemma ClusterNetworkInterface_nonempty: "ClusterNetworkInterface x r = Inr i \<Longrightarrow> i \<noteq> []"
  by (auto simp: ClusterNetworkInterface_def Let_def split: sum.splits if_splits)

text \<open>The rules that evaluate a parsed template on symbolic data.\<close>

lemmas exec_simps =
  renderTemplate_def template_asts exec_template_def eval_pipeline_def eval_cmd_def exec_range_def
  exec_if_def final_args_def call_function_def range_env_def ln_def nl_def idx1_def Let_def
  concat_shift map_numbered comp_def

lemma RenderSysctlConf_eq: "RenderSysctlConf r c = Inr (sysctl_text (PublicInterface r))"
  by (simp add: RenderSysctlConf_def sysctl_text_def exec_simps)

lemma Prefix_String_nonempty [simp]: "Prefix_String p \<noteq> []"
  by (simp add: Prefix_String_def)

lemma primary_ip_loop_find:
  assumes "\<forall>a \<in> set addrs. is_ok (ParsePrefix a)"
  shows "primary_ip_loop net addrs =
    Inr (case find (is_primary net) (map (projr \<circ> ParsePrefix) addrs) of None \<Rightarrow> [] | Some p \<Rightarrow> Prefix_String p)"
  using assms by (induction addrs) (auto simp: is_ok_def is_primary_def split: sum.splits option.splits)

text \<open>The public addresses of the sample configuration.\<close>

lemma sample_public:
  "parsed (of_type AddressTypePublic (all_vips (VirtualAddresses (Spec sample_lbconfig)))) =
     {sample_prefix 3325256804, sample_prefix 3325256784, sample_prefix 3325256957}"
proof -
  have "parsed_list (of_type AddressTypePublic (all_vips (VirtualAddresses (Spec sample_lbconfig)))) =
      [sample_prefix 3325256804, sample_prefix 3325256784, sample_prefix 3325256957]"
    by code_simp
  then show ?thesis
    by (simp flip: set_parsed_list)
qed

lemma sample_public_ok:
  "\<forall>v \<in> set (of_type AddressTypePublic (all_vips (VirtualAddresses (Spec sample_lbconfig)))). is_ok (parseVIP v)"
  by code_simp

section \<open>Properties\<close>

text \<open>
  C36: The cluster interface is the interface of the first route whose destination is the cluster
  network, and the call fails when there is no such route or the interface has no name.
\<close>

theorem cluster_interface_spec:
  "ClusterNetworkInterface x r = Inr i \<longleftrightarrow>
     (\<exists>pre rt post. routetable_Get x 200 = Inr (pre @ rt # post) \<and> rt_Dst rt = ClusterNetwork r \<and>
        (\<forall>q \<in> set pre. rt_Dst q \<noteq> ClusterNetwork r) \<and> rt_Interface rt = i \<and> i \<noteq> [])"
proof (cases "routetable_Get x 200")
  case (Inl e)
  then show ?thesis by (simp add: ClusterNetworkInterface_def)
next
  case (Inr routes)
  then show ?thesis
    using find_split [of "\<lambda>rt. rt_Dst rt = ClusterNetwork r" routes]
    by (cases "find (\<lambda>rt. rt_Dst rt = ClusterNetwork r) routes")
      (auto simp: ClusterNetworkInterface_def route_iface_find Let_def find_first)
qed

theorem cluster_interface_spec_witness:
  "ClusterNetworkInterface sample_ext sample_reconciler = Inr ''eth1''"
  unfolding cluster_interface_spec
  by (rule exI [of _ "[]"]) (simp add: sample_ext_def sample_reconciler_def)

text \<open>
  C35: The primary address of an interface is its first IPv4 address, or, when a network is given,
  the first IPv4 address with the prefix length of that network; IPv6 addresses never count, and
  the call fails when no address qualifies.
\<close>

theorem primary_address_spec:
  assumes "InterfaceByName h n = Inr iface" "Addrs iface = Inr addrs"
    and "\<forall>a \<in> set addrs. is_ok (ParsePrefix a)"
  shows "primaryIPAddressForInterface h n net =
    (case find (is_primary net) (map (projr \<circ> ParsePrefix) addrs) of
       Some p \<Rightarrow> Inr (Prefix_String p)
     | None \<Rightarrow> Inl (Errorf (if addrs = [] then ''interface has no addresses''
                else ''didn't find an IP which matches interface network prefix length'')))"
  using assms by (auto simp: primaryIPAddressForInterface_def primary_ip_loop_find split: option.splits)

theorem primary_address_spec_witness:
  "primaryIPAddressForInterface sample_host ''eth1'' (Some sample_network) = Inr ''172.18.200.5/24''"
proof -
  have "\<forall>a \<in> set [''172.18.200.2/32'', ''172.18.200.5/24'']. is_ok (ParsePrefix a)"
    by code_simp
  moreover have "find (is_primary (Some sample_network))
      (map (projr \<circ> ParsePrefix) [''172.18.200.2/32'', ''172.18.200.5/24'']) =
    Some \<lparr>pfx_ip = Addr4 2886912005, bitsPlusOne = 25\<rparr>"
    by code_simp
  moreover have "Prefix_String \<lparr>pfx_ip = Addr4 2886912005, bitsPlusOne = 25\<rparr> = ''172.18.200.5/24''"
    by code_simp
  ultimately show ?thesis
    using primary_address_spec [of sample_host "''eth1''"
        "\<lparr>HardwareAddr = [2, 0, 0, 0, 0, 2], Addrs = Inr [''172.18.200.2/32'', ''172.18.200.5/24'']\<rparr>"
        "[''172.18.200.2/32'', ''172.18.200.5/24'']" "Some sample_network"]
    by (simp add: sample_host_def del: find.simps list.map)
qed

end
