(* ===== verification/Keepalived.thy ===== *)
theory Keepalived
  imports Network
begin

text \<open>
  \<^verbatim>\<open>internal/controller/keepalived.go\<close> (Keepalived and Floaty) and
  \<^verbatim>\<open>internal/controller/conntrackd.go\<close>: the configuration of the address failover between the two
  load balancers. The specifications \<open>keepalived_text\<close>, \<open>floaty_text\<close> and \<open>conntrackd_text\<close> say
  what the files contain, line by line; the lemmas show that the rendered templates are these texts.
\<close>

section \<open>Definitions\<close>

text \<open>A failed conversion of the gateway is only logged; it then adds no address.\<close>

definition gateway_vips :: "InternalIPs \<Rightarrow> LoadBalancerConfig \<Rightarrow> Prefix list" where
  "gateway_vips ips lbconfig =
     (if vips_NAT (VirtualAddresses (Spec lbconfig)) = None then []
      else (case Addr_Prefix (ii_DefaultGateway ips) 32 of Inr gwPrefix \<Rightarrow> [gwPrefix] | Inl _ \<Rightarrow> []))"

definition RenderKeepalivedConfig ::
  "ext \<Rightarrow> LoadBalancerConfigReconciler \<Rightarrow> LoadBalancerConfig \<Rightarrow> string result" where
  "RenderKeepalivedConfig x r lbconfig =
     (case internalIPs r of
        Inl e \<Rightarrow> Inl (Wrapf ''failed to compute internal VIPs'' e)
      | Inr ips \<Rightarrow>
         (case ClusterNetworkInterface x r of
            Inl e \<Rightarrow> Inl e
          | Inr clusterInterface \<Rightarrow>
             (let isPrimary = IsPrimary (Keepalived_Config r);
                  prio = (if isPrimary then 200 else 100);
                  extraVips = gateway_vips ips lbconfig;
                  (vips, err) = privateVIPs x (VirtualAddresses (Spec lbconfig)) extraVips in
              case err of
                Some e \<Rightarrow> Inl (Wrapf ''failed to prepare Keepalived VIPs'' e)
              | None \<Rightarrow>
                  renderTemplate [] ''keepalived.conf.tmpl''
                    [(''Interface'', VString clusterInterface),
                     (''Priority'', VInt prio),
                     (''SrcIP'', VString (myInternalIP ips isPrimary)),
                     (''DstIP'', VString (peerInternalIP ips isPrimary)),
                     (''VIPs'', VSlice (map VPrefix vips))])))"

definition RenderFloatyConfig ::
  "ext \<Rightarrow> LoadBalancerConfig \<Rightarrow> Secret \<Rightarrow> string result" where
  "RenderFloatyConfig x lbconfig credentialSecret =
     (let (vips, err) = publicVIPs x (VirtualAddresses (Spec lbconfig)) in
      case err of
        Some e \<Rightarrow> Inl (Wrapf ''failed to compute public floating IPs'' e)
      | None \<Rightarrow>
         (let cloud = Cloud (Spec lbconfig); data = [(''VIPs'', VSlice (map VPrefix vips))] in
          if cloud = ''cloudscale'' then
            (case sec_Data credentialSecret ''token'' of
               None \<Rightarrow> Inl (Errorf (''cloudscale credentials secret is missing field '' @ squote ''token''))
             | Some token \<Rightarrow>
                 renderTemplate cloud ''floaty.yaml.tmpl'' (data @ [(''Token'', VString token)]))
          else if cloud = ''exoscale'' then
            (case sec_Data credentialSecret ''key'' of
               None \<Rightarrow> Inl (Errorf (''exoscale credentials secret is missing field '' @ squote ''key''))
             | Some key \<Rightarrow>
                (case sec_Data credentialSecret ''secret'' of
                   None \<Rightarrow> Inl (Errorf (''exoscale credentials secret is missing field '' @ squote ''secret''))
                 | Some secret \<Rightarrow>
                     renderTemplate cloud ''floaty.yaml.tmpl''
                       (data @ [(''Key'', VString key), (''Secret'', VString secret)])))
          else Inl (Errorf (''unknown cloud provider '' @ squote cloud))))"

text \<open>
  As written in \<^verbatim>\<open>conntrackd.go\<close>: when the cluster interface is not found, the function returns an
  empty configuration and no error.
\<close>

definition RenderConntrackdConfig ::
  "ext \<Rightarrow> LoadBalancerConfigReconciler \<Rightarrow> LoadBalancerConfig \<Rightarrow> string result" where
  "RenderConntrackdConfig x r lbconfig =
     (case internalIPs r of
        Inl e \<Rightarrow> Inl (Wrapf ''failed to compute internal IPs'' e)
      | Inr ips \<Rightarrow>
         (case ClusterNetworkInterface x r of
            Inl e \<Rightarrow> Inr []
          | Inr clusterInterface \<Rightarrow>
             (let isPrimary = IsPrimary (Keepalived_Config r) in
              renderTemplate [] ''conntrackd.conf.tmpl''
                [(''Interface'', VString clusterInterface),
                 (''SrcIP'', VString (myInternalIP ips isPrimary)),
                 (''DstIP'', VString (peerInternalIP ips isPrimary))])))"

section \<open>Specifications: the configuration files\<close>

text \<open>Every address of a type parses.\<close>

definition vips_ok :: "string \<Rightarrow> LoadBalancerConfigVIPs \<Rightarrow> bool" where
  "vips_ok ty vips = list_all (\<lambda>v. is_ok (parseVIP v)) (of_type ty (all_vips vips))"

definition keepalived_text :: "string \<Rightarrow> int \<Rightarrow> string \<Rightarrow> string \<Rightarrow> Prefix list \<Rightarrow> string" where
  "keepalived_text iface prio src dst vips = concat (map ln
     ([''vrrp_instance lb {'',
       ''  interface                 '' @ iface,
       ''  state                     BACKUP'',
       ''  virtual_router_id         100'',
       ''  priority                  '' @ int_str prio,
       ''  advert_int                3'',
       ''  garp_master_delay         5'',
       '''',
       ''  garp_master_refresh       30'',
       '''',
       ''  authentication {'',
       ''    auth_type PASS'',
       ''    auth_pass insec_0'',
       ''  }'',
       '''',
       ''  virtual_ipaddress {''] @
      map (\<lambda>vip. ''    '' @ Prefix_String vip @ '' dev '' @ iface) vips @
      [''  }'',
       '''',
       ''  unicast_src_ip '' @ src,
       ''  unicast_peer {'',
       ''    '' @ dst,
       ''  }'',
       ''}'']))"

text \<open>The provider-specific part of the Floaty file: the provider's section with its credentials.\<close>

definition floaty_text :: "string list \<Rightarrow> Prefix list \<Rightarrow> string" where
  \<open>floaty_text provider vips = concat (map ln
     (provider @
      [''lock-file-template: "/var/run/keepalived.floaty.%s.lock"'', ''managed-addresses:''] @
      map (\<lambda>vip. ''- '' @ Prefix_String vip) vips))\<close>

definition cloudscale_section :: "string \<Rightarrow> string list" where
  \<open>cloudscale_section token = [''provider: cloudscale'', ''cloudscale:'', ''  token: "'' @ token @ ''"'']\<close>

definition exoscale_section :: "string \<Rightarrow> string \<Rightarrow> string list" where
  \<open>exoscale_section key secret =
     [''provider: exoscale'', ''exoscale:'', ''  key: "'' @ key @ ''"'', ''  secret: "'' @ secret @ ''"'']\<close>

definition conntrackd_text :: "string \<Rightarrow> string \<Rightarrow> string \<Rightarrow> string" where
  "conntrackd_text iface src dst = concat (map ln
     [''General {'',
      ''  HashSize 8192'',
      ''  HashLimit 65535'',
      ''  Syslog On'',
      ''  LockFile /var/lock/conntrackd.lock'',
      ''  UNIX {'',
      ''    Path /var/run/conntrackd.sock'',
      ''  }'',
      ''  SocketBufferSize 262142'',
      ''  SocketBufferSizeMaxGrown 655355'',
      ''  Filter {'',
      ''    Protocol Accept {'',
      ''      TCP '',
      ''    }'',
      ''    Address Ignore {'',
      ''      IPv4_address 127.0.0.1'',
      ''    }'',
      ''  }'',
      ''}'',
      ''Sync {'',
      ''  Mode FTFW {'',
      '''',
      ''  }'',
      ''  UDP Default {'',
      ''    IPv4_address '' @ src,
      ''    IPv4_Destination_Address '' @ dst,
      ''    Port 3780'',
      ''    Interface '' @ iface,
      ''    SndSocketBuffer 24985600'',
      ''    RcvSocketBuffer 24985600'',
      ''    Checksum On'',
      ''  }'',
      ''}''])"

text \<open>The prefix of a single IPv4 address.\<close>

definition single4 :: "32 word \<Rightarrow> Prefix" where
  "single4 w = \<lparr>pfx_ip = Addr4 w, bitsPlusOne = 33\<rparr>"

text \<open>The addresses that Keepalived manages on a load balancer with the gateway \<open>g\<close>.\<close>

definition keepalived_vips :: "32 word \<Rightarrow> LoadBalancerConfigVIPs \<Rightarrow> Prefix set" where
  "keepalived_vips g vips =
     parsed (of_type AddressTypePrivate (all_vips vips)) \<union> (if vips_NAT vips = None then {} else {single4 g})"

text \<open>The same load balancer in the role of the primary or of the secondary.\<close>

definition with_role :: "bool \<Rightarrow> LoadBalancerConfigReconciler \<Rightarrow> LoadBalancerConfigReconciler" where
  "with_role p r = r\<lparr>Keepalived_Config := \<lparr>IsPrimary = p\<rparr>\<rparr>"

section \<open>Lemmas\<close>

lemma keepalived_template:
  "renderTemplate [] ''keepalived.conf.tmpl''
     [(''Interface'', VString iface), (''Priority'', VInt prio), (''SrcIP'', VString src),
      (''DstIP'', VString dst), (''VIPs'', VSlice (map VPrefix vips))] =
   Inr (keepalived_text iface prio src dst vips)"
  by (simp add: exec_simps keepalived_text_def
      range_loop_values [where c = VPrefix and g = "\<lambda>_ p. nl @ ''    '' @ Prefix_String p @ '' dev '' @ iface"])

lemma cloudscale_template:
  "renderTemplate ''cloudscale'' ''floaty.yaml.tmpl''
     [(''VIPs'', VSlice (map VPrefix vips)), (''Token'', VString token)] =
   Inr (floaty_text (cloudscale_section token) vips)"
  by (simp add: exec_simps floaty_text_def cloudscale_section_def
      range_loop_values [where c = VPrefix and g = "\<lambda>_ p. nl @ ''- '' @ Prefix_String p"])

lemma exoscale_template:
  "renderTemplate ''exoscale'' ''floaty.yaml.tmpl''
     [(''VIPs'', VSlice (map VPrefix vips)), (''Key'', VString key), (''Secret'', VString secret)] =
   Inr (floaty_text (exoscale_section key secret) vips)"
  by (simp add: exec_simps floaty_text_def exoscale_section_def
      range_loop_values [where c = VPrefix and g = "\<lambda>_ p. nl @ ''- '' @ Prefix_String p"])

lemma conntrackd_template:
  "renderTemplate [] ''conntrackd.conf.tmpl''
     [(''Interface'', VString iface), (''SrcIP'', VString src), (''DstIP'', VString dst)] =
   Inr (conntrackd_text iface src dst)"
  by (simp add: exec_simps conntrackd_text_def)

lemma keep_high_full: "keep_high 32 32 (w :: 32 word) = w"
  by (simp add: keep_high_def)

lemma Addr_Prefix_single4: "Addr_Prefix (Addr4 w) 32 = Inr (single4 w)"
  by (simp add: keep_high_full PrefixFrom_def single4_def)

lemma single4_vip: "single4 w \<in> vip_prefixes"
  by (simp add: single4_def vip_prefixes_def wf_prefix_def IsSingleIP_def Prefix_IsValid_def Bits_def)

lemma with_role_sel [simp]:
  "ClusterNetwork (with_role p r) = ClusterNetwork r" "IsPrimary (Keepalived_Config (with_role p r)) = p"
  by (simp_all add: with_role_def)

lemma internalIPs_with_role [simp]: "internalIPs (with_role p r) = internalIPs r"
  by (simp add: internalIPs_def)

lemma ClusterNetworkInterface_with_role [simp]:
  "ClusterNetworkInterface x (with_role p r) = ClusterNetworkInterface x r"
  by (simp add: ClusterNetworkInterface_def Let_def split: sum.split)

lemma strict_sorted_vips:
  assumes "distinct ps" "sorted (map pfx_ip ps)" "set ps \<subseteq> vip_prefixes"
  shows "sorted_wrt (<) (map pfx_ip ps)"
  using assms vip_prefixes_inject
  by (auto simp: strict_sorted_iff distinct_map inj_on_def subset_iff)

section \<open>Properties\<close>

text \<open>
  C14: The Keepalived files of the two load balancers match. On an IPv4 cluster network of at most
  30 bits whose private addresses all parse, both files name the cluster interface and the same
  strictly ascending list of addresses, namely the private virtual addresses and, exactly when a
  NAT address is configured, the default gateway; the primary has priority 200 and the secondary
  100; and the unicast source of each is the peer of the other.
\<close>

theorem keepalived_pair:
  assumes "Combine_spec x" "Keys_spec x" "ClusterNetworkInterface x r = Inr iface"
    and "pfx_ip (ClusterNetwork r) = Addr4 w" "0 \<le> Bits (ClusterNetwork r)" "Bits (ClusterNetwork r) \<le> 30"
    and "vips_ok AddressTypePrivate (VirtualAddresses (Spec c))"
  shows "\<exists>n vips. pfx_ip (Masked (ClusterNetwork r)) = Addr4 n \<and>
    RenderKeepalivedConfig x (with_role True r) c =
      Inr (keepalived_text iface 200 (string4 (n + 2)) (string4 (n + 3)) vips) \<and>
    RenderKeepalivedConfig x (with_role False r) c =
      Inr (keepalived_text iface 100 (string4 (n + 3)) (string4 (n + 2)) vips) \<and>
    set vips = keepalived_vips (n + 1) (VirtualAddresses (Spec c)) \<and>
    sorted_wrt (<) (map pfx_ip vips)"
proof -
  define n where "n = keep_high 32 (nat (Bits (ClusterNetwork r))) w"
  note ii = internalIPs_eq [OF assms(4-6), folded n_def]
  define ex where "ex = (if vips_NAT (VirtualAddresses (Spec c)) = None then [] else [single4 (n + 1)])"
  obtain vips err where v: "privateVIPs x (VirtualAddresses (Spec c)) ex = (vips, err)"
    by (cases "privateVIPs x (VirtualAddresses (Spec c)) ex")
  have "set ex \<subseteq> vip_prefixes"
    by (simp add: ex_def single4_vip)
  note pr = privateVIPs_correct [OF assms(1,2) this, of "VirtualAddresses (Spec c)", unfolded v]
  have "err = None" "set vips = keepalived_vips (n + 1) (VirtualAddresses (Spec c))"
    using pr(1,4) assms(7) by (auto simp: ex_def keepalived_vips_def vips_ok_def list_all_iff)
  moreover have "set vips \<subseteq> vip_prefixes"
    using pr(1) single4_vip parsed_vip_prefixes by (auto simp: ex_def)
  moreover have "gateway_vips ii c = ex" if "ii_DefaultGateway ii = Addr4 (n + 1)" for ii
    using that by (simp add: gateway_vips_def ex_def Addr_Prefix_single4 del: Addr_Prefix.simps)
  ultimately show ?thesis
    using ii v assms(3) pr(2,3) Masked4 [OF assms(4,5)] assms(6)
    by (intro exI [of _ n] exI [of _ vips])
      (simp add: RenderKeepalivedConfig_def keepalived_template strict_sorted_vips n_def
        myInternalIP_def peerInternalIP_def)
qed

theorem keepalived_pair_witness:
  "\<exists>vips. RenderKeepalivedConfig sample_ext (with_role False sample_reconciler) sample_lbconfig =
      Inr (keepalived_text ''eth1'' 100 (string4 2886912003) (string4 2886912002) vips) \<and>
    set vips = {single4 3232261220, single4 2886912001}"
proof -
  have i: "ClusterNetworkInterface sample_ext sample_reconciler = Inr ''eth1''" by code_simp
  have v: "VirtualAddresses (Spec sample_lbconfig) = sample_vips"
    by (simp add: sample_lbconfig_def sample_spec_def)
  have ok: "vips_ok AddressTypePrivate sample_vips"
    by code_simp
  have net: "pfx_ip (ClusterNetwork sample_reconciler) = Addr4 2886912000" "Bits (ClusterNetwork sample_reconciler) = 24"
    by code_simp+
  have "pfx_ip (Masked (ClusterNetwork sample_reconciler)) = Addr4 2886912000" by code_simp
  moreover have "parsed_list (of_type AddressTypePrivate (all_vips sample_vips)) = [single4 3232261220]"
    by code_simp
  then have "parsed (of_type AddressTypePrivate (all_vips sample_vips)) = {single4 3232261220}"
    by (simp flip: set_parsed_list)
  moreover have "vips_NAT sample_vips \<noteq> None" by (simp add: sample_vips_def)
  ultimately show ?thesis
    using keepalived_pair [OF sample_specs i net(1), of sample_lbconfig, unfolded v net] ok
    by (auto simp: keepalived_vips_def)
qed

text \<open>
  C27: In an IPv4 cluster network with room for three host addresses (a prefix of at most 30 bits) and
  with a cluster interface, the connection tracking daemons of the two load balancers are each other's
  peers: the files name the cluster interface, and the source address of each is the destination of the
  other.
\<close>

theorem conntrackd_pair:
  assumes "ClusterNetworkInterface x r = Inr iface"
    and "pfx_ip (ClusterNetwork r) = Addr4 w" "0 \<le> Bits (ClusterNetwork r)" "Bits (ClusterNetwork r) \<le> 30"
  shows "\<exists>n. pfx_ip (Masked (ClusterNetwork r)) = Addr4 n \<and> string4 (n + 2) \<noteq> string4 (n + 3) \<and>
    RenderConntrackdConfig x (with_role True r) c =
      Inr (conntrackd_text iface (string4 (n + 2)) (string4 (n + 3))) \<and>
    RenderConntrackdConfig x (with_role False r) c =
      Inr (conntrackd_text iface (string4 (n + 3)) (string4 (n + 2)))"
  using internalIPs_eq [OF assms(2-4)] Masked4 [OF assms(2,3)] assms(1,4)
  by (auto simp: RenderConntrackdConfig_def conntrackd_template string4_inject
      myInternalIP_def peerInternalIP_def)

theorem conntrackd_pair_witness:
  "RenderConntrackdConfig sample_ext (with_role True sample_reconciler) sample_lbconfig =
     Inr (conntrackd_text ''eth1'' (string4 2886912002) (string4 2886912003))"
proof -
  have i: "ClusterNetworkInterface sample_ext sample_reconciler = Inr ''eth1''" by code_simp
  have net: "pfx_ip (ClusterNetwork sample_reconciler) = Addr4 2886912000" "Bits (ClusterNetwork sample_reconciler) = 24"
    by code_simp+
  have "pfx_ip (Masked (ClusterNetwork sample_reconciler)) = Addr4 2886912000" by code_simp
  then show ?thesis
    using conntrackd_pair [OF i net(1), of sample_lbconfig, unfolded net] by auto
qed

text \<open>
  A failed interface lookup is handled differently by the two renderers: Keepalived reports it,
  whereas the conntrackd configuration is silently rendered as an empty file.
\<close>

theorem conntrackd_swallows_error:
  assumes "ClusterNetworkInterface x r = Inl e" "internalIPs r = Inr ii"
  shows "RenderConntrackdConfig x r c = Inr [] \<and> RenderKeepalivedConfig x r c = Inl e"
  using assms by (simp add: RenderConntrackdConfig_def RenderKeepalivedConfig_def)

theorem conntrackd_swallows_error_witness:
  "RenderConntrackdConfig (sample_ext\<lparr>routetable_Get := \<lambda>_. Inl (Errorf ''netlink'')\<rparr>) sample_reconciler sample_lbconfig =
     Inr []"
proof -
  have "ClusterNetworkInterface (sample_ext\<lparr>routetable_Get := \<lambda>_. Inl (Errorf ''netlink'')\<rparr>) sample_reconciler =
      Inl (Wrapf ''failed to list system routes'' (Errorf ''netlink''))"
    by (simp add: ClusterNetworkInterface_def)
  moreover obtain ii where "internalIPs sample_reconciler = Inr ii"
    using internalIPs_eq [of sample_reconciler 2886912000]
    by (auto simp: sample_reconciler_def sample_network_def Bits_def)
  ultimately show ?thesis
    using conntrackd_swallows_error by blast
qed

text \<open>
  C24: The Floaty configuration lists exactly the public addresses, in strictly ascending order,
  behind the section of the configured provider with the credentials of the secret; it is an error
  when a public address does not parse, when a field of the secret is missing, and when the
  provider is unknown.
\<close>

theorem floaty_config:
  assumes "Combine_spec x" "Keys_spec x"
  shows "\<exists>vips. set vips = parsed (of_type AddressTypePublic (all_vips (VirtualAddresses (Spec c)))) \<and>
    sorted_wrt (<) (map pfx_ip vips) \<and>
    (\<not> vips_ok AddressTypePublic (VirtualAddresses (Spec c)) \<longrightarrow>
       (\<exists>e. RenderFloatyConfig x c secret = Inl (Wrapf ''failed to compute public floating IPs'' e))) \<and>
    (vips_ok AddressTypePublic (VirtualAddresses (Spec c)) \<longrightarrow>
      RenderFloatyConfig x c secret =
      (if Cloud (Spec c) = ''cloudscale'' then
         (case sec_Data secret ''token'' of
            Some t \<Rightarrow> Inr (floaty_text (cloudscale_section t) vips)
          | None \<Rightarrow> Inl (Errorf (''cloudscale credentials secret is missing field '' @ squote ''token'')))
       else if Cloud (Spec c) = ''exoscale'' then
         (case (sec_Data secret ''key'', sec_Data secret ''secret'') of
            (None, _) \<Rightarrow> Inl (Errorf (''exoscale credentials secret is missing field '' @ squote ''key''))
          | (Some _, None) \<Rightarrow> Inl (Errorf (''exoscale credentials secret is missing field '' @ squote ''secret''))
          | (Some k, Some s) \<Rightarrow> Inr (floaty_text (exoscale_section k s) vips))
       else Inl (Errorf (''unknown cloud provider '' @ squote (Cloud (Spec c))))))"
proof -
  obtain vips err where v: "publicVIPs x (VirtualAddresses (Spec c)) = (vips, err)"
    by (cases "publicVIPs x (VirtualAddresses (Spec c))")
  note pu = publicVIPs_correct [OF assms(1,2), of "VirtualAddresses (Spec c)", unfolded v]
  have "set vips \<subseteq> vip_prefixes"
    using pu(1) parsed_vip_prefixes by auto
  moreover have "err = None \<longleftrightarrow> vips_ok AddressTypePublic (VirtualAddresses (Spec c))"
    using pu(4) by (simp add: vips_ok_def list_all_iff)
  ultimately show ?thesis
    using pu v
    by (intro exI [of _ vips]) (auto simp: RenderFloatyConfig_def cloudscale_template exoscale_template
        strict_sorted_vips split: option.splits)
qed

theorem floaty_config_witness:
  "\<exists>vips. RenderFloatyConfig sample_ext sample_lbconfig sample_secret =
     Inr (floaty_text (cloudscale_section ''verysecrettoken'') vips) \<and>
     set vips = {sample_prefix 3325256804, sample_prefix 3325256784, sample_prefix 3325256957}"
proof -
  have "vips_ok AddressTypePublic (VirtualAddresses (Spec sample_lbconfig))"
    using sample_public_ok by (simp add: vips_ok_def list_all_iff)
  moreover have "Cloud (Spec sample_lbconfig) = ''cloudscale''" "sec_Data sample_secret ''token'' = Some ''verysecrettoken''"
    by code_simp+
  ultimately show ?thesis
    using floaty_config [OF sample_specs, of sample_lbconfig sample_secret]
    by (auto simp: sample_public)
qed

end
