(* ===== verification/NetManager.thy ===== *)
theory NetManager
  imports Network
begin

text \<open>
  \<^verbatim>\<open>internal/controller/network_manager.go\<close>: the three NetworkManager connections of a load
  balancer (the dummy interface that carries the public addresses, the public interface and the
  cluster network interface), with the specification of each file.
\<close>

section \<open>Definitions\<close>

text \<open>The loop that separates IPv4 from other addresses, here and in \<^verbatim>\<open>firewalld.go\<close>.\<close>

definition split_families :: "Prefix list \<Rightarrow> Prefix list \<times> Prefix list" where
  "split_families vips =
     foldl (\<lambda>(vips4, vips6) vip.
         if Is4 (pfx_ip vip) then (vips4 @ [vip], vips6) else (vips4, vips6 @ [vip]))
       ([], []) vips"

definition RenderKeepalivedDummyNMConnection :: "ext \<Rightarrow> LoadBalancerConfig \<Rightarrow> string result" where
  "RenderKeepalivedDummyNMConnection x lbconfig =
     (let (vips, err) = publicVIPs x (VirtualAddresses (Spec lbconfig)) in
      case err of
        Some e \<Rightarrow> Inl (Wrapf ''failed to prepare public IPv4 VIPs'' e)
      | None \<Rightarrow>
         (let (vips4, vips6) = split_families vips in
          renderTemplate [] ''keepalived.nmconnection.tmpl''
            [(''VIPs4'', VSlice (map VString (map Prefix_String vips4))),
             (''VIPs6'', VSlice (map VString (map Prefix_String vips6)))]))"

definition RenderPublicNMConnection ::
  "host \<Rightarrow> LoadBalancerConfigReconciler \<Rightarrow> LoadBalancerConfig \<Rightarrow> string result" where
  "RenderPublicNMConnection h r lbconfig =
     (case macAddressForInterface h (PublicInterface r) of
        Inl e \<Rightarrow> Inl e
      | Inr macAddress \<Rightarrow>
          renderTemplate [] ''public.nmconnection.tmpl'' [(''MACAddress'', VString macAddress)])"

definition RenderClusterNetNMConnection ::
  "ext \<Rightarrow> host \<Rightarrow> LoadBalancerConfigReconciler \<Rightarrow> LoadBalancerConfig \<Rightarrow> string result" where
  "RenderClusterNetNMConnection x h r lbconfig =
     (case ClusterNetworkInterface x r of
        Inl e \<Rightarrow> Inl e
      | Inr clusterInterface \<Rightarrow>
         (case macAddressForInterface h clusterInterface of
            Inl e \<Rightarrow> Inl e
          | Inr macAddress \<Rightarrow>
             (case internalIPs r of
                Inl e \<Rightarrow> Inl (Wrapf ''failed to compute internal IPs'' e)
              | Inr ips \<Rightarrow>
                  renderTemplate [] ''cluster-net.nmconnection.tmpl''
                    [(''MACAddress'', VString macAddress),
                     (''IPAddress'', VString (myInternalIP ips (IsPrimary (Keepalived_Config r))))])))"

section \<open>Specifications: the connection files\<close>

definition nm_origin :: "string list" where
  "nm_origin = [''[user]'', ''org.freedesktop.NetworkManager.origin=bootc-loadbalancer-controller'', '''']"

text \<open>The numbered addresses of a connection, counted from one.\<close>

definition nm_addresses :: "Prefix list \<Rightarrow> string list" where
  "nm_addresses vips =
     numbered (\<lambda>k vip. ''address'' @ int_str (k + 1) @ ''='' @ Prefix_String vip) vips"

definition keepalived_nm_text :: "Prefix list \<Rightarrow> Prefix list \<Rightarrow> string" where
  "keepalived_nm_text vips4 vips6 = concat (map ln
     ([''[connection]'', ''id=keepalived'', ''type=dummy'', ''interface-name=keepalived'', ''''] @
      nm_origin @
      [''[dummy]'', '''', ''[ipv4]'', ''method=manual''] @ nm_addresses vips4 @
      (if vips6 = [] then [] else [''[ipv6]'', ''method=manual''] @ nm_addresses vips6)))"

definition public_nm_text :: "string \<Rightarrow> string" where
  "public_nm_text mac = concat (map ln
     ([''[connection]'', ''id=public'', ''autoconnect-priority=-999'', ''type=ethernet'', ''zone=external'', ''''] @
      nm_origin @
      [''[ethernet]'', ''mac-address='' @ mac, '''', ''[ipv4]'', ''method=auto'', ''may-fail=true'', '''',
       ''[ipv6]'', ''method=auto'', ''may-fail=true'']))"

definition cluster_nm_text :: "string \<Rightarrow> string \<Rightarrow> string" where
  "cluster_nm_text mac ip = concat (map ln
     ([''[connection]'', ''id=cluster-net'', ''type=ethernet'', ''autoconnect-priority=-999'', ''zone=internal'', ''''] @
      nm_origin @
      [''[ethernet]'', ''mac-address='' @ mac, '''', ''[ipv4]'', ''method=auto'', ''never-default=yes'',
       ''address1='' @ ip @ ''/32'', '''', ''[ipv6]'', ''addr-gen-mode=default'', ''method=auto'']))"

section \<open>Lemmas\<close>

lemma split_families_eq:
  "split_families vips = (filter (\<lambda>v. Is4 (pfx_ip v)) vips, filter (\<lambda>v. \<not> Is4 (pfx_ip v)) vips)"
proof -
  have "foldl (\<lambda>(v4, v6) vip. if Is4 (pfx_ip vip) then (v4 @ [vip], v6) else (v4, v6 @ [vip])) (a, b) vips =
      (a @ filter (\<lambda>v. Is4 (pfx_ip v)) vips, b @ filter (\<lambda>v. \<not> Is4 (pfx_ip v)) vips)" for a b
    by (induction vips arbitrary: a b) auto
  then show ?thesis by (simp add: split_families_def)
qed

lemma numbered_nonempty: "numbered g xs = [] \<longleftrightarrow> xs = []"
  by (metis length_0_conv length_numbered)

lemma concat_numbered_map: "numbered g (map f xs) = numbered (\<lambda>k x. g k (f x)) xs"
  by (intro nth_equalityI) simp_all

lemma keepalived_nm_template:
  "renderTemplate [] ''keepalived.nmconnection.tmpl''
     [(''VIPs4'', VSlice (map VString (map Prefix_String vips4))),
      (''VIPs6'', VSlice (map VString (map Prefix_String vips6)))] =
   Inr (keepalived_nm_text vips4 vips6)"
  by (simp add: exec_simps keepalived_nm_text_def nm_origin_def nm_addresses_def
      concat_numbered_map flip: map_map
      del: map_map add: range_loop_values [where c = VString and g = "\<lambda>k s. nl @ ''address'' @ int_str (k + 1) @ ''='' @ s"])

lemma public_nm_template:
  "renderTemplate [] ''public.nmconnection.tmpl'' [(''MACAddress'', VString mac)] = Inr (public_nm_text mac)"
  by (simp add: exec_simps public_nm_text_def nm_origin_def)

lemma cluster_nm_template:
  "renderTemplate [] ''cluster-net.nmconnection.tmpl'' [(''MACAddress'', VString mac), (''IPAddress'', VString ip)] =
   Inr (cluster_nm_text mac ip)"
  by (simp add: exec_simps cluster_nm_text_def nm_origin_def)

section \<open>Properties\<close>

text \<open>
  C25: The dummy connection carries every public address exactly once, the IPv4 addresses in the
  IPv4 section and all others in the IPv6 section, each section in ascending order and numbered
  from one; when there is no IPv6 address, the file has no IPv6 section.
\<close>

theorem dummy_connection:
  assumes "Combine_spec x" "Keys_spec x"
    and "\<forall>v \<in> set (of_type AddressTypePublic (all_vips (VirtualAddresses (Spec c)))). is_ok (parseVIP v)"
  shows "\<exists>vips4 vips6. RenderKeepalivedDummyNMConnection x c = Inr (keepalived_nm_text vips4 vips6) \<and>
    set vips4 = {p \<in> parsed (of_type AddressTypePublic (all_vips (VirtualAddresses (Spec c)))). Is4 (pfx_ip p)} \<and>
    set vips6 = {p \<in> parsed (of_type AddressTypePublic (all_vips (VirtualAddresses (Spec c)))). \<not> Is4 (pfx_ip p)} \<and>
    distinct (vips4 @ vips6) \<and> sorted (map pfx_ip vips4) \<and> sorted (map pfx_ip vips6)"
proof -
  obtain vips err where v: "publicVIPs x (VirtualAddresses (Spec c)) = (vips, err)"
    by (cases "publicVIPs x (VirtualAddresses (Spec c))")
  note pu = publicVIPs_correct [OF assms(1,2), of "VirtualAddresses (Spec c)", unfolded v]
  have "RenderKeepalivedDummyNMConnection x c =
      Inr (keepalived_nm_text (filter (\<lambda>v. Is4 (pfx_ip v)) vips) (filter (\<lambda>v. \<not> Is4 (pfx_ip v)) vips))"
    using pu(4) assms(3)
    by (simp add: RenderKeepalivedDummyNMConnection_def v split_families_eq keepalived_nm_template
        del: map_map)
  then show ?thesis
    using pu(1-3)
    by (intro exI [of _ "filter (\<lambda>v. Is4 (pfx_ip v)) vips"] exI [of _ "filter (\<lambda>v. \<not> Is4 (pfx_ip v)) vips"])
      (auto simp: sorted_map sorted_wrt_filter)
qed

theorem dummy_connection_witness:
  "\<exists>vips4. RenderKeepalivedDummyNMConnection sample_ext sample_lbconfig = Inr (keepalived_nm_text vips4 []) \<and>
     sample_prefix 3325256784 \<in> set vips4"
proof -
  obtain vips4 vips6 where v:
    "RenderKeepalivedDummyNMConnection sample_ext sample_lbconfig = Inr (keepalived_nm_text vips4 vips6)"
    "set vips4 = {p \<in> {sample_prefix 3325256804, sample_prefix 3325256784, sample_prefix 3325256957}. Is4 (pfx_ip p)}"
    "set vips6 = {p \<in> {sample_prefix 3325256804, sample_prefix 3325256784, sample_prefix 3325256957}. \<not> Is4 (pfx_ip p)}"
    using dummy_connection [OF sample_specs sample_public_ok] unfolding sample_public by blast
  have "set vips6 = {}" "sample_prefix 3325256784 \<in> set vips4"
    unfolding v(2,3) by (auto simp: sample_prefix_def)
  with v(1) show ?thesis by auto
qed

text \<open>
  The connection files of the two physical interfaces: the public one is bound to the hardware
  address of the public interface, the internal one to that of the cluster interface and to the
  internal address of this load balancer's role; each fails when a lookup it needs fails.
\<close>

theorem interface_connections:
  "RenderPublicNMConnection h r c =
     (case InterfaceByName h (PublicInterface r) of
        Inl e \<Rightarrow> Inl (Wrapf ''unable to find interface'' e)
      | Inr iface \<Rightarrow> Inr (public_nm_text (HardwareAddr_String (HardwareAddr iface)))) \<and>
   RenderClusterNetNMConnection x h r c =
     (case ClusterNetworkInterface x r of
        Inl e \<Rightarrow> Inl e
      | Inr i \<Rightarrow>
         (case InterfaceByName h i of
            Inl e \<Rightarrow> Inl (Wrapf ''unable to find interface'' e)
          | Inr iface \<Rightarrow>
             (case internalIPs r of
                Inl e \<Rightarrow> Inl (Wrapf ''failed to compute internal IPs'' e)
              | Inr ii \<Rightarrow> Inr (cluster_nm_text (HardwareAddr_String (HardwareAddr iface))
                          (myInternalIP ii (IsPrimary (Keepalived_Config r)))))))"
  by (auto simp: RenderPublicNMConnection_def RenderClusterNetNMConnection_def macAddressForInterface_def
      public_nm_template cluster_nm_template split: sum.splits)

end
