(* ===== verification/Firewalld.thy ===== *)
theory Firewalld
  imports NetManager
begin

text \<open>
  \<^verbatim>\<open>internal/controller/firewalld.go\<close>: the SNAT rule for the NAT address and the external zone,
  which rejects ssh on the public addresses.
\<close>

section \<open>Definitions\<close>

text \<open>
  \<^verbatim>\<open>lbconfig.Spec.VirtualAddresses.NAT.Address\<close> dereferences the optional NAT address: without
  one the function panics.
\<close>

definition RenderFirewallDirectRules ::
  "LoadBalancerConfigReconciler \<Rightarrow> LoadBalancerConfig \<Rightarrow> string result outcome" where
  "RenderFirewallDirectRules r lbconfig =
     (case vips_NAT (VirtualAddresses (Spec lbconfig)) of
        None \<Rightarrow> Panic (NilDereference ''VirtualAddresses.NAT'')
      | Some natAddr \<Rightarrow>
         Ret (case ParsePrefix (va_Address natAddr) of
            Inl e \<Rightarrow> Inl (Wrapf ''failed to parse NAT VIP'' e)
          | Inr natVip \<Rightarrow>
              renderTemplate ''firewalld'' ''direct.xml.tmpl''
                [(''PublicInterface'', VString (PublicInterface r)),
                 (''ClusterNetwork'', VPrefix (ClusterNetwork r)),
                 (''NATAddress'', VAddr (pfx_ip natVip))]))"

definition RenderFirewallExternalZone :: "ext \<Rightarrow> LoadBalancerConfig \<Rightarrow> string result" where
  "RenderFirewallExternalZone x lbconfig =
     (let (vips, err) = publicVIPs x (VirtualAddresses (Spec lbconfig)) in
      case err of
        Some e \<Rightarrow> Inl (Wrapf ''failed to prepare VIPs'' e)
      | None \<Rightarrow>
         (let (vips4, vips6) = split_families vips in
          renderTemplate ''firewalld'' ''zone-external.xml.tmpl''
            [(''IPv4'', VSlice (map VPrefix vips4)), (''IPv6'', VSlice (map VPrefix vips6))]))"

section \<open>Specifications: the firewall files\<close>

definition direct_text :: "string \<Rightarrow> Prefix \<Rightarrow> Addr \<Rightarrow> string" where
  \<open>direct_text iface network natAddr = concat (map ln
     [''<direct>'',
      ''  <rule ipv="ipv4" table="nat" chain="POSTROUTING" priority="0">-o '' @ iface @
        '' -s '' @ Prefix_String network @ '' -p tcp -j SNAT --to-source '' @ Addr_String natAddr @ ''</rule>'',
      ''</direct>''])\<close>

definition reject_ssh :: "string \<Rightarrow> Prefix \<Rightarrow> string list" where
  \<open>reject_ssh family vip =
     [''  <rule family="'' @ family @ ''">'',
      ''    <destination address="'' @ Prefix_String vip @ ''"/>'',
      ''    <service name="ssh"/>'',
      ''    <reject/>'',
      ''  </rule>'']\<close>

definition zone_text :: "Prefix list \<Rightarrow> Prefix list \<Rightarrow> string" where
  \<open>zone_text vips4 vips6 = concat (map ln
     ([''<zone>'',
       ''  <short>External</short>'',
       ''  <description>For use on external networks. You do not trust the other computers on networks to not harm your computer. Only selected incoming connections are accepted.</description>'',
       ''  <masquerade/>'',
       ''  <forward/>'',
       ''  <service name="ssh"/>'',
       ''  <service name="http"/>'',
       ''  <service name="https"/>'',
       ''  <service name="kube-apiserver"/>''] @
      concat (map (reject_ssh ''ipv4'') vips4) @ concat (map (reject_ssh ''ipv6'') vips6) @
      [''</zone>'']))\<close>

section \<open>Lemmas\<close>

lemma direct_template:
  "renderTemplate ''firewalld'' ''direct.xml.tmpl''
     [(''PublicInterface'', VString iface), (''ClusterNetwork'', VPrefix network), (''NATAddress'', VAddr natAddr)] =
   Inr (direct_text iface network natAddr)"
  by (simp add: exec_simps direct_text_def)

lemma concat_map_ln_concat:
  "concat (map ln (concat (map f xs))) = concat (map (\<lambda>x. concat (map ln (f x))) xs)"
  by (induction xs) auto

lemma zone_template:
  "renderTemplate ''firewalld'' ''zone-external.xml.tmpl''
     [(''IPv4'', VSlice (map VPrefix vips4)), (''IPv6'', VSlice (map VPrefix vips6))] =
   Inr (zone_text vips4 vips6)"
proof -
  note loop4 = range_loop_values [where c = VPrefix and as = vips4 and
      g = "\<lambda>_ p. nl @ butlast (concat (map ln (reject_ssh ''ipv4'' p)))"]
  note loop6 = range_loop_values [where c = VPrefix and as = vips6 and
      g = "\<lambda>_ p. nl @ butlast (concat (map ln (reject_ssh ''ipv6'' p)))"]
  show ?thesis
    unfolding zone_text_def
    by (simp add: exec_simps reject_ssh_def concat_map_ln_concat butlast_append loop4 loop6)
qed

section \<open>Properties\<close>

text \<open>
  The source NAT rule: outgoing TCP traffic of the cluster network on the public interface gets
  the configured NAT address as its source; a NAT address that is not in CIDR notation is an error.
  A configuration without the optional NAT address makes the function panic.
\<close>

theorem direct_rules:
  "RenderFirewallDirectRules r c =
     (case vips_NAT (VirtualAddresses (Spec c)) of
        None \<Rightarrow> Panic (NilDereference ''VirtualAddresses.NAT'')
      | Some v \<Rightarrow> Ret (case ParsePrefix (va_Address v) of
            Inl e \<Rightarrow> Inl (Wrapf ''failed to parse NAT VIP'' e)
          | Inr p \<Rightarrow> Inr (direct_text (PublicInterface r) (ClusterNetwork r) (pfx_ip p))))"
  by (simp add: RenderFirewallDirectRules_def direct_template split: option.split sum.split)

text \<open>
  C26: The external zone rejects ssh on every public virtual address: the rendered zone consists of
  the fixed services and one reject rule per public address, the IPv4 addresses first, each rule
  with the address family of its address.
\<close>

theorem external_zone:
  assumes "Combine_spec x" "Keys_spec x"
    and "\<forall>v \<in> set (of_type AddressTypePublic (all_vips (VirtualAddresses (Spec c)))). is_ok (parseVIP v)"
  shows "\<exists>vips4 vips6. RenderFirewallExternalZone x c = Inr (zone_text vips4 vips6) \<and>
    set (vips4 @ vips6) = parsed (of_type AddressTypePublic (all_vips (VirtualAddresses (Spec c)))) \<and>
    distinct (vips4 @ vips6) \<and>
    list_all (\<lambda>p. Is4 (pfx_ip p)) vips4 \<and> list_all (\<lambda>p. Is6 (pfx_ip p)) vips6"
proof -
  obtain vips err where v: "publicVIPs x (VirtualAddresses (Spec c)) = (vips, err)"
    by (cases "publicVIPs x (VirtualAddresses (Spec c))")
  note pu = publicVIPs_correct [OF assms(1,2), of "VirtualAddresses (Spec c)", unfolded v]
  have "Is6 (pfx_ip p)" if "p \<in> parsed vs" "\<not> Is4 (pfx_ip p)" for p vs
    using that by (cases "pfx_ip p") (auto simp: parsed_def wf_prefix_def dest!: parseVIP_ok)
  moreover have "RenderFirewallExternalZone x c =
      Inr (zone_text (filter (\<lambda>v. Is4 (pfx_ip v)) vips) (filter (\<lambda>v. \<not> Is4 (pfx_ip v)) vips))"
    using pu(4) assms(3)
    by (simp add: RenderFirewallExternalZone_def v split_families_eq zone_template)
  ultimately show ?thesis
    using pu(1,2)
    by (intro exI [of _ "filter (\<lambda>v. Is4 (pfx_ip v)) vips"] exI [of _ "filter (\<lambda>v. \<not> Is4 (pfx_ip v)) vips"])
      (auto simp: list_all_iff)
qed

theorem external_zone_witness:
  "\<exists>vips4. RenderFirewallExternalZone sample_ext sample_lbconfig = Inr (zone_text vips4 []) \<and>
     sample_prefix 3325256804 \<in> set vips4"
proof -
  obtain vips4 vips6 where v: "RenderFirewallExternalZone sample_ext sample_lbconfig = Inr (zone_text vips4 vips6)"
    "set vips4 \<union> set vips6 = {sample_prefix 3325256804, sample_prefix 3325256784, sample_prefix 3325256957}"
    "list_all (\<lambda>p. Is6 (pfx_ip p)) vips6"
    using external_zone [OF sample_specs sample_public_ok] unfolding sample_public by auto
  have "\<not> Is6 (pfx_ip p)" if "p \<in> set vips6" for p
  proof -
    have "p \<in> {sample_prefix 3325256804, sample_prefix 3325256784, sample_prefix 3325256957}"
      using v(2) that by blast
    then show ?thesis by (auto simp: sample_prefix_def)
  qed
  with v(3) have "vips6 = []"
    by (cases vips6) auto
  with v show ?thesis by auto
qed

end
