(* ===== verification/Haproxy.thy ===== *)
theory Haproxy
  imports Network
begin

text \<open>
  \<^verbatim>\<open>internal/controller/haproxy.go\<close>: the API and the ingress configuration of HAProxy, for the
  distributions OpenShift and Talos. Frontends and backends come from \<open>Vip\<close>, or, when the
  configuration is rendered from a file, from the local backends given on the command line.
\<close>

section \<open>Definitions\<close>

definition backend_val :: "Backend \<Rightarrow> tval" where
  "backend_val b = VStruct [(''Name'', VString (be_Name b)), (''Address'', VString (be_Address b))]"

definition frontends_val :: "FrontendData \<Rightarrow> tval" where
  "frontends_val f = VStruct
     [(''API'', VSlice (map VAddr (fe_API f))), (''Ignition'', VSlice (map VAddr (fe_Ignition f))),
      (''Ingress'', VSlice (map VAddr (fe_Ingress f)))]"

definition haproxyTemplateData ::
  "ext \<Rightarrow> LoadBalancerConfig \<Rightarrow> LabelSelector \<Rightarrow> Backend list option \<Rightarrow> (string \<times> tval) list result" where
  "haproxyTemplateData x lbconfig ls localBackends =
     (let (frontends, err) = getHAProxyFrontends x (VirtualAddresses (Spec lbconfig)) in
      case err of
        Some e \<Rightarrow> Inl (Wrapf ''failed to prepare ingress HAProxy frontends'' e)
      | None \<Rightarrow>
         (case (case localBackends of
                  Some bs \<Rightarrow> Inr bs
                | None \<Rightarrow> wrap_result ''failed to prepare ingress HAProxy backends'' (getHAProxyBackends x ls)) of
            Inl e \<Rightarrow> Inl e
          | Inr backends \<Rightarrow>
              Inr [(''Frontends'', frontends_val frontends),
                   (''Backends'', VPtr (VSlice (map backend_val backends)))]))"

definition RenderHAProxyAPIConfig ::
  "ext \<Rightarrow> LoadBalancerConfig \<Rightarrow> LocalBackendConfiguration option \<Rightarrow> string result" where
  "RenderHAProxyAPIConfig x lbconfig localBackends =
     (case haproxyTemplateData x lbconfig (NodeSelector (APIBackend (Spec lbconfig)))
             (map_option local_API localBackends) of
        Inl e \<Rightarrow> Inl e
      | Inr templateData \<Rightarrow>
          renderTemplate (Distribution (Spec lbconfig)) ''haproxy.api.cfg.tmpl'' templateData)"

text \<open>
  \<^verbatim>\<open>&lbconfig.Spec.IngressBackend.NodeSelector\<close> dereferences the optional ingress backend: without
  one the function panics.
\<close>

definition RenderHAProxyIngressConfig ::
  "ext \<Rightarrow> LoadBalancerConfig \<Rightarrow> LocalBackendConfiguration option \<Rightarrow> string result outcome" where
  "RenderHAProxyIngressConfig x lbconfig localBackends =
     (case IngressBackend (Spec lbconfig) of
        None \<Rightarrow> Panic (NilDereference ''Spec.IngressBackend'')
      | Some ib \<Rightarrow>
         Ret (case haproxyTemplateData x lbconfig (NodeSelector ib) (map_option local_Ingress localBackends) of
            Inl e \<Rightarrow> Inl e
          | Inr templateData \<Rightarrow>
              renderTemplate (Distribution (Spec lbconfig)) ''haproxy.ingress.cfg.tmpl'' templateData))"

section \<open>Specifications: the HAProxy files\<close>

definition binds :: "string \<Rightarrow> Addr list \<Rightarrow> string list" where
  "binds port addrs = map (\<lambda>a. ''  bind '' @ Addr_String a @ '':'' @ port) addrs"

definition servers :: "string \<Rightarrow> Backend list \<Rightarrow> string list" where
  "servers options bs =
     numbered (\<lambda>k b. ''  server server_'' @ int_str k @ '' '' @ be_Address b @ '':'' @ options) bs"

definition frontend_section :: "string \<Rightarrow> string \<Rightarrow> string \<Rightarrow> Addr list \<Rightarrow> string list" where
  "frontend_section name backend port addrs =
     [''frontend '' @ name, ''  mode tcp'', ''  default_backend '' @ backend] @ binds port addrs @ ['''']"

definition openshift_api_text :: "FrontendData \<Rightarrow> Backend list \<Rightarrow> string" where
  "openshift_api_text f bs = concat (map ln
     (frontend_section ''fe-api'' ''be-api'' ''6443'' (fe_API f) @
      frontend_section ''fe-ign'' ''be-ign'' ''22623'' (fe_Ignition f) @
      [''backend be-api'', ''  option httpchk GET /readyz''] @
      servers ''6443 check check-ssl verify none resolvers localdns'' bs @
      ['''', ''backend be-ign'', ''  balance roundrobin''] @
      servers ''22623 check check-ssl verify none resolvers localdns'' bs))"

definition talos_api_text :: "FrontendData \<Rightarrow> Backend list \<Rightarrow> string" where
  "talos_api_text f bs = concat (map ln
     (frontend_section ''fe-api'' ''be-api'' ''6443'' (fe_API f) @
      [''backend be-api'', ''  option tcp-check''] @
      servers ''6443 check fall 3 rise 2 inter 10s'' bs))"

definition openshift_ingress_text :: "FrontendData \<Rightarrow> Backend list \<Rightarrow> string" where
  "openshift_ingress_text f bs = concat (map ln
     (frontend_section ''fe-router-http'' ''be-router-http'' ''80'' (fe_Ingress f) @
      frontend_section ''fe-router-https'' ''be-router-https'' ''443'' (fe_Ingress f) @
      [''backend be-router-http'', ''  option httpchk GET /healthz/ready''] @
      servers ''80 check port 1936 check-ssl verify none resolvers localdns send-proxy-v2'' bs @
      ['''', ''backend be-router-https'', ''  option httpchk GET /healthz/ready''] @
      servers ''443 check port 1936 check-ssl verify none resolvers localdns send-proxy-v2'' bs))"

definition talos_ingress_text :: "FrontendData \<Rightarrow> Backend list \<Rightarrow> string" where
  "talos_ingress_text f bs = concat (map ln
     (frontend_section ''fe-router-http'' ''be-router-http'' ''80'' (fe_Ingress f) @
      frontend_section ''fe-router-https'' ''be-router-https'' ''443'' (fe_Ingress f) @
      [''backend be-router-http'', ''  option httpchk GET /metrics'', ''  http-check expect status 426''] @
      servers ''30080 check port 30091 send-proxy-v2'' bs @
      ['''', ''backend be-router-https'', ''  option httpchk GET /metrics'', ''  http-check expect status 426''] @
      servers ''30443 check port 30091 send-proxy-v2'' bs))"

definition api_text :: "string \<Rightarrow> FrontendData \<Rightarrow> Backend list \<Rightarrow> string" where
  "api_text distribution f bs =
     (if distribution = ''talos'' then talos_api_text f bs else openshift_api_text f bs)"

definition ingress_text :: "string \<Rightarrow> FrontendData \<Rightarrow> Backend list \<Rightarrow> string" where
  "ingress_text distribution f bs =
     (if distribution = ''talos'' then talos_ingress_text f bs else openshift_ingress_text f bs)"

section \<open>Lemmas\<close>

lemmas haproxy_spec_defs = frontend_section_def binds_def servers_def frontends_val_def

text \<open>The loops of the templates: binds over the addresses, servers over the backends.\<close>

lemma loop_binds:
  assumes "\<And>k a. body (range_env decl vars k (VAddr a)) =
    Inr (CHR ''\<newline>'' # ''  bind '' @ Addr_String a @ '':'' @ port)"
  shows "range_loop body decl vars 0 (map VAddr addrs) =
    Inr (concat (map (\<lambda>a. CHR ''\<newline>'' # ''  bind '' @ Addr_String a @ '':'' @ port) addrs))"
  using range_loop_values [of body decl vars VAddr
      "\<lambda>_ a. CHR ''\<newline>'' # ''  bind '' @ Addr_String a @ '':'' @ port" addrs, OF assms] by simp

lemma loop_servers:
  assumes "\<And>k b. body (range_env decl vars k (backend_val b)) =
    Inr (CHR ''\<newline>'' # ''  server server_'' @ int_str k @ '' '' @ be_Address b @ '':'' @ options)"
  shows "range_loop body decl vars 0 (map backend_val bs) =
    Inr (concat (numbered (\<lambda>k b. CHR ''\<newline>'' # ''  server server_'' @ int_str k @ '' '' @ be_Address b @ '':'' @ options) bs))"
  by (rule range_loop_values) (rule assms)

lemma openshift_api_template:
  "renderTemplate ''openshift'' ''haproxy.api.cfg.tmpl''
     [(''Frontends'', frontends_val f), (''Backends'', VPtr (VSlice (map backend_val bs)))] =
   Inr (openshift_api_text f bs)"
  by (simp add: exec_simps haproxy_spec_defs openshift_api_text_def backend_val_def
      loop_binds [where port = "''6443''"] loop_binds [where port = "''22623''"]
      loop_servers [where options = "''6443 check check-ssl verify none resolvers localdns''"]
      loop_servers [where options = "''22623 check check-ssl verify none resolvers localdns''"])

lemma talos_api_template:
  "renderTemplate ''talos'' ''haproxy.api.cfg.tmpl''
     [(''Frontends'', frontends_val f), (''Backends'', VPtr (VSlice (map backend_val bs)))] =
   Inr (talos_api_text f bs)"
  by (simp add: exec_simps haproxy_spec_defs talos_api_text_def backend_val_def
      loop_binds [where port = "''6443''"]
      loop_servers [where options = "''6443 check fall 3 rise 2 inter 10s''"])

lemma openshift_ingress_template:
  "renderTemplate ''openshift'' ''haproxy.ingress.cfg.tmpl''
     [(''Frontends'', frontends_val f), (''Backends'', VPtr (VSlice (map backend_val bs)))] =
   Inr (openshift_ingress_text f bs)"
  by (simp add: exec_simps haproxy_spec_defs openshift_ingress_text_def backend_val_def
      loop_binds [where port = "''80''"] loop_binds [where port = "''443''"]
      loop_servers [where options = "''80 check port 1936 check-ssl verify none resolvers localdns send-proxy-v2''"]
      loop_servers [where options = "''443 check port 1936 check-ssl verify none resolvers localdns send-proxy-v2''"])

lemma talos_ingress_template:
  "renderTemplate ''talos'' ''haproxy.ingress.cfg.tmpl''
     [(''Frontends'', frontends_val f), (''Backends'', VPtr (VSlice (map backend_val bs)))] =
   Inr (talos_ingress_text f bs)"
  by (simp add: exec_simps haproxy_spec_defs talos_ingress_text_def backend_val_def
      loop_binds [where port = "''80''"] loop_binds [where port = "''443''"]
      loop_servers [where options = "''30080 check port 30091 send-proxy-v2''"]
      loop_servers [where options = "''30443 check port 30091 send-proxy-v2''"])

lemmas haproxy_templates =
  openshift_api_template talos_api_template openshift_ingress_template talos_ingress_template

text \<open>The ingress renderer, on every resource.\<close>

lemma ingress_rendered:
  assumes "Distribution (Spec c) \<in> {''openshift'', ''talos''}"
    and "getHAProxyFrontends x (VirtualAddresses (Spec c)) = (f, err)"
  shows "RenderHAProxyIngressConfig x c local =
    (case IngressBackend (Spec c) of
       None \<Rightarrow> Panic (NilDereference ''Spec.IngressBackend'')
     | Some ib \<Rightarrow> Ret (case err of
         Some e \<Rightarrow> Inl (Wrapf ''failed to prepare ingress HAProxy frontends'' e)
       | None \<Rightarrow>
          (case local of
             Some l \<Rightarrow> Inr (ingress_text (Distribution (Spec c)) f (local_Ingress l))
           | None \<Rightarrow>
              (case getHAProxyBackends x (NodeSelector ib) of
                 Inl e \<Rightarrow> Inl (Wrapf ''failed to prepare ingress HAProxy backends'' e)
               | Inr bs \<Rightarrow> Inr (ingress_text (Distribution (Spec c)) f bs)))))"
  using assms
  by (auto simp: RenderHAProxyIngressConfig_def haproxyTemplateData_def wrap_result_def ingress_text_def
      haproxy_templates split: option.splits sum.splits)

section \<open>Properties\<close>

text \<open>
  C19: For both supported distributions the API configuration consists of the frontends of the API
  addresses (and, on OpenShift, of the ignition addresses) and of one server line per backend, in
  order and numbered from zero; the backends are the local ones when they are given and the
  selected nodes otherwise. Frontend and backend errors are returned, frontends first.
\<close>

theorem haproxy_api_config:
  assumes "Distribution (Spec c) \<in> {''openshift'', ''talos''}"
    and "getHAProxyFrontends x (VirtualAddresses (Spec c)) = (f, err)"
  shows "RenderHAProxyAPIConfig x c local =
    (case err of
       Some e \<Rightarrow> Inl (Wrapf ''failed to prepare ingress HAProxy frontends'' e)
     | None \<Rightarrow>
        (case local of
           Some l \<Rightarrow> Inr (api_text (Distribution (Spec c)) f (local_API l))
         | None \<Rightarrow>
            (case getHAProxyBackends x (NodeSelector (APIBackend (Spec c))) of
               Inl e \<Rightarrow> Inl (Wrapf ''failed to prepare ingress HAProxy backends'' e)
             | Inr bs \<Rightarrow> Inr (api_text (Distribution (Spec c)) f bs))))"
  using assms
  by (auto simp: RenderHAProxyAPIConfig_def haproxyTemplateData_def wrap_result_def api_text_def
      haproxy_templates split: option.splits sum.splits)

theorem haproxy_api_config_witness:
  "\<exists>f. getHAProxyFrontends sample_ext sample_vips = (f, None) \<and>
     RenderHAProxyAPIConfig sample_ext sample_lbconfig None =
       Inr (openshift_api_text f [\<lparr>be_Name = ''master-0'', be_Address = ''172.18.200.10''\<rparr>,
                                  \<lparr>be_Name = ''master-1'', be_Address = ''172.18.200.11''\<rparr>])"
proof -
  obtain f err where f: "getHAProxyFrontends sample_ext sample_vips = (f, err)" by fastforce
  moreover have "snd (getHAProxyFrontends sample_ext sample_vips) = None" by code_simp
  moreover have "getHAProxyBackends sample_ext sample_selector =
      Inr [\<lparr>be_Name = ''master-0'', be_Address = ''172.18.200.10''\<rparr>,
           \<lparr>be_Name = ''master-1'', be_Address = ''172.18.200.11''\<rparr>]" by code_simp
  ultimately show ?thesis
    using haproxy_api_config [of sample_lbconfig sample_ext f err None]
    by (simp add: sample_lbconfig_def sample_spec_def api_text_def)
qed

text \<open>
  C20: The ingress configuration of a resource that has ingress addresses and an ingress backend, in
  the same way: two frontends that are bound to every ingress address, and one server line in each
  backend section per local ingress backend, when these are given, or per node that the ingress
  selector selects. Frontend and backend errors are returned, frontends first.
\<close>

theorem haproxy_ingress_config:
  assumes "Distribution (Spec c) \<in> {''openshift'', ''talos''}"
    and "vips_Ingress (VirtualAddresses (Spec c)) \<noteq> []" "IngressBackend (Spec c) = Some ib"
    and "getHAProxyFrontends x (VirtualAddresses (Spec c)) = (f, err)"
  shows "RenderHAProxyIngressConfig x c local =
    Ret (case err of
       Some e \<Rightarrow> Inl (Wrapf ''failed to prepare ingress HAProxy frontends'' e)
     | None \<Rightarrow>
        (case local of
           Some l \<Rightarrow> Inr (ingress_text (Distribution (Spec c)) f (local_Ingress l))
         | None \<Rightarrow>
            (case getHAProxyBackends x (NodeSelector ib) of
               Inl e \<Rightarrow> Inl (Wrapf ''failed to prepare ingress HAProxy backends'' e)
             | Inr bs \<Rightarrow> Inr (ingress_text (Distribution (Spec c)) f bs))))"
  using ingress_rendered [OF assms(1,4)] assms(3) by simp

text \<open>
  What happens when an optional part is left out, against the documentation of the API types: without
  ingress addresses the ingress section is still configured, and without an ingress backend the
  function panics.
\<close>

theorem ingress_section_unconditional:
  assumes "Distribution (Spec c) \<in> {''openshift'', ''talos''}" "vips_Ingress (VirtualAddresses (Spec c)) = []"
    and "getHAProxyFrontends x (VirtualAddresses (Spec c)) = (f, None)"
  shows "RenderHAProxyIngressConfig x c (Some l) =
    (if IngressBackend (Spec c) = None then Panic (NilDereference ''Spec.IngressBackend'')
     else Ret (Inr (ingress_text (Distribution (Spec c)) f (local_Ingress l))))"
  using ingress_rendered [OF assms(1,3)] by (simp split: option.split)

theorem ingress_section_unconditional_witness:
  "\<exists>f. RenderHAProxyIngressConfig sample_ext (sample_lbconfig\<lparr>Spec := sample_spec\<lparr>VirtualAddresses := sample_vips\<lparr>vips_Ingress := []\<rparr>\<rparr>\<rparr>)
      (Some \<lparr>local_API = [], local_Ingress = []\<rparr>) = Ret (Inr (openshift_ingress_text f []))"
proof -
  let ?c = "sample_lbconfig\<lparr>Spec := sample_spec\<lparr>VirtualAddresses := sample_vips\<lparr>vips_Ingress := []\<rparr>\<rparr>\<rparr>"
  obtain f err where f: "getHAProxyFrontends sample_ext (VirtualAddresses (Spec ?c)) = (f, err)" by fastforce
  moreover have "snd (getHAProxyFrontends sample_ext (VirtualAddresses (Spec ?c))) = None" by code_simp
  ultimately have "getHAProxyFrontends sample_ext (VirtualAddresses (Spec ?c)) = (f, None)" by simp
  from ingress_section_unconditional [OF _ _ this] show ?thesis
    by (auto simp: sample_spec_def ingress_text_def)
qed

theorem haproxy_ingress_config_witness:
  "\<exists>f. getHAProxyFrontends sample_ext sample_vips = (f, None) \<and>
     RenderHAProxyIngressConfig sample_ext (sample_lbconfig\<lparr>Spec := sample_spec\<lparr>Distribution := ''talos''\<rparr>\<rparr>) None =
       Ret (Inr (talos_ingress_text f [\<lparr>be_Name = ''master-0'', be_Address = ''172.18.200.10''\<rparr>,
                                      \<lparr>be_Name = ''master-1'', be_Address = ''172.18.200.11''\<rparr>]))"
proof -
  obtain f err where f: "getHAProxyFrontends sample_ext sample_vips = (f, err)" by fastforce
  moreover have "snd (getHAProxyFrontends sample_ext sample_vips) = None" by code_simp
  moreover have "getHAProxyBackends sample_ext sample_selector =
      Inr [\<lparr>be_Name = ''master-0'', be_Address = ''172.18.200.10''\<rparr>,
           \<lparr>be_Name = ''master-1'', be_Address = ''172.18.200.11''\<rparr>]" by code_simp
  ultimately show ?thesis
    using haproxy_ingress_config [where c = "sample_lbconfig\<lparr>Spec := sample_spec\<lparr>Distribution := ''talos''\<rparr>\<rparr>" and x = sample_ext and local = None]
    by (simp add: sample_spec_def ingress_text_def sample_vips_def)
qed

end
