(* ===== verification/Sha256.thy ===== *)
theory Sha256
  imports Prelude
begin

text \<open>
  Go's standard package \<^verbatim>\<open>crypto/sha256\<close>: \<^verbatim>\<open>Sum256\<close> on the bytes of a string and the lower-case
  hexadecimal text that \<^verbatim>\<open>fmt\<close> prints for the digest with \<^verbatim>\<open>%x\<close>. Strings are byte strings.
\<close>

unbundle bit_operations_syntax

section \<open>Definitions\<close>

type_synonym w32 = "32 word"

text \<open>The round constants: the first 32 bits of the fractional parts of the cube roots of the first 64 primes.\<close>

definition round_constants :: "int list" where
  "round_constants =
     [1116352408, 1899447441, 3049323471, 3921009573, 961987163, 1508970993, 2453635748, 2870763221,
      3624381080, 310598401, 607225278, 1426881987, 1925078388, 2162078206, 2614888103, 3248222580,
      3835390401, 4022224774, 264347078, 604807628, 770255983, 1249150122, 1555081692, 1996064986,
      2554220882, 2821834349, 2952996808, 3210313671, 3336571891, 3584528711, 113926993, 338241895,
      666307205, 773529912, 1294757372, 1396182291, 1695183700, 1986661051, 2177026350, 2456956037,
      2730485921, 2820302411, 3259730800, 3345764771, 3516065817, 3600352804, 4094571909, 275423344,
      430227734, 506948616, 659060556, 883997877, 958139571, 1322822218, 1537002063, 1747873779,
      1955562222, 2024104815, 2227730452, 2361852424, 2428436474, 2756734187, 3204031479, 3329325298]"

definition sha_k :: "w32 list" where
  "sha_k = map word_of_int round_constants"

record sha_state =
  sA :: w32
  sB :: w32
  sC :: w32
  sD :: w32
  sE :: w32
  sF :: w32
  sG :: w32
  sH :: w32

definition sha_init :: sha_state where
  "sha_init = \<lparr>sA = 0x6a09e667, sB = 0xbb67ae85, sC = 0x3c6ef372, sD = 0xa54ff53a,
               sE = 0x510e527f, sF = 0x9b05688c, sG = 0x1f83d9ab, sH = 0x5be0cd19\<rparr>"

definition rotr :: "nat \<Rightarrow> w32 \<Rightarrow> w32" where
  "rotr n w = (drop_bit n w) OR (push_bit (32 - n) w)"

text \<open>Padding: a one bit, zeros up to 56 modulo 64 bytes, and the length in bits as eight bytes.\<close>

definition sha_pad :: "int list \<Rightarrow> int list" where
  "sha_pad bs =
     (let n = int (length bs) in
      bs @ [128] @ replicate (nat ((55 - n) mod 64)) 0 @
      map (\<lambda>i. (8 * n) div 256 ^ i mod 256) [7, 6, 5, 4, 3, 2, 1, 0])"

fun be_words :: "int list \<Rightarrow> w32 list" where
  "be_words (a # b # c # d # bs) = word_of_int (((a * 256 + b) * 256 + c) * 256 + d) # be_words bs"
| "be_words _ = []"

text \<open>The message schedule, the most recent word first.\<close>

definition sha_next_word :: "w32 list \<Rightarrow> w32" where
  "sha_next_word ws =
     (let x15 = ws ! 14; x2 = ws ! 1;
          s0 = rotr 7 x15 XOR rotr 18 x15 XOR drop_bit 3 x15;
          s1 = rotr 17 x2 XOR rotr 19 x2 XOR drop_bit 10 x2 in
      ws ! 15 + s0 + ws ! 6 + s1)"

primrec sha_extend :: "nat \<Rightarrow> w32 list \<Rightarrow> w32 list" where
  "sha_extend 0 ws = ws"
| "sha_extend (Suc n) ws = sha_extend n (sha_next_word ws # ws)"

fun sha_round :: "w32 \<times> w32 \<Rightarrow> sha_state \<Rightarrow> sha_state" where
  "sha_round (k, w) s =
     (let s1 = rotr 6 (sE s) XOR rotr 11 (sE s) XOR rotr 25 (sE s);
          ch = (sE s AND sF s) XOR (NOT (sE s) AND sG s);
          t1 = sH s + s1 + ch + k + w;
          s0 = rotr 2 (sA s) XOR rotr 13 (sA s) XOR rotr 22 (sA s);
          maj = (sA s AND sB s) XOR (sA s AND sC s) XOR (sB s AND sC s) in
      \<lparr>sA = t1 + (s0 + maj), sB = sA s, sC = sB s, sD = sC s,
       sE = sD s + t1, sF = sE s, sG = sF s, sH = sG s\<rparr>)"

definition sha_block :: "w32 list \<Rightarrow> sha_state \<Rightarrow> sha_state" where
  "sha_block ws s =
     (let t = fold sha_round (zip sha_k (rev (sha_extend 48 (rev ws)))) s in
      \<lparr>sA = sA s + sA t, sB = sB s + sB t, sC = sC s + sC t, sD = sD s + sD t,
       sE = sE s + sE t, sF = sF s + sF t, sG = sG s + sG t, sH = sH s + sH t\<rparr>)"

function sha_blocks :: "w32 list \<Rightarrow> sha_state \<Rightarrow> sha_state" where
  "sha_blocks ws s = (if ws = [] then s else sha_blocks (drop 16 ws) (sha_block (take 16 ws) s))"
  by pat_completeness auto
termination
  by (relation "measure (\<lambda>(ws, s). length ws)") auto

declare sha_blocks.simps [simp del]

definition Sum256 :: "string \<Rightarrow> w32 list" where
  "Sum256 s =
     (let t = sha_blocks (be_words (sha_pad (map of_char s))) sha_init in
      [sA t, sB t, sC t, sD t, sE t, sF t, sG t, sH t])"

text \<open>\<^verbatim>\<open>fmt.Sprintf("%x", sha256.Sum256(data))\<close>\<close>

definition hex_word :: "w32 \<Rightarrow> string" where
  "hex_word w =
     concat (map (\<lambda>i. hex_byte (uint w div 256 ^ i mod 256)) [3, 2, 1, 0])"

definition sha256_hex :: "string \<Rightarrow> string" where
  "sha256_hex s = concat (map hex_word (Sum256 s))"

section \<open>Lemmas\<close>

lemma length_hex_word: "length (hex_word w) = 8"
  by (simp add: hex_word_def hex_byte_def)

text \<open>A printed digest has 64 characters; in particular it is never empty.\<close>

lemma length_sha256_hex: "length (sha256_hex s) = 64"
  by (simp add: sha256_hex_def Sum256_def Let_def length_hex_word)

lemma sha256_hex_nonempty [simp]: "sha256_hex s \<noteq> []"
  using length_sha256_hex [of s] by auto

lemma sha_pad_length: "length (sha_pad bs) mod 64 = 0"
proof -
  have "int (length (sha_pad bs)) = int (length bs) + 9 + (55 - int (length bs)) mod 64"
    by (simp add: sha_pad_def Let_def)
  also have "\<dots> mod 64 = (int (length bs) + 9 + (55 - int (length bs))) mod 64"
    by (rule mod_add_right_eq)
  also have "\<dots> = 0"
    by simp
  finally have "int (length (sha_pad bs)) mod 64 = 0" .
  then show ?thesis
    by (metis of_nat_0_eq_iff of_nat_numeral zmod_int)
qed

end
