(* ===== verification/WriteConfig.thy ===== *)
theory WriteConfig
  imports Samples GoPath Sha256
begin

text \<open>
  \<^verbatim>\<open>internal/controller/write_config.go\<close>: the managed files, the header and the stamp of a file,
  writing a file with its digest beside it, and the test whether the file on disk was changed.
  The state is the file system: the content and the permission bits of every regular file.
  Directories are not part of it, except that a directory exists when a managed file or its digest
  file is in it. Every reason why a call on a path fails is a fault of the host (\<open>io_fault\<close>), and a
  failed write leaves the bytes that were written before it failed.
\<close>

section \<open>Definitions\<close>

definition ConntrackdConfigFile :: string where
  "ConntrackdConfigFile = ''/etc/conntrackd/conntrackd.conf''"

definition FloatyConfigFile :: string where
  "FloatyConfigFile = ''/etc/floaty/global.yaml''"

definition HAProxyAPIConfigFile :: string where
  "HAProxyAPIConfigFile = ''/etc/haproxy/conf.d/api.cfg''"

definition HAProxyIngressConfigFile :: string where
  "HAProxyIngressConfigFile = ''/etc/haproxy/conf.d/ingress.cfg''"

definition KeepalivedConfigFile :: string where
  "KeepalivedConfigFile = ''/etc/keepalived/conf.d/lb.conf''"

definition PublicNMConnectionFile :: string where
  "PublicNMConnectionFile = ''/etc/NetworkManager/system-connections/public.nmconnection''"

definition ClusterNetworkNMConnectionFile :: string where
  "ClusterNetworkNMConnectionFile = ''/etc/NetworkManager/system-connections/cluster-net.nmconnection''"

definition KeepalivedDummyNMConnectionFile :: string where
  "KeepalivedDummyNMConnectionFile = ''/etc/NetworkManager/system-connections/keepalived.nmconnection''"

definition SysctlConfFile :: string where
  "SysctlConfFile = ''/etc/sysctl.d/50-lb.conf''"

definition FirewalldDirectFile :: string where
  "FirewalldDirectFile = ''/etc/firewalld/direct.xml''"

definition FirewalldExternalZone :: string where
  "FirewalldExternalZone = ''/etc/firewalld/zones/external.xml''"

definition fileHeader :: string where
  "fileHeader = ln ''# Managed by bootc-loadbalancer-controller''"

definition xmlFileHeader :: string where
  \<open>xmlFileHeader =
     ln ''<?xml version="1.0" encoding="utf-8"?>'' @ ln [] @
     ln ''<!-- Managed by bootc-loadbalancer-controller -->''\<close>

definition digestExt :: string where
  "digestExt = ''.sha256''"

definition stampYAML :: "ObjectMeta \<Rightarrow> string" where
  "stampYAML m =
     ln (''# Generated from LoadBalancerConfig '' @ Namespace m @ ''/'' @ Name m @
       '' (UID '' @ UID m @ '', generation '' @ int_str (Generation m) @ '')'') @ ln []"

definition stampXML :: "ObjectMeta \<Rightarrow> string" where
  "stampXML m =
     ln (''<!-- Generated from LoadBalancerConfig '' @ Namespace m @ ''/'' @ Name m @
       '' (UID '' @ UID m @ '', generation '' @ int_str (Generation m) @ '')-->'') @ ln []"

text \<open>Writes to a \<^verbatim>\<open>strings.Builder\<close> never fail, so the function always succeeds.\<close>

definition RenderFinalConfig :: "string \<Rightarrow> ObjectMeta \<Rightarrow> string \<Rightarrow> string result" where
  "RenderFinalConfig cfgfilepath lbconfigMeta configdata =
     (let xml = (Ext cfgfilepath = ''.xml'');
          header = (if xml then xmlFileHeader else fileHeader);
          stamp = (if xml then stampXML else stampYAML) in
      Inr (header @ stamp lbconfigMeta @ configdata))"

definition configfilePath :: "LoadBalancerConfigReconciler \<Rightarrow> string \<Rightarrow> string" where
  "configfilePath r configfile = Join [ConfigRoot r, configfile]"

definition digestfilePath :: "LoadBalancerConfigReconciler \<Rightarrow> string \<Rightarrow> string" where
  "digestfilePath r configfile = configfilePath r configfile @ digestExt"

text \<open>A regular file and the file system, by cleaned absolute or relative path.\<close>

record File =
  Content :: string
  Perm :: "12 word"

type_synonym files = "string \<rightharpoonup> File"

text \<open>
  \<^verbatim>\<open>os.OpenFile(path, O_RDWR|O_CREATE|O_TRUNC, mode)\<close>: an existing file is emptied and keeps its
  permissions, a new one gets the mode without the bits of the umask.
\<close>

definition os_OpenFile :: "host \<Rightarrow> string \<Rightarrow> 12 word \<Rightarrow> files \<Rightarrow> error option \<times> files" where
  "os_OpenFile h path mode fs =
     (case io_fault h (OpenFile path) of
        Some _ \<Rightarrow> (Some (Errorf ''open failed''), fs)
      | None \<Rightarrow>
          (None, fs(path \<mapsto>
            (case fs path of
               Some f \<Rightarrow> f\<lparr>Content := []\<rparr>
             | None \<Rightarrow> \<lparr>Content = [], Perm = Bit_Operations.and mode (Bit_Operations.not (umask h))\<rparr>))))"

text \<open>A write at the start of the file just opened; a failing one may have written a part.\<close>

definition file_Write :: "host \<Rightarrow> string \<Rightarrow> string \<Rightarrow> files \<Rightarrow> error option \<times> files" where
  "file_Write h path s fs =
     (case io_fault h (WriteString path) of
        Some n \<Rightarrow> (Some (Errorf ''write failed''),
          fs(path := map_option (\<lambda>f. f\<lparr>Content := take n s\<rparr>) (fs path)))
      | None \<Rightarrow> (None, fs(path := map_option (\<lambda>f. f\<lparr>Content := s\<rparr>) (fs path))))"

definition os_fault :: "host \<Rightarrow> io_op \<Rightarrow> string \<Rightarrow> error option" where
  "os_fault h op1 msg = (case io_fault h op1 of Some _ \<Rightarrow> Some (Errorf msg) | None \<Rightarrow> None)"

text \<open>
  \<^verbatim>\<open>os.MkdirAll\<close> of the directory of a file: it does nothing when the directory exists, and the
  directory exists when the file or its digest file does.
\<close>

definition os_MkdirAll :: "host \<Rightarrow> string \<Rightarrow> string \<Rightarrow> files \<Rightarrow> error option" where
  "os_MkdirAll h cfgfilepath digestfilepath fs =
     (if fs cfgfilepath \<noteq> None \<or> fs digestfilepath \<noteq> None then None
      else os_fault h (MkdirAll (Dir cfgfilepath)) ''mkdir failed'')"

definition os_ReadFile :: "host \<Rightarrow> string \<Rightarrow> files \<Rightarrow> string result" where
  "os_ReadFile h path fs =
     (case io_fault h (ReadFile path) of
        Some _ \<Rightarrow> Inl (Errorf ''read failed'')
      | None \<Rightarrow> (case fs path of None \<Rightarrow> Inl (Errorf ''no such file'') | Some f \<Rightarrow> Inr (Content f)))"

text \<open>The argument \<^verbatim>\<open>digestdata\<close> is passed by the caller and not used by the function.\<close>

definition WriteConfig ::
  "host \<Rightarrow> LoadBalancerConfigReconciler \<Rightarrow> ObjectMeta \<Rightarrow> string \<Rightarrow> string \<Rightarrow> string \<Rightarrow> 12 word \<Rightarrow> files \<Rightarrow>
     error option \<times> files" where
  "WriteConfig h r lbconfigMeta configfile configdata digestdata mode0 fs =
     (let mode = (if mode0 = 0 then 420 else mode0);
          cfgfilepath = configfilePath r configfile;
          digestfilepath = digestfilePath r configfile in
      case RenderFinalConfig cfgfilepath lbconfigMeta configdata of
        Inl e \<Rightarrow> (Some (Wrapf ''failed to render final file contents'' e), fs)
      | Inr cfgfilecontents \<Rightarrow>
      case os_MkdirAll h cfgfilepath digestfilepath fs of
        Some e \<Rightarrow> (Some (Wrapf ''failed to create director for config file'' e), fs)
      | None \<Rightarrow>
      case os_OpenFile h cfgfilepath mode fs of
        (Some e, fs1) \<Rightarrow> (Some (Wrapf ''failed to create or open config file'' e), fs1)
      | (None, fs1) \<Rightarrow>
      case file_Write h cfgfilepath cfgfilecontents fs1 of
        (Some e, fs2) \<Rightarrow> (Some (Wrapf ''failed to write config file'' e), fs2)
      | (None, fs2) \<Rightarrow>
      case os_fault h (CloseFile cfgfilepath) ''close failed'' of
        Some e \<Rightarrow> (Some (Wrapf ''failed to close config file'' e), fs2)
      | None \<Rightarrow>
      case os_OpenFile h digestfilepath 420 fs2 of
        (Some e, fs3) \<Rightarrow> (Some (Wrapf ''failed to create or open config digest file'' e), fs3)
      | (None, fs3) \<Rightarrow>
      case file_Write h digestfilepath (sha256_hex cfgfilecontents) fs3 of
        (Some e, fs4) \<Rightarrow> (Some (Wrapf ''failed to write config file digest'' e), fs4)
      | (None, fs4) \<Rightarrow>
      case os_fault h (CloseFile digestfilepath) ''close failed'' of
        Some e \<Rightarrow> (Some (Wrapf ''failed to close config digest file'' e), fs4)
      | None \<Rightarrow> (None, fs4))"

definition IsFileModified :: "host \<Rightarrow> LoadBalancerConfigReconciler \<Rightarrow> string \<Rightarrow> files \<Rightarrow> bool" where
  "IsFileModified h r configfile fs =
     (case os_ReadFile h (configfilePath r configfile) fs of
        Inl _ \<Rightarrow> True
      | Inr config \<Rightarrow>
         (case os_ReadFile h (digestfilePath r configfile) fs of
            Inl _ \<Rightarrow> True
          | Inr storeddigest \<Rightarrow> sha256_hex config \<noteq> storeddigest))"

section \<open>Specifications\<close>

text \<open>The files the controller manages.\<close>

definition managed_files :: "string list" where
  "managed_files =
     [HAProxyAPIConfigFile, HAProxyIngressConfigFile, KeepalivedConfigFile, FloatyConfigFile,
      ConntrackdConfigFile, PublicNMConnectionFile, ClusterNetworkNMConnectionFile,
      KeepalivedDummyNMConnectionFile, SysctlConfFile, FirewalldExternalZone, FirewalldDirectFile]"

lemmas managed_file_defs =
  HAProxyAPIConfigFile_def HAProxyIngressConfigFile_def KeepalivedConfigFile_def FloatyConfigFile_def
  ConntrackdConfigFile_def PublicNMConnectionFile_def ClusterNetworkNMConnectionFile_def
  KeepalivedDummyNMConnectionFile_def SysctlConfFile_def FirewalldExternalZone_def FirewalldDirectFile_def

text \<open>The text of a managed file: header, stamp and rendered data.\<close>

definition final_text :: "string \<Rightarrow> ObjectMeta \<Rightarrow> string \<Rightarrow> string" where
  "final_text configfile m configdata =
     (if Ext configfile = ''.xml'' then xmlFileHeader @ stampXML m else fileHeader @ stampYAML m) @ configdata"

text \<open>The file on disk is the given text and its digest file holds the digest of the text.\<close>

definition stored ::
  "LoadBalancerConfigReconciler \<Rightarrow> string \<Rightarrow> string \<Rightarrow> files \<Rightarrow> bool" where
  "stored r configfile txt fs =
     (map_option Content (fs (configfilePath r configfile)) = Some txt \<and>
      map_option Content (fs (digestfilePath r configfile)) = Some (sha256_hex txt))"

text \<open>The host never fails on the paths of a file.\<close>

definition healthy :: "host \<Rightarrow> LoadBalancerConfigReconciler \<Rightarrow> string \<Rightarrow> bool" where
  "healthy h r configfile =
     (list_all (\<lambda>op1. io_fault h op1 = None)
        [MkdirAll (Dir (configfilePath r configfile)),
         OpenFile (configfilePath r configfile), WriteString (configfilePath r configfile),
         CloseFile (configfilePath r configfile), ReadFile (configfilePath r configfile),
         OpenFile (digestfilePath r configfile), WriteString (digestfilePath r configfile),
         CloseFile (digestfilePath r configfile), ReadFile (digestfilePath r configfile)])"

section \<open>Lemmas: paths\<close>

lemma managed_plain:
  assumes "f \<in> set managed_files"
  shows "\<exists>b. f = CHR ''/'' # b \<and> plain_body b"
proof -
  have "list_all (\<lambda>f. hd f = CHR ''/'' \<and> f \<noteq> [] \<and> plain_body (tl f)) managed_files"
    by code_simp
  then show ?thesis
    using assms by (cases f) (auto simp: list_all_iff)
qed

lemma configfilePath_plain:
  assumes "f = CHR ''/'' # b" "plain_body b"
  shows "configfilePath r f = root_prefix (ConfigRoot r) @ b"
  using assms by (simp add: configfilePath_def Join_plain)

lemma configfilePath_eq_iff:
  assumes "f \<in> set managed_files" "g \<in> set managed_files"
  shows "configfilePath r f = configfilePath r g \<longleftrightarrow> f = g"
    "digestfilePath r f = digestfilePath r g \<longleftrightarrow> f = g"
  using managed_plain [OF assms(1)] managed_plain [OF assms(2)]
  by (auto simp: digestfilePath_def configfilePath_plain)

lemma managed_extension:
  assumes "f \<in> set managed_files"
  obtains b e where "f = CHR ''/'' # b @ CHR ''.'' # e" "plain_body (b @ CHR ''.'' # e)"
    "CHR ''.'' \<notin> set e" "CHR ''/'' \<notin> set e" "e \<noteq> ''sha256''"
proof -
  have "list_all (\<lambda>f. let e = rev (takeWhile (\<lambda>c. c \<noteq> CHR ''.'') (rev (tl f))) in
      CHR ''.'' \<in> set (tl f) \<and> CHR ''/'' \<notin> set e \<and> e \<noteq> ''sha256'') managed_files"
    by code_simp
  then have f: "CHR ''.'' \<in> set (tl f)"
    "CHR ''/'' \<notin> set (rev (takeWhile (\<lambda>c. c \<noteq> CHR ''.'') (rev (tl f))))"
    "rev (takeWhile (\<lambda>c. c \<noteq> CHR ''.'') (rev (tl f))) \<noteq> ''sha256''"
    using assms by (auto simp: list_all_iff Let_def)
  obtain b where b: "f = CHR ''/'' # b" "plain_body b"
    using managed_plain [OF assms] by blast
  obtain u v where "b = u @ CHR ''.'' # v" "CHR ''.'' \<notin> set v"
    using f(1) b(1) split_list_last [of "CHR ''.''" b] by auto
  moreover from this have "rev (takeWhile (\<lambda>c. c \<noteq> CHR ''.'') (rev (tl f))) = v"
    using b(1) by (simp, subst takeWhile_append2) auto
  ultimately show ?thesis
    using that b f by metis
qed

lemma Ext_configfilePath:
  assumes "f \<in> set managed_files"
  shows "Ext (configfilePath r f) = Ext f"
proof -
  obtain b e where f: "f = CHR ''/'' # b @ CHR ''.'' # e" "plain_body (b @ CHR ''.'' # e)"
    "CHR ''.'' \<notin> set e" "CHR ''/'' \<notin> set e"
    using managed_extension [OF assms] by metis
  have "configfilePath r f = (root_prefix (ConfigRoot r) @ b) @ CHR ''.'' # e"
    using configfilePath_plain [OF f(1,2)] by simp
  moreover have "f = (CHR ''/'' # b) @ CHR ''.'' # e"
    using f(1) by simp
  ultimately show ?thesis
    using Ext_append [OF f(3,4)] by metis
qed

lemma config_not_digest:
  assumes "f \<in> set managed_files"
  shows "configfilePath r f \<noteq> digestfilePath r g"
proof -
  obtain b e where f: "f = CHR ''/'' # b @ CHR ''.'' # e" "CHR ''.'' \<notin> set e" "CHR ''/'' \<notin> set e" "e \<noteq> ''sha256''"
    using managed_extension [OF assms] by metis
  have "Ext (configfilePath r f) = CHR ''.'' # e"
    using Ext_configfilePath [OF assms] Ext_append [OF f(2,3), of "CHR ''/'' # b"] f(1) by simp
  moreover have "Ext (digestfilePath r g) = ''.sha256''"
    using Ext_append [of "''sha256''" "configfilePath r g"] by (simp add: digestfilePath_def digestExt_def)
  ultimately show ?thesis
    using f(4) by auto
qed

lemma own_digest_differs [simp]:
  "configfilePath r f \<noteq> digestfilePath r f" "digestfilePath r f \<noteq> configfilePath r f"
  by (simp_all add: digestfilePath_def digestExt_def)

lemma RenderFinalConfig_final_text:
  "f \<in> set managed_files \<Longrightarrow> RenderFinalConfig (configfilePath r f) m d = Inr (final_text f m d)"
  by (simp add: RenderFinalConfig_def final_text_def Ext_configfilePath)

section \<open>Lemmas: writing and reading\<close>

lemmas fs_defs = os_MkdirAll_def os_OpenFile_def file_Write_def os_fault_def os_ReadFile_def

text \<open>Only the file and its digest file are touched.\<close>

lemma WriteConfig_frame:
  assumes "p \<noteq> configfilePath r f" "p \<noteq> digestfilePath r f"
  shows "snd (WriteConfig h r m f d g mode fs) p = fs p"
  using assms by (simp add: WriteConfig_def fs_defs Let_def split: option.split sum.split)

text \<open>A write that reports success has stored the text and its digest.\<close>

lemma WriteConfig_success:
  assumes "f \<in> set managed_files" "WriteConfig h r m f d g mode fs = (None, fs')"
  shows "stored r f (final_text f m d) fs'"
  using assms(2)
  by (auto simp: WriteConfig_def RenderFinalConfig_final_text [OF assms(1)] fs_defs stored_def Let_def
      split: option.splits)

lemma WriteConfig_healthy:
  assumes "f \<in> set managed_files" "healthy h r f"
  shows "fst (WriteConfig h r m f d g mode fs) = None"
  using assms(2)
  by (simp add: WriteConfig_def RenderFinalConfig_final_text [OF assms(1)] fs_defs healthy_def Let_def)

lemma IsFileModified_stored:
  assumes "healthy h r f"
  shows "IsFileModified h r f fs \<longleftrightarrow> \<not> (\<exists>txt. stored r f txt fs)"
  using assms
  by (auto simp: IsFileModified_def stored_def os_ReadFile_def healthy_def split: option.split)

lemma os_ReadFile_frame: "fs' p = fs p \<Longrightarrow> os_ReadFile h p fs' = os_ReadFile h p fs"
  by (simp add: os_ReadFile_def split: option.split)

lemma IsFileModified_frame:
  assumes "fs' (configfilePath r f) = fs (configfilePath r f)" "fs' (digestfilePath r f) = fs (digestfilePath r f)"
  shows "IsFileModified h r f fs' = IsFileModified h r f fs" "stored r f txt fs' = stored r f txt fs"
  using assms os_ReadFile_frame [of fs' "configfilePath r f" fs h]
    os_ReadFile_frame [of fs' "digestfilePath r f" fs h]
  by (simp_all add: IsFileModified_def stored_def split: sum.split)

text \<open>Writing one managed file leaves every other managed file as it is.\<close>

lemma WriteConfig_other:
  assumes "f \<in> set managed_files" "g \<in> set managed_files" "f \<noteq> g"
  shows "stored r g txt (snd (WriteConfig h r m f d dd mode fs)) = stored r g txt fs"
    "IsFileModified h r g (snd (WriteConfig h r m f d dd mode fs)) = IsFileModified h r g fs"
proof -
  let ?fs = "snd (WriteConfig h r m f d dd mode fs)"
  have "?fs (configfilePath r g) = fs (configfilePath r g)"
    using assms configfilePath_eq_iff(1) [OF assms(2,1), of r] config_not_digest [OF assms(2), of r f]
    by (intro WriteConfig_frame) auto
  moreover have "?fs (digestfilePath r g) = fs (digestfilePath r g)"
    using assms configfilePath_eq_iff(2) [OF assms(2,1), of r] config_not_digest [OF assms(1), of r g]
    by (intro WriteConfig_frame) auto
  ultimately show "stored r g txt ?fs = stored r g txt fs"
    "IsFileModified h r g ?fs = IsFileModified h r g fs"
    by (rule IsFileModified_frame)+
qed

text \<open>Permissions: a new file gets its mode, an existing file keeps what it has.\<close>

lemma WriteConfig_perm:
  assumes "f \<in> set managed_files" "WriteConfig h r m f d g mode fs = (None, fs')"
  shows "map_option Perm (fs' (configfilePath r f)) =
    Some (case fs (configfilePath r f) of
      Some old \<Rightarrow> Perm old
    | None \<Rightarrow> Bit_Operations.and (if mode = 0 then 420 else mode) (Bit_Operations.not (umask h)))"
  using assms(2)
  by (auto simp: WriteConfig_def RenderFinalConfig_final_text [OF assms(1)] fs_defs Let_def
      split: option.splits if_splits)

section \<open>Properties\<close>

text \<open>
  C28: Whatever the configuration root is, the managed files and their digest files are 22 different
  paths, so no file ever overwrites another file or its digest.
\<close>

theorem managed_paths_distinct:
  "distinct (map (configfilePath r) managed_files @ map (digestfilePath r) managed_files)"
proof -
  have "distinct managed_files"
    by code_simp
  then have "distinct (map (configfilePath r) managed_files)" "distinct (map (digestfilePath r) managed_files)"
    by (auto simp: distinct_map inj_on_def configfilePath_eq_iff)
  then show ?thesis
    using config_not_digest by auto
qed

text \<open>
  C17: On a host without faults on its paths, writing a managed file succeeds: the file then holds
  the header and stamp for its type followed by the data, the digest file holds the digest of that
  text, the file counts as unmodified, and no other file of the system has changed.
\<close>

theorem write_then_unmodified:
  assumes "f \<in> set managed_files" "healthy h r f"
  shows "\<exists>fs'. WriteConfig h r m f d g mode fs = (None, fs') \<and>
    map_option Content (fs' (configfilePath r f)) = Some (final_text f m d) \<and>
    map_option Content (fs' (digestfilePath r f)) = Some (sha256_hex (final_text f m d)) \<and>
    \<not> IsFileModified h r f fs' \<and>
    (\<forall>p. p \<noteq> configfilePath r f \<and> p \<noteq> digestfilePath r f \<longrightarrow> fs' p = fs p)"
proof -
  obtain fs' where w: "WriteConfig h r m f d g mode fs = (None, fs')"
    using WriteConfig_healthy [OF assms, of m d g mode fs] by (metis prod.collapse)
  have "stored r f (final_text f m d) fs'"
    by (rule WriteConfig_success [OF assms(1) w])
  moreover have "fs' p = fs p" if "p \<noteq> configfilePath r f" "p \<noteq> digestfilePath r f" for p
    using WriteConfig_frame [OF that, of h m d g mode fs] w by simp
  ultimately show ?thesis
    using w IsFileModified_stored [OF assms(2), of fs'] by (auto simp: stored_def)
qed

theorem write_then_unmodified_witness:
  "\<exists>fs'. WriteConfig sample_host sample_reconciler (Meta sample_lbconfig) SysctlConfFile ''data'' [] 0 Map.empty = (None, fs') \<and>
     map_option Content (fs' ''/etc/sysctl.d/50-lb.conf'') =
       Some (fileHeader @ stampYAML (Meta sample_lbconfig) @ ''data'')"
proof -
  have "healthy sample_host sample_reconciler SysctlConfFile"
    by (simp add: healthy_def sample_host_def)
  moreover have "SysctlConfFile \<in> set managed_files"
    by (simp add: managed_files_def)
  moreover have "configfilePath sample_reconciler SysctlConfFile = ''/etc/sysctl.d/50-lb.conf''"
    "Ext SysctlConfFile \<noteq> ''.xml''"
    by code_simp+
  ultimately show ?thesis
    using write_then_unmodified [of SysctlConfFile sample_host sample_reconciler
        "Meta sample_lbconfig" "''data''" "[]" 0 Map.empty]
    by (auto simp: final_text_def)
qed

text \<open>
  C18: Drift detection. Once a file and its digest are stored, replacing the content of the file is
  noticed unless the new content has the same SHA-256 digest, and removing the file or its digest
  file is always noticed.
\<close>

theorem drift_detected:
  assumes "stored r f txt fs" "healthy h r f"
  shows "(IsFileModified h r f (fs(configfilePath r f \<mapsto> file)) \<longleftrightarrow> sha256_hex (Content file) \<noteq> sha256_hex txt) \<and>
    IsFileModified h r f (fs(configfilePath r f := None)) \<and>
    IsFileModified h r f (fs(digestfilePath r f := None))"
  using assms
  by (auto simp: IsFileModified_def os_ReadFile_def stored_def healthy_def split: option.splits)

theorem drift_detected_witness:
  "IsFileModified sample_host sample_reconciler SysctlConfFile
     ([configfilePath sample_reconciler SysctlConfFile \<mapsto> \<lparr>Content = ''a'', Perm = 420\<rparr>,
       digestfilePath sample_reconciler SysctlConfFile \<mapsto> \<lparr>Content = sha256_hex ''a'', Perm = 420\<rparr>]
      (digestfilePath sample_reconciler SysctlConfFile := None))"
proof -
  have "stored sample_reconciler SysctlConfFile ''a''
     [configfilePath sample_reconciler SysctlConfFile \<mapsto> \<lparr>Content = ''a'', Perm = 420\<rparr>,
       digestfilePath sample_reconciler SysctlConfFile \<mapsto> \<lparr>Content = sha256_hex ''a'', Perm = 420\<rparr>]"
    by (simp add: stored_def)
  moreover have "healthy sample_host sample_reconciler SysctlConfFile"
    by (simp add: healthy_def sample_host_def)
  ultimately show ?thesis
    using drift_detected by blast
qed

text \<open>
  Permissions. A file that did not exist is created with the requested mode (0644 when the mode
  is zero) without the bits of the umask; a file that existed keeps its permissions.
\<close>

theorem write_permissions:
  assumes "f \<in> set managed_files" "WriteConfig h r m f d g mode fs = (None, fs')"
  shows "map_option Perm (fs' (configfilePath r f)) =
    Some (case fs (configfilePath r f) of
      Some old \<Rightarrow> Perm old
    | None \<Rightarrow> Bit_Operations.and (if mode = 0 then 420 else mode) (Bit_Operations.not (umask h)))"
  by (rule WriteConfig_perm [OF assms])

theorem write_permissions_witness:
  "map_option Perm (snd (WriteConfig sample_host sample_reconciler (Meta sample_lbconfig) SysctlConfFile ''data'' [] 0 Map.empty)
     (configfilePath sample_reconciler SysctlConfFile)) = Some 420"
proof -
  have m: "SysctlConfFile \<in> set managed_files"
    by (simp add: managed_files_def)
  moreover have "healthy sample_host sample_reconciler SysctlConfFile"
    by (simp add: healthy_def sample_host_def)
  ultimately have "WriteConfig sample_host sample_reconciler (Meta sample_lbconfig) SysctlConfFile ''data'' [] 0 Map.empty =
      (None, snd (WriteConfig sample_host sample_reconciler (Meta sample_lbconfig) SysctlConfFile ''data'' [] 0 Map.empty))"
    by (simp add: WriteConfig_healthy prod_eq_iff)
  from write_permissions [OF m this] show ?thesis
    by (simp add: sample_host_def)
qed

end
