(* ===== verification/ConfigStore.thy ===== *)
theory ConfigStore
  imports WriteConfig
begin

text \<open>
  \<^verbatim>\<open>CompareAndWrite\<close> of \<^verbatim>\<open>internal/controller/loadbalancerconfig_controller.go\<close>, and the contract it
  offers to the reconciler. A file is synchronised when the file and its digest file agree on disk
  and the hash recorded in the resource status is the hash of the data. The locale
  \<open>config_store\<close> states the contract, proves what it gives for a sequence of files, and is
  interpreted on \<open>CompareAndWrite\<close>.
\<close>

section \<open>Definitions\<close>

text \<open>
  The state of a reconciliation: the file system, the resource in memory, the commands run and the
  status updates sent so far.
\<close>

record world =
  w_fs :: files
  w_lb :: LoadBalancerConfig
  w_cmds :: "string list list"
  w_updates :: "LoadBalancerConfig list"

text \<open>
  \<^verbatim>\<open>nodeStatus := lbconfig.Status.Nodes[r.Hostname]\<close> is a pointer into the resource; using it when it
  is nil panics. A missing hash reads as the empty string.
\<close>

definition recorded_hash :: "LoadBalancerNodeStatus \<Rightarrow> string \<Rightarrow> string" where
  "recorded_hash ns configfile =
     (case ConfigHashes ns of
        None \<Rightarrow> []
      | Some m \<Rightarrow> (case m configfile of None \<Rightarrow> [] | Some d \<Rightarrow> d))"

definition CompareAndWrite ::
  "host \<Rightarrow> LoadBalancerConfigReconciler \<Rightarrow> string \<Rightarrow> 12 word \<Rightarrow> string \<Rightarrow> (world, bool \<times> error option) run" where
  "CompareAndWrite h r configfile mode configdata = (\<lambda>w.
     case node_ptr (w_lb w) (Hostname r) of
       None \<Rightarrow> (Panic (NilDereference ''Status.Nodes[hostname]''), w)
     | Some ns0 \<Rightarrow>
        (let nodeStatus = (if ConfigHashes ns0 = None then ns0\<lparr>ConfigHashes := Some Map.empty\<rparr> else ns0);
             lb1 = set_node (Hostname r) nodeStatus (w_lb w);
             dataDigest = sha256_hex configdata;
             isDiskModified = IsFileModified h r configfile (w_fs w) in
         if \<not> isDiskModified \<and> recorded_hash nodeStatus configfile = dataDigest
         then (Ret (False, None), w\<lparr>w_lb := lb1\<rparr>)
         else
          (let nodeStatus' = nodeStatus\<lparr>ConfigHashes := map_option (\<lambda>m. m(configfile \<mapsto> dataDigest)) (ConfigHashes nodeStatus)\<rparr>;
               lb2 = set_node (Hostname r) nodeStatus' lb1;
               (err, fs') = WriteConfig h r (Meta lb2) configfile configdata dataDigest mode (w_fs w) in
           (Ret (True, err), w\<lparr>w_lb := lb2, w_fs := fs'\<rparr>))))"

section \<open>Specifications\<close>

definition hash_in_status :: "LoadBalancerConfigReconciler \<Rightarrow> string \<Rightarrow> world \<Rightarrow> string option" where
  "hash_in_status r f w =
     Option.bind (node_ptr (w_lb w) (Hostname r)) (\<lambda>ns. Option.bind (ConfigHashes ns) (\<lambda>m. m f))"

definition synced :: "LoadBalancerConfigReconciler \<Rightarrow> string \<Rightarrow> string \<Rightarrow> world \<Rightarrow> bool" where
  "synced r f d w = ((\<exists>txt. stored r f txt (w_fs w)) \<and> hash_in_status r f w = Some (sha256_hex d))"

definition readable :: "host \<Rightarrow> LoadBalancerConfigReconciler \<Rightarrow> string \<Rightarrow> bool" where
  "readable h r f =
     (f \<in> set managed_files \<and> io_fault h (ReadFile (configfilePath r f)) = None \<and>
      io_fault h (ReadFile (digestfilePath r f)) = None)"

definition registered :: "LoadBalancerConfigReconciler \<Rightarrow> world \<Rightarrow> bool" where
  "registered r w = (node_ptr (w_lb w) (Hostname r) \<noteq> None)"

text \<open>
  What the recorded hash is worth: when file and digest agree on disk, the file is the final text
  of data with that hash.
\<close>

definition truthful :: "LoadBalancerConfigReconciler \<Rightarrow> string \<Rightarrow> world \<Rightarrow> bool" where
  "truthful r f w =
     (\<forall>e txt. hash_in_status r f w = Some e \<longrightarrow> stored r f txt (w_fs w) \<longrightarrow>
        (\<exists>m d. txt = final_text f m d \<and> sha256_hex d = e))"

text \<open>The file holds the data: header, stamp and a text with the digest of the data.\<close>

definition holds_data :: "LoadBalancerConfigReconciler \<Rightarrow> string \<Rightarrow> string \<Rightarrow> world \<Rightarrow> bool" where
  "holds_data r f d w =
     (\<exists>m d'. stored r f (final_text f m d') (w_fs w) \<and> sha256_hex d' = sha256_hex d)"

text \<open>What the recorded hash is worth for one text: when it is the hash of this text, the file holds it.\<close>

definition hash_fits :: "LoadBalancerConfigReconciler \<Rightarrow> string \<Rightarrow> string \<Rightarrow> world \<Rightarrow> bool" where
  "hash_fits r f d w = (synced r f d w \<longrightarrow> holds_data r f d w)"

text \<open>Putting a sequence of files, one after the other, with the result of each.\<close>

primrec put_all ::
  "('f \<Rightarrow> 'm \<Rightarrow> 'd \<Rightarrow> ('s, bool \<times> error option) run) \<Rightarrow> ('f \<times> 'm \<times> 'd) list \<Rightarrow> 's \<Rightarrow>
     (bool \<times> error option) list \<times> 's" where
  "put_all put [] s = ([], s)"
| "put_all put (i # is) s =
     (case put (fst i) (fst (snd i)) (snd (snd i)) s of
        (Ret res, s') \<Rightarrow> (let (rs, s'') = put_all put is s' in (res # rs, s''))
      | (Panic p, s') \<Rightarrow> ([], s'))"

section \<open>The contract of the file store\<close>

locale config_store =
  fixes put :: "'f \<Rightarrow> 'm \<Rightarrow> 'd \<Rightarrow> ('s, bool \<times> error option) run"
    and ok :: "'f \<Rightarrow> bool"
    and ready :: "'s \<Rightarrow> bool"
    and sync :: "'f \<Rightarrow> 'd \<Rightarrow> 's \<Rightarrow> bool"
  assumes put_ready: "ready s \<Longrightarrow> \<exists>c e s'. put f m d s = (Ret (c, e), s') \<and> ready s'"
    and put_same: "ready s \<Longrightarrow> ok f \<Longrightarrow> sync f d s \<Longrightarrow> put f m d s = (Ret (False, None), s)"
    and put_sync: "ready s \<Longrightarrow> ok f \<Longrightarrow> put f m d s = (Ret (c, None), s') \<Longrightarrow> sync f d s'"
    and put_other: "ready s \<Longrightarrow> ok f \<Longrightarrow> ok g \<Longrightarrow> g \<noteq> f \<Longrightarrow> put f m d s = (out, s') \<Longrightarrow>
      sync g e s' = sync g e s"
begin

lemma put_twice:
  assumes "ready s" "ok f" "put f m d s = (Ret (c, None), s')"
  shows "put f m' d s' = (Ret (False, None), s')"
  using assms put_sync [OF assms] put_ready [OF assms(1), of f m d] by (intro put_same) auto

lemma put_all_other:
  assumes "ready s" "ok g" "g \<notin> fst ` set is" "\<forall>i \<in> set is. ok (fst i)" "put_all put is s = (rs, s')"
  shows "ready s' \<and> sync g e s' = sync g e s"
  using assms
proof (induction "is" arbitrary: s rs)
  case Nil
  then show ?case by simp
next
  case (Cons i "is")
  obtain c er s1 where p: "put (fst i) (fst (snd i)) (snd (snd i)) s = (Ret (c, er), s1)" "ready s1"
    using put_ready [OF Cons.prems(1)] by blast
  then obtain rs1 where "put_all put is s1 = (rs1, s')"
    using Cons.prems(5) by (auto split: prod.splits)
  with Cons p have "ready s' \<and> sync g e s' = sync g e s1" by simp
  moreover have "sync g e s1 = sync g e s"
    using Cons.prems by (intro put_other [OF Cons.prems(1) _ Cons.prems(2) _ p(1)]) auto
  ultimately show ?case by simp
qed

lemma put_all_sync:
  assumes "ready s" "distinct (map fst is)" "\<forall>i \<in> set is. ok (fst i)"
    "put_all put is s = (rs, s')" "\<forall>res \<in> set rs. snd res = None"
  shows "ready s' \<and> (\<forall>i \<in> set is. sync (fst i) (snd (snd i)) s')"
  using assms
proof (induction "is" arbitrary: s rs)
  case Nil
  then show ?case by simp
next
  case (Cons i "is")
  obtain c er s1 where p: "put (fst i) (fst (snd i)) (snd (snd i)) s = (Ret (c, er), s1)" "ready s1"
    using put_ready [OF Cons.prems(1)] by blast
  then obtain rs1 where rs1: "put_all put is s1 = (rs1, s')" "rs = (c, er) # rs1"
    using Cons.prems(4) by (auto split: prod.splits)
  then have "er = None" using Cons.prems(5) by simp
  then have "sync (fst i) (snd (snd i)) s1"
    using put_sync [OF Cons.prems(1) _ p(1) [unfolded \<open>er = None\<close>]] Cons.prems(3) by simp
  moreover have "ready s' \<and> sync (fst i) (snd (snd i)) s' = sync (fst i) (snd (snd i)) s1"
    using Cons.prems p(2) rs1(1) by (intro put_all_other) auto
  ultimately show ?case
    using Cons p(2) rs1 by simp
qed

lemma put_all_length:
  assumes "ready s" "put_all put is s = (rs, s')"
  shows "length rs = length is"
  using assms
proof (induction "is" arbitrary: s rs)
  case (Cons i "is")
  obtain c er s1 where "put (fst i) (fst (snd i)) (snd (snd i)) s = (Ret (c, er), s1)" "ready s1"
    using put_ready [OF Cons.prems(1)] by blast
  with Cons show ?case by (auto split: prod.splits)
qed simp

lemma put_all_no_error:
  assumes "ready s" "put_all put is s = (rs, s')"
    and "\<And>i t. i \<in> set is \<Longrightarrow> ready t \<Longrightarrow> \<exists>c t'. put (fst i) (fst (snd i)) (snd (snd i)) t = (Ret (c, None), t')"
  shows "\<forall>res \<in> set rs. snd res = None"
  using assms
proof (induction "is" arbitrary: s rs)
  case (Cons i "is")
  obtain c s1 where "put (fst i) (fst (snd i)) (snd (snd i)) s = (Ret (c, None), s1)"
    using Cons.prems(1,3) by force
  moreover from this have "ready s1"
    using put_ready [OF Cons.prems(1), of "fst i" "fst (snd i)" "snd (snd i)"] by auto
  moreover from calculation obtain rs1 where "put_all put is s1 = (rs1, s')" "rs = (c, None) # rs1"
    using Cons.prems(2) by (auto split: prod.splits)
  ultimately show ?case
    using Cons.IH [of s1 rs1] Cons.prems(3) by auto
qed simp

text \<open>Synchronised files stay as they are, in whatever order and number they are put again.\<close>

lemma put_all_same:
  assumes "ready s" "\<forall>i \<in> set is. ok (fst i) \<and> sync (fst i) (snd (snd i)) s"
  shows "put_all put is s = (map (\<lambda>_. (False, None)) is, s)"
  using assms by (induction "is") (simp_all add: put_same)

lemma put_all_idempotent:
  assumes "ready s" "distinct (map fst is)" "\<forall>i \<in> set is. ok (fst i)"
    "put_all put is s = (rs, s')" "\<forall>res \<in> set rs. snd res = None"
  shows "put_all put is s' = (map (\<lambda>_. (False, None)) is, s')"
  using put_all_sync [OF assms] assms(3) by (intro put_all_same) auto

end

text \<open>
  A store that also says what is on disk: \<open>good\<close> is the invariant of a file, and \<open>fits\<close> the part of
  it that concerns one text; a successful put of a text that fits leaves the file holding it and
  makes the file good.
\<close>

locale content_store = config_store +
  fixes good :: "'a \<Rightarrow> 'd \<Rightarrow> bool"
    and fits :: "'a \<Rightarrow> 'c \<Rightarrow> 'd \<Rightarrow> bool"
    and holds :: "'a \<Rightarrow> 'c \<Rightarrow> 'd \<Rightarrow> bool"
  assumes good_fits: "good f s \<Longrightarrow> fits f d s"
    and put_fits: "ready s \<Longrightarrow> ok f \<Longrightarrow> fits f d s \<Longrightarrow> put f m d s = (Ret (c, None), s') \<Longrightarrow>
      good f s' \<and> holds f d s'"
    and put_content_other: "ready s \<Longrightarrow> ok f \<Longrightarrow> ok g \<Longrightarrow> g \<noteq> f \<Longrightarrow> put f m d s = (out, s') \<Longrightarrow>
      good g s' = good g s \<and> fits g e s' = fits g e s \<and> holds g e s' = holds g e s"
begin

lemma put_holds:
  "ready s \<Longrightarrow> ok f \<Longrightarrow> good f s \<Longrightarrow> put f m d s = (Ret (c, None), s') \<Longrightarrow> good f s' \<and> holds f d s'"
  using put_fits good_fits by blast

lemma put_all_content_other:
  assumes "ready s" "ok g" "g \<notin> fst ` set is" "\<forall>i \<in> set is. ok (fst i)" "put_all put is s = (rs, s')"
  shows "good g s' = good g s \<and> fits g e s' = fits g e s \<and> holds g e s' = holds g e s"
  using assms
proof (induction "is" arbitrary: s rs)
  case Nil
  then show ?case by simp
next
  case (Cons i "is")
  obtain c er s1 where p: "put (fst i) (fst (snd i)) (snd (snd i)) s = (Ret (c, er), s1)" "ready s1"
    using put_ready [OF Cons.prems(1)] by blast
  then obtain rs1 where "put_all put is s1 = (rs1, s')"
    using Cons.prems(5) by (auto split: prod.splits)
  with Cons p have "good g s' = good g s1 \<and> fits g e s' = fits g e s1 \<and> holds g e s' = holds g e s1" by simp
  moreover have "good g s1 = good g s \<and> fits g e s1 = fits g e s \<and> holds g e s1 = holds g e s"
    using Cons.prems by (intro put_content_other [OF Cons.prems(1) _ Cons.prems(2) _ p(1)]) auto
  ultimately show ?case by simp
qed

text \<open>Putting different files without errors leaves every one of them holding its data.\<close>

lemma put_all_holds:
  assumes "ready s" "distinct (map fst is)" "\<forall>i \<in> set is. ok (fst i) \<and> fits (fst i) (snd (snd i)) s"
    "put_all put is s = (rs, s')" "\<forall>res \<in> set rs. snd res = None"
  shows "\<forall>i \<in> set is. good (fst i) s' \<and> holds (fst i) (snd (snd i)) s'"
  using assms
proof (induction "is" arbitrary: s rs)
  case Nil
  then show ?case by simp
next
  case (Cons i "is")
  obtain c er s1 where p: "put (fst i) (fst (snd i)) (snd (snd i)) s = (Ret (c, er), s1)" "ready s1"
    using put_ready [OF Cons.prems(1)] by blast
  then obtain rs1 where rs1: "put_all put is s1 = (rs1, s')" "rs = (c, er) # rs1"
    using Cons.prems(4) by (auto split: prod.splits)
  then have "er = None" using Cons.prems(5) by simp
  then have "good (fst i) s1 \<and> holds (fst i) (snd (snd i)) s1"
    using put_fits [OF Cons.prems(1) _ _ p(1) [unfolded \<open>er = None\<close>]] Cons.prems(3) by simp
  moreover have "good (fst i) s' = good (fst i) s1 \<and> holds (fst i) (snd (snd i)) s' = holds (fst i) (snd (snd i)) s1"
    using Cons.prems put_all_content_other [OF p(2) _ _ _ rs1(1), of "fst i" "snd (snd i)"] by auto
  moreover have "fits (fst j) (snd (snd j)) s1 = fits (fst j) (snd (snd j)) s" if "j \<in> set is" for j
    using that Cons.prems put_content_other [OF Cons.prems(1) _ _ _ p(1), of "fst j"] by (auto simp: image_iff)
  ultimately show ?case
    using Cons.IH [OF p(2) _ _ rs1(1)] Cons.prems rs1(2) by simp
qed

end

section \<open>Lemmas\<close>

lemma registered_nodes: "registered r w \<Longrightarrow> Nodes (Status (w_lb w)) \<noteq> None"
  by (auto simp: registered_def dest: node_ptr_nodes)

lemma CompareAndWrite_frame:
  assumes "CompareAndWrite h r f m d w = (out, w')"
  shows "Spec (w_lb w') = Spec (w_lb w)" "Meta (w_lb w') = Meta (w_lb w)"
    "w_cmds w' = w_cmds w" "w_updates w' = w_updates w"
    "h' \<noteq> Hostname r \<Longrightarrow> node_ptr (w_lb w') h' = node_ptr (w_lb w) h'"
  using assms
  by (auto simp: CompareAndWrite_def Let_def node_ptr_set_node split: option.splits if_splits prod.splits)

text \<open>The one step of the code on a registered host, by whether the file is synchronised.\<close>

definition record_hash :: "string \<Rightarrow> string \<Rightarrow> LoadBalancerNodeStatus \<Rightarrow> LoadBalancerNodeStatus" where
  "record_hash f d ns =
     ns\<lparr>ConfigHashes := Some ((case ConfigHashes ns of None \<Rightarrow> Map.empty | Some m \<Rightarrow> m)(f \<mapsto> d))\<rparr>"

lemma CompareAndWrite_unchanged:
  assumes "hash_in_status r f w = Some (sha256_hex d)" "\<not> IsFileModified h r f (w_fs w)"
  shows "CompareAndWrite h r f m d w = (Ret (False, None), w)"
  using assms
  by (auto simp: CompareAndWrite_def hash_in_status_def recorded_hash_def bind_eq_Some_conv set_node_same Let_def)

lemma CompareAndWrite_write:
  assumes "node_ptr (w_lb w) (Hostname r) = Some ns"
    and "IsFileModified h r f (w_fs w) \<or> hash_in_status r f w \<noteq> Some (sha256_hex d)"
  shows "CompareAndWrite h r f m d w =
    (Ret (True, fst (WriteConfig h r (Meta (w_lb w)) f d (sha256_hex d) m (w_fs w))),
     w\<lparr>w_lb := set_node (Hostname r) (record_hash f (sha256_hex d) ns) (w_lb w),
       w_fs := snd (WriteConfig h r (Meta (w_lb w)) f d (sha256_hex d) m (w_fs w))\<rparr>)"
proof -
  have "[] \<noteq> sha256_hex d" using sha256_hex_nonempty [of d] by metis
  with assms show ?thesis
    by (auto simp: CompareAndWrite_def hash_in_status_def recorded_hash_def record_hash_def Let_def
        split: option.splits prod.splits)
qed

lemma CompareAndWrite_cases:
  assumes "registered r w"
  obtains (unchanged) "hash_in_status r f w = Some (sha256_hex d)" "\<not> IsFileModified h r f (w_fs w)"
    "CompareAndWrite h r f m d w = (Ret (False, None), w)"
  | (written) ns where "node_ptr (w_lb w) (Hostname r) = Some ns"
    "CompareAndWrite h r f m d w =
      (Ret (True, fst (WriteConfig h r (Meta (w_lb w)) f d (sha256_hex d) m (w_fs w))),
       w\<lparr>w_lb := set_node (Hostname r) (record_hash f (sha256_hex d) ns) (w_lb w),
         w_fs := snd (WriteConfig h r (Meta (w_lb w)) f d (sha256_hex d) m (w_fs w))\<rparr>)"
  using assms CompareAndWrite_unchanged CompareAndWrite_write unfolding registered_def by blast

lemma hash_after_write:
  assumes "node_ptr (w_lb w) (Hostname r) = Some ns"
  shows "hash_in_status r g (w\<lparr>w_lb := set_node (Hostname r) (record_hash f e ns) (w_lb w), w_fs := fs'\<rparr>) =
      (if g = f then Some e else hash_in_status r g w)"
    "hash_in_status r g (w\<lparr>w_lb := set_node (Hostname r) (record_hash f e ns) (w_lb w)\<rparr>) =
      (if g = f then Some e else hash_in_status r g w)"
  using assms node_ptr_nodes [OF assms]
  by (auto simp: hash_in_status_def record_hash_def node_ptr_set_node split: option.splits)

lemma stored_readable:
  "readable h r f \<Longrightarrow> \<not> IsFileModified h r f fs \<longleftrightarrow> (\<exists>txt. stored r f txt fs)"
  by (auto simp: IsFileModified_def stored_def os_ReadFile_def readable_def split: option.split)

interpretation store: config_store "CompareAndWrite h r" "readable h r" "registered r" "synced r" for h r
proof
  fix s f m d
  assume reg: "registered r s"
  show "\<exists>c e s'. CompareAndWrite h r f m d s = (Ret (c, e), s') \<and> registered r s'"
    using reg
  proof (cases rule: CompareAndWrite_cases [where h = h and f = f and d = d and m = m])
    case (written ns)
    then show ?thesis
      using registered_nodes [OF reg] by (auto simp: registered_def node_ptr_set_node)
  qed (use reg in auto)
  show "CompareAndWrite h r f m d s = (Ret (False, None), s)" if "readable h r f" "synced r f d s"
    using that stored_readable [of h r f "w_fs s"] by (auto simp: synced_def intro: CompareAndWrite_unchanged)
  show "synced r f d s'" if "readable h r f" "CompareAndWrite h r f m d s = (Ret (c, None), s')" for c s'
    using reg
  proof (cases rule: CompareAndWrite_cases [where h = h and f = f and d = d and m = m])
    case unchanged
    then show ?thesis using that stored_readable [of h r f "w_fs s"] by (auto simp: synced_def)
  next
    case (written ns)
    then show ?thesis
      using that WriteConfig_success [of f h r "Meta (w_lb s)" d "sha256_hex d" m "w_fs s"]
      by (auto simp: synced_def hash_after_write readable_def prod_eq_iff)
  qed
  show "synced r g e s' = synced r g e s"
    if "readable h r f" "readable h r g" "g \<noteq> f" "CompareAndWrite h r f m d s = (out, s')" for g e out s'
    using reg
  proof (cases rule: CompareAndWrite_cases [where h = h and f = f and d = d and m = m])
    case unchanged
    then show ?thesis using that by simp
  next
    case (written ns)
    then show ?thesis
      using that WriteConfig_other(1) [of f g r] by (auto simp: synced_def hash_after_write readable_def)
  qed
qed

lemma stored_unique: "stored r f txt fs \<Longrightarrow> stored r f txt' fs \<Longrightarrow> txt = txt'"
  by (auto simp: stored_def)

lemma truthful_fits: "truthful r f w \<Longrightarrow> hash_fits r f d w"
  unfolding truthful_def hash_fits_def synced_def holds_data_def by blast

lemma CompareAndWrite_content:
  assumes "registered r w" "readable h r f" "hash_fits r f d w"
    and "CompareAndWrite h r f mode d w = (Ret (c, None), w')"
  shows "truthful r f w' \<and> holds_data r f d w'"
proof -
  have "synced r f d w'"
    using store.put_sync [OF assms(1,2,4)] .
  moreover have "holds_data r f d w'"
    using assms(1)
  proof (cases rule: CompareAndWrite_cases [where h = h and f = f and d = d and m = mode])
    case unchanged
    then show ?thesis using calculation assms(3,4) by (simp add: hash_fits_def)
  next
    case (written ns)
    have "f \<in> set managed_files"
      using assms(2) by (simp add: readable_def)
    then have "stored r f (final_text f (Meta (w_lb w)) d) (w_fs w')"
      using written assms(4) WriteConfig_success by (auto simp: prod_eq_iff)
    then show ?thesis by (auto simp: holds_data_def)
  qed
  ultimately show ?thesis
    unfolding truthful_def synced_def holds_data_def by (metis option.inject stored_unique)
qed

text \<open>What the notions of this theory read of the file system.\<close>

lemma content_frame:
  assumes "\<And>txt. stored r g txt (w_fs w') = stored r g txt (w_fs w)" "hash_in_status r g w' = hash_in_status r g w"
  shows "truthful r g w' = truthful r g w" "hash_fits r g e w' = hash_fits r g e w" "holds_data r g e w' = holds_data r g e w"
  using assms by (simp_all add: truthful_def hash_fits_def synced_def holds_data_def)

text \<open>A put leaves every other managed file and its recorded hash alone.\<close>

lemma CompareAndWrite_other:
  assumes "registered r w" "f \<in> set managed_files" "g \<in> set managed_files" "g \<noteq> f"
    and "CompareAndWrite h r f m d w = (out, w')"
  shows "stored r g txt (w_fs w') = stored r g txt (w_fs w)" "hash_in_status r g w' = hash_in_status r g w"
proof -
  have "stored r g txt (w_fs w') = stored r g txt (w_fs w) \<and> hash_in_status r g w' = hash_in_status r g w"
    using assms(1)
  proof (cases rule: CompareAndWrite_cases [where h = h and f = f and d = d and m = m])
    case (written ns)
    then show ?thesis
      using assms WriteConfig_other(1) [of f g r] by (auto simp: hash_after_write)
  qed (use assms(5) in simp)
  then show "stored r g txt (w_fs w') = stored r g txt (w_fs w)" "hash_in_status r g w' = hash_in_status r g w"
    by simp_all
qed

interpretation content: content_store "CompareAndWrite h r" "readable h r" "registered r" "synced r"
  "truthful r" "hash_fits r" "holds_data r" for h r
proof
  fix s f d
  show "hash_fits r f d s" if "truthful r f s"
    using that by (rule truthful_fits)
  fix m
  assume reg: "registered r s" and rd: "readable h r f"
  show "truthful r f s' \<and> holds_data r f d s'"
    if "hash_fits r f d s" "CompareAndWrite h r f m d s = (Ret (c, None), s')" for c s'
    using CompareAndWrite_content [OF reg rd that] .
  show "truthful r g s' = truthful r g s \<and> hash_fits r g e s' = hash_fits r g e s \<and> holds_data r g e s' = holds_data r g e s"
    if "readable h r g" "g \<noteq> f" "CompareAndWrite h r f m d s = (out, s')" for g e out s'
    using content_frame [OF CompareAndWrite_other [OF reg _ _ that(2,3)]] rd that(1) by (simp add: readable_def)
qed

section \<open>Properties\<close>

text \<open>
  \<^verbatim>\<open>CompareAndWrite\<close> is idempotent and leaves nothing else behind: after a call that succeeded,
  the same call reports no change and leaves the whole state as it is; a call never touches the
  specification or the metadata of the resource, nor the status of another host.
\<close>

theorem compare_and_write_idempotent:
  assumes "registered r w" "readable h r f" "CompareAndWrite h r f mode d w = (Ret (c, None), w')"
  shows "CompareAndWrite h r f mode d w' = (Ret (False, None), w') \<and>
    Spec (w_lb w') = Spec (w_lb w) \<and> Meta (w_lb w') = Meta (w_lb w) \<and>
    (\<forall>h'. h' \<noteq> Hostname r \<longrightarrow> node_ptr (w_lb w') h' = node_ptr (w_lb w) h')"
  using store.put_twice [OF assms] CompareAndWrite_frame [OF assms(3)] by simp

text \<open>
  C9: A successful \<^verbatim>\<open>CompareAndWrite\<close> makes the disk right. If the recorded hash was truthful
  before, then afterwards it still is, and the file on disk is header, stamp and data with the
  digest of the data that was asked for (the very data, unless two different texts share a
  SHA-256 digest).
\<close>

theorem compare_and_write_content:
  assumes "registered r w" "readable h r f" "truthful r f w"
    and "CompareAndWrite h r f mode d w = (Ret (c, None), w')"
  shows "truthful r f w' \<and>
    (\<exists>m d'. stored r f (final_text f m d') (w_fs w') \<and> sha256_hex d' = sha256_hex d)"
  using content.put_holds [OF assms] by (simp add: holds_data_def)

text \<open>
  C32: A failed write can be lost for good. When the file cannot be opened for writing although it can
  be read (a file system that is mounted read-only for a while), the call fails and leaves the old
  file on disk, but the new hash is already recorded; once the file system is writable again, the
  same call reports that nothing has to be done, and the old file stays.
\<close>

theorem failed_write_is_lost:
  assumes "registered r w" "readable h r f" "healthy h' r f" "stored r f txt (w_fs w)"
    and "hash_in_status r f w \<noteq> Some (sha256_hex d)"
    and "io_fault h (OpenFile (configfilePath r f)) = Some n"
  shows "\<exists>e w1. CompareAndWrite h r f mode d w = (Ret (True, Some e), w1) \<and>
    CompareAndWrite h' r f mode d w1 = (Ret (False, None), w1) \<and> stored r f txt (w_fs w1)"
proof -
  obtain ns where ns: "node_ptr (w_lb w) (Hostname r) = Some ns"
    using assms(1) by (auto simp: registered_def)
  define e where "e = Wrapf ''failed to create or open config file'' (Errorf ''open failed'')"
  have f: "f \<in> set managed_files"
    using assms(2) by (simp add: readable_def)
  then have rd: "readable h' r f"
    using assms(3) by (simp add: readable_def healthy_def)
  have "w_fs w (configfilePath r f) \<noteq> None"
    using assms(4) by (auto simp: stored_def)
  then have "WriteConfig h r (Meta (w_lb w)) f d (sha256_hex d) mode (w_fs w) = (Some e, w_fs w)"
    using assms(6) by (simp add: WriteConfig_def RenderFinalConfig_final_text [OF f] os_MkdirAll_def os_OpenFile_def e_def Let_def)
  then have "CompareAndWrite h r f mode d w = (Ret (True, Some e),
      w\<lparr>w_lb := set_node (Hostname r) (record_hash f (sha256_hex d) ns) (w_lb w), w_fs := w_fs w\<rparr>)"
    using CompareAndWrite_write [OF ns, of h f d mode] assms(5) by simp
  moreover have "synced r f d
      (w\<lparr>w_lb := set_node (Hostname r) (record_hash f (sha256_hex d) ns) (w_lb w), w_fs := w_fs w\<rparr>)"
    using assms(4) by (auto simp: synced_def hash_after_write [OF ns])
  ultimately show ?thesis
    using store.put_same [of r _ h' f d mode] store.put_ready [OF assms(1), of h f mode d] rd assms(4)
    by auto
qed

section \<open>Witnesses\<close>

text \<open>A registered host whose sysctl file is on disk with its digest.\<close>

definition sample_world :: world where
  "sample_world =
     \<lparr>w_fs = [''/etc/sysctl.d/50-lb.conf'' \<mapsto> \<lparr>Content = ''old'', Perm = 420\<rparr>,
              ''/etc/sysctl.d/50-lb.conf.sha256'' \<mapsto> \<lparr>Content = sha256_hex ''old'', Perm = 420\<rparr>],
      w_lb = sample_lbconfig\<lparr>Status := \<lparr>Nodes = Some [''lb1'' \<mapsto> Some zeroNodeStatus], Conditions = []\<rparr>\<rparr>,
      w_cmds = [], w_updates = []\<rparr>"

lemma sample_paths:
  "configfilePath sample_reconciler SysctlConfFile = ''/etc/sysctl.d/50-lb.conf''"
  "digestfilePath sample_reconciler SysctlConfFile = ''/etc/sysctl.d/50-lb.conf.sha256''"
  by code_simp+

lemma sample_world_facts:
  "registered sample_reconciler sample_world"
  "stored sample_reconciler SysctlConfFile ''old'' (w_fs sample_world)"
  "hash_in_status sample_reconciler SysctlConfFile sample_world = None"
  by (simp_all add: registered_def sample_world_def sample_reconciler_def node_ptr_def hash_in_status_def
      zeroNodeStatus_def stored_def sample_paths [unfolded sample_reconciler_def])

text \<open>A host whose file system is read-only: no file can be opened for writing.\<close>

definition readonly_host :: host where
  "readonly_host = sample_host\<lparr>io_fault := \<lambda>op1. case op1 of OpenFile _ \<Rightarrow> Some 0 | _ \<Rightarrow> None\<rparr>"

lemma sample_host_readable: "f \<in> set managed_files \<Longrightarrow> readable sample_host sample_reconciler f"
  by (simp add: readable_def sample_host_def)

lemma sample_healthy: "healthy sample_host sample_reconciler f"
  by (simp add: healthy_def sample_host_def)

lemma sample_CompareAndWrite:
  "\<exists>w'. CompareAndWrite sample_host sample_reconciler SysctlConfFile 420 ''new'' sample_world = (Ret (True, None), w')"
proof -
  obtain ns where "node_ptr (w_lb sample_world) (Hostname sample_reconciler) = Some ns"
    using sample_world_facts(1) by (auto simp: registered_def)
  then show ?thesis
    using CompareAndWrite_write [of sample_world sample_reconciler ns sample_host SysctlConfFile "''new''" 420]
    by (simp add: sample_world_facts WriteConfig_healthy sample_healthy managed_files_def)
qed

theorem compare_and_write_idempotent_witness:
  "\<exists>w'. CompareAndWrite sample_host sample_reconciler SysctlConfFile 420 ''new'' sample_world = (Ret (True, None), w') \<and>
     CompareAndWrite sample_host sample_reconciler SysctlConfFile 420 ''new'' w' = (Ret (False, None), w')"
  using sample_CompareAndWrite
    compare_and_write_idempotent [OF sample_world_facts(1) sample_host_readable, of SysctlConfFile 420 "''new''" True]
  by (auto simp: managed_files_def)

theorem compare_and_write_content_witness:
  "\<exists>w' m d'. CompareAndWrite sample_host sample_reconciler SysctlConfFile 420 ''new'' sample_world = (Ret (True, None), w') \<and>
     stored sample_reconciler SysctlConfFile (final_text SysctlConfFile m d') (w_fs w') \<and>
     sha256_hex d' = sha256_hex ''new''"
proof -
  have "truthful sample_reconciler SysctlConfFile sample_world"
    by (simp add: truthful_def sample_world_facts)
  then show ?thesis
    using sample_CompareAndWrite
      compare_and_write_content [OF sample_world_facts(1) sample_host_readable, of SysctlConfFile 420 "''new''" True]
    by (fastforce simp: managed_files_def)
qed

theorem failed_write_is_lost_witness:
  "\<exists>e w1. CompareAndWrite readonly_host sample_reconciler SysctlConfFile 420 ''new'' sample_world = (Ret (True, Some e), w1) \<and>
     CompareAndWrite sample_host sample_reconciler SysctlConfFile 420 ''new'' w1 = (Ret (False, None), w1) \<and>
     stored sample_reconciler SysctlConfFile ''old'' (w_fs w1)"
proof -
  have "readable readonly_host sample_reconciler SysctlConfFile"
    "io_fault readonly_host (OpenFile (configfilePath sample_reconciler SysctlConfFile)) = Some 0"
    by (simp_all add: readable_def readonly_host_def managed_files_def)
  then show ?thesis
    using failed_write_is_lost [OF sample_world_facts(1) _ sample_healthy sample_world_facts(2), of readonly_host "''new''" 0 420]
    by (simp add: sample_world_facts)
qed

end
