(* ===== verification/Service.thy ===== *)
theory Service
  imports Samples
begin

text \<open>
  \<^verbatim>\<open>internal/controller/service.go\<close>: the services of a node and the commands that reload them. A
  \<^verbatim>\<open>NodeService\<close> is a Go string type, so there are values without a command.
\<close>

section \<open>Definitions\<close>

type_synonym NodeService = string

definition HAProxy :: NodeService where
  "HAProxy = ''haproxy''"

definition Keepalived :: NodeService where
  "Keepalived = ''keepalived''"

definition Conntrackd :: NodeService where
  "Conntrackd = ''conntrackd''"

definition NetworkManager :: NodeService where
  "NetworkManager = ''networkmanager''"

definition Sysctl :: NodeService where
  "Sysctl = ''sysctl''"

definition Firewalld :: NodeService where
  "Firewalld = ''firewalld''"

lemmas service_defs [simp] =
  HAProxy_def Keepalived_def Conntrackd_def NetworkManager_def Sysctl_def Firewalld_def

definition ReloadCommand :: "NodeService \<Rightarrow> string result" where
  "ReloadCommand s =
     (if s = HAProxy then Inr ''systemctl reload haproxy''
      else if s = Keepalived then Inr ''systemctl reload keepalived''
      else if s = Conntrackd then Inr ''systemctl restart conntrackd''
      else if s = NetworkManager then Inr ''nmcli connection reload''
      else if s = Sysctl then Inr ''sysctl --system''
      else if s = Firewalld then Inr ''firewall-cmd --reload''
      else Inl (Errorf (''missing reload/restart command for '' @ s)))"

text \<open>\<^verbatim>\<open>Reload\<close>: the error, and the commands that were run (as their argument vectors).\<close>

definition Reload :: "host \<Rightarrow> NodeService \<Rightarrow> error option \<times> string list list" where
  "Reload h s =
     (case ReloadCommand s of
        Inl err \<Rightarrow> (Some err, [])
      | Inr commandString \<Rightarrow>
         (let command = split_on CHR '' '' commandString in
          case exec_Run h command of
            Some err \<Rightarrow> (Some (Wrapf (''restart/reload of '' @ s @ '' failed'') err), [command])
          | None \<Rightarrow> (None, [command])))"

section \<open>Specifications\<close>

definition node_services :: "NodeService list" where
  "node_services = [HAProxy, Keepalived, Conntrackd, NetworkManager, Sysctl, Firewalld]"

definition reload_argv :: "NodeService \<Rightarrow> string list" where
  "reload_argv s = (case ReloadCommand s of Inl _ \<Rightarrow> [] | Inr c \<Rightarrow> split_on CHR '' '' c)"

section \<open>Lemmas\<close>

lemma ReloadCommand_known:
  assumes "s \<in> set node_services"
  shows "\<exists>c. ReloadCommand s = Inr c"
  using assms by (auto simp: node_services_def ReloadCommand_def)

lemma Reload_known:
  assumes "s \<in> set node_services"
  shows "snd (Reload h s) = [reload_argv s]"
    "fst (Reload h s) = None \<longleftrightarrow> exec_Run h (reload_argv s) = None"
  using ReloadCommand_known [OF assms] by (auto simp: Reload_def reload_argv_def Let_def split: option.splits)

lemma reload_argv_distinct: "distinct (map reload_argv node_services)"
  by code_simp

end
