(* ===== verification/Reconciler.thy ===== *)
theory Reconciler
  imports Keepalived NetManager Firewalld Haproxy ConfigStore Service
begin

text \<open>
  \<^verbatim>\<open>internal/controller/loadbalancerconfig_controller.go\<close>: \<^verbatim>\<open>InitializeNodeStatus\<close>,
  \<^verbatim>\<open>RenderConfig\<close>, \<^verbatim>\<open>ReconcileLBConfig\<close> and \<^verbatim>\<open>Reconcile\<close>. The Go map \<^verbatim>\<open>updated\<close> is the list of
  its distinct keys; the order in which \<^verbatim>\<open>maps.Keys\<close> visits them is a parameter of
  \<open>Reconcile\<close>.
\<close>

section \<open>Definitions\<close>

text \<open>
  The early initialisation only happens when the map of nodes is nil. The assignments at the end go
  through the pointer \<^verbatim>\<open>lbconfig.Status.Nodes[r.Hostname]\<close>, which is nil when the map has no entry
  for this host.
\<close>

definition init_nodes :: "LoadBalancerConfigReconciler \<Rightarrow> LoadBalancerConfig \<Rightarrow> LoadBalancerConfig" where
  "init_nodes r c =
     (if Nodes (Status c) = None
      then c\<lparr>Status := Status c\<lparr>Nodes := Some [Hostname r \<mapsto> Some zeroNodeStatus]\<rparr>\<rparr> else c)"

definition InitializeNodeStatus ::
  "ext \<Rightarrow> host \<Rightarrow> LoadBalancerConfigReconciler \<Rightarrow> (world, error option) run" where
  "InitializeNodeStatus x h r = (\<lambda>w0.
     let w = w0\<lparr>w_lb := init_nodes r (w_lb w0)\<rparr> in
     case internalIPs r of
       Inl e \<Rightarrow> (Ret (Some (Wrapf ''failed to compute internal IPs'' e)), w)
     | Inr ips \<Rightarrow>
     case primaryIPAddressForInterface h (PublicInterface r) None of
       Inl e \<Rightarrow> (Ret (Some (Wrapf ''failed to determine primary IP for public interface'' e)), w)
     | Inr publicIP \<Rightarrow>
     case ClusterNetworkInterface x r of
       Inl e \<Rightarrow> (Ret (Some (Wrapf ''failed to find cluster network interface'' e)), w)
     | Inr clusterIface \<Rightarrow>
     case primaryIPAddressForInterface h clusterIface (Some (ClusterNetwork r)) of
       Inl e \<Rightarrow> (Ret (Some (Wrapf ''failed to determine primary IP for cluster network interface'' e)), w)
     | Inr privateIP \<Rightarrow>
     case node_ptr (w_lb w) (Hostname r) of
       None \<Rightarrow> (Panic (NilDereference ''Status.Nodes[hostname]''), w)
     | Some ns \<Rightarrow>
         (Ret None,
          w\<lparr>w_lb := set_node (Hostname r)
              (ns\<lparr>NodeStatus := NodeStatusConfiguring, PublicIP := publicIP, PrivateIP := privateIP,
                  VrrpIP := myInternalIP ips (IsPrimary (Keepalived_Config r))\<rparr>) (w_lb w)\<rparr>))"

definition RenderConfig ::
  "host \<Rightarrow> LoadBalancerConfigReconciler \<Rightarrow> (LoadBalancerConfig \<Rightarrow> string result outcome) \<Rightarrow> string \<Rightarrow> 12 word \<Rightarrow>
     (world, bool \<times> error option) run" where
  "RenderConfig h r renderFunc configFile mode = (\<lambda>w.
     case renderFunc (w_lb w) of
       Panic p \<Rightarrow> (Panic p, w)
     | Ret (Inl err) \<Rightarrow> (Ret (False, Some err), w)
     | Ret (Inr config) \<Rightarrow> CompareAndWrite h r configFile mode config w)"

text \<open>
  What the code does with the result of a file: an error is collected, a change marks the service.
  The blocks of the HAProxy and Floaty files, which spell out the call of \<^verbatim>\<open>CompareAndWrite\<close> because
  their renderers take more arguments, do the same steps.
\<close>

type_synonym acc = "NodeService list \<times> error list"

definition record_result :: "NodeService \<Rightarrow> bool \<times> error option \<Rightarrow> acc \<Rightarrow> acc" where
  "record_result svc res acc =
     (let (updated, errors) = acc in
      case snd res of
        Some err \<Rightarrow> (updated, errors @ [err])
      | None \<Rightarrow> if fst res then (add_key svc updated, errors) else (updated, errors))"

text \<open>One block of \<^verbatim>\<open>ReconcileLBConfig\<close>: service, file, mode and renderer.\<close>

type_synonym stage = "NodeService \<times> string \<times> 12 word \<times> (LoadBalancerConfig \<Rightarrow> string result outcome)"

definition run_stage ::
  "host \<Rightarrow> LoadBalancerConfigReconciler \<Rightarrow> stage \<Rightarrow> acc \<Rightarrow> (world, acc) run" where
  "run_stage h r s acc =
     (let (svc, file, mode, renderFunc) = s in
      run_bind (RenderConfig h r renderFunc file mode) (\<lambda>res. run_return (record_result svc res acc)))"

primrec run_stages ::
  "host \<Rightarrow> LoadBalancerConfigReconciler \<Rightarrow> stage list \<Rightarrow> acc \<Rightarrow> (world, acc) run" where
  "run_stages h r [] acc = run_return acc"
| "run_stages h r (s # ss) acc = run_bind (run_stage h r s acc) (run_stages h r ss)"

definition lb_stages ::
  "ext \<Rightarrow> host \<Rightarrow> LoadBalancerConfigReconciler \<Rightarrow> Secret \<Rightarrow> LocalBackendConfiguration option \<Rightarrow> stage list" where
  "lb_stages x h r credentialSecret localBackends =
     [(HAProxy, HAProxyAPIConfigFile, 420, \<lambda>c. Ret (RenderHAProxyAPIConfig x c localBackends)),
      (HAProxy, HAProxyIngressConfigFile, 420, \<lambda>c. RenderHAProxyIngressConfig x c localBackends),
      (Service.Keepalived, KeepalivedConfigFile, 420, \<lambda>c. Ret (RenderKeepalivedConfig x r c)),
      (Service.Keepalived, FloatyConfigFile, 420, \<lambda>c. Ret (RenderFloatyConfig x c credentialSecret)),
      (Conntrackd, ConntrackdConfigFile, 420, \<lambda>c. Ret (RenderConntrackdConfig x r c)),
      (NetworkManager, PublicNMConnectionFile, 384, \<lambda>c. Ret (RenderPublicNMConnection h r c)),
      (NetworkManager, ClusterNetworkNMConnectionFile, 384, \<lambda>c. Ret (RenderClusterNetNMConnection x h r c)),
      (NetworkManager, KeepalivedDummyNMConnectionFile, 384, \<lambda>c. Ret (RenderKeepalivedDummyNMConnection x c)),
      (Sysctl, SysctlConfFile, 420, \<lambda>c. Ret (RenderSysctlConf r c)),
      (Service.Firewalld, FirewalldExternalZone, 420, \<lambda>c. Ret (RenderFirewallExternalZone x c)),
      (Service.Firewalld, FirewalldDirectFile, 420, \<lambda>c. RenderFirewallDirectRules r c)]"

definition ReconcileLBConfig ::
  "ext \<Rightarrow> host \<Rightarrow> LoadBalancerConfigReconciler \<Rightarrow> Secret \<Rightarrow> LocalBackendConfiguration option \<Rightarrow>
     (world, NodeService list \<times> error option) run" where
  "ReconcileLBConfig x h r credentialSecret localBackends =
     run_bind (InitializeNodeStatus x h r) (\<lambda>err.
       case err of
         Some e \<Rightarrow> run_return ([], Some (Wrapf ''failed to initialize node status'' e))
       | None \<Rightarrow>
           run_bind (run_stages h r (lb_stages x h r credentialSecret localBackends) ([], []))
             (\<lambda>(updated, errors). run_return (updated, multierr_Combine x (map Some errors))))"

text \<open>
  The loop over the changed services. With a configuration root other than the root directory the
  command is only logged; otherwise it is run and a failure is added to the errors.
\<close>

fun reload_loop ::
  "host \<Rightarrow> LoadBalancerConfigReconciler \<Rightarrow> NodeService list \<Rightarrow> error list \<Rightarrow> string list list \<Rightarrow>
     error list \<times> string list list" where
  "reload_loop h r [] errors cmds = (errors, cmds)"
| "reload_loop h r (component # cs) errors cmds =
     (if ConfigRoot r \<noteq> ''/'' then reload_loop h r cs errors cmds
      else (let (err, run) = Reload h component in
        reload_loop h r cs (case err of Some e \<Rightarrow> errors @ [e] | None \<Rightarrow> errors) (cmds @ run)))"

definition Reconcile ::
  "ext \<Rightarrow> host \<Rightarrow> (NodeService list \<Rightarrow> NodeService list) \<Rightarrow> LoadBalancerConfigReconciler \<Rightarrow> NamespacedName \<Rightarrow>
     (world, error option) run" where
  "Reconcile x h keys r req = (\<lambda>w.
     case client_GetLB x req of
       Inl err \<Rightarrow> (Ret (client_IgnoreNotFound x err), w)
     | Inr lbconfig \<Rightarrow>
     case client_GetSecret x (Namespace (Meta lbconfig), CloudCredentials (Spec lbconfig)) of
       Inl err \<Rightarrow> (Ret (Some (Wrapf ''failed to read cloud provider credentials'' err)), w\<lparr>w_lb := lbconfig\<rparr>)
     | Inr credentialSecret \<Rightarrow>
     case ReconcileLBConfig x h r credentialSecret None (w\<lparr>w_lb := lbconfig\<rparr>) of
       (Panic p, w1) \<Rightarrow> (Panic p, w1)
     | (Ret (updated, err), w1) \<Rightarrow>
        (let errors = (case err of Some e \<Rightarrow> [e] | None \<Rightarrow> []);
             (errors', cmds) = reload_loop h r (keys updated) errors (w_cmds w1);
             w2 = w1\<lparr>w_cmds := cmds\<rparr> in
         case node_ptr (w_lb w2) (Hostname r) of
           None \<Rightarrow> (Panic (NilDereference ''Status.Nodes[hostname]''), w2)
         | Some ns \<Rightarrow>
            (let lb' = set_node (Hostname r)
                   (ns\<lparr>NodeStatus := (if errors' = [] then NodeStatusReady else NodeStatusFailed)\<rparr>) (w_lb w2);
                 statuserr = client_StatusUpdate x lb' in
             (Ret (multierr_Combine x [err, statuserr]),
              w2\<lparr>w_lb := lb', w_updates := w_updates w2 @ [lb']\<rparr>))))"

section \<open>Specifications\<close>

abbreviation stage_svc :: "stage \<Rightarrow> NodeService" where
  "stage_svc s \<equiv> fst s"

abbreviation stage_file :: "stage \<Rightarrow> string" where
  "stage_file s \<equiv> fst (snd s)"

abbreviation stage_mode :: "stage \<Rightarrow> 12 word" where
  "stage_mode s \<equiv> fst (snd (snd s))"

abbreviation stage_render :: "stage \<Rightarrow> LoadBalancerConfig \<Rightarrow> string result outcome" where
  "stage_render s \<equiv> snd (snd (snd s))"

text \<open>The text a stage renders, and what it puts into the file store.\<close>

definition rendered :: "stage \<Rightarrow> LoadBalancerConfig \<Rightarrow> string option" where
  "rendered s c = (case stage_render s c of Ret (Inr d) \<Rightarrow> Some d | _ \<Rightarrow> None)"

definition item :: "LoadBalancerConfig \<Rightarrow> stage \<Rightarrow> string \<times> 12 word \<times> string" where
  "item c s = (stage_file s, stage_mode s, the (rendered s c))"

text \<open>The renderers read nothing but the specification of the resource.\<close>

definition spec_only :: "stage list \<Rightarrow> bool" where
  "spec_only ss = (\<forall>s \<in> set ss. \<forall>c c'. Spec c = Spec c' \<longrightarrow> stage_render s c = stage_render s c')"

section \<open>Lemmas: stages\<close>

lemma spec_only_Cons [simp]:
  "spec_only (s # ss) \<longleftrightarrow> (\<forall>c c'. Spec c = Spec c' \<longrightarrow> stage_render s c = stage_render s c') \<and> spec_only ss"
  by (auto simp: spec_only_def)

lemma spec_onlyD: "spec_only ss \<Longrightarrow> s \<in> set ss \<Longrightarrow> Spec c = Spec c' \<Longrightarrow> rendered s c = rendered s c'"
proof -
  assume "spec_only ss" "s \<in> set ss" "Spec c = Spec c'"
  then have "stage_render s c = stage_render s c'"
    unfolding spec_only_def by blast
  then show ?thesis by (simp add: rendered_def)
qed

lemma item_spec: "spec_only ss \<Longrightarrow> Spec c = Spec c' \<Longrightarrow> map (item c) ss = map (item c') ss"
  unfolding item_def by (rule map_cong [OF refl]) (metis spec_onlyD)

lemma spec_only_lb_stages: "spec_only (lb_stages x h r sec loc)"
  unfolding spec_only_def
proof (intro ballI allI impI)
  fix s and c c' :: LoadBalancerConfig
  assume s: "s \<in> set (lb_stages x h r sec loc)" and e: "Spec c = Spec c'"
  have "RenderHAProxyAPIConfig x c loc = RenderHAProxyAPIConfig x c' loc"
    "RenderHAProxyIngressConfig x c loc = RenderHAProxyIngressConfig x c' loc"
    "RenderKeepalivedConfig x r c = RenderKeepalivedConfig x r c'"
    "RenderFloatyConfig x c sec = RenderFloatyConfig x c' sec"
    "RenderConntrackdConfig x r c = RenderConntrackdConfig x r c'"
    "RenderPublicNMConnection h r c = RenderPublicNMConnection h r c'"
    "RenderClusterNetNMConnection x h r c = RenderClusterNetNMConnection x h r c'"
    "RenderKeepalivedDummyNMConnection x c = RenderKeepalivedDummyNMConnection x c'"
    "RenderSysctlConf r c = RenderSysctlConf r c'"
    "RenderFirewallExternalZone x c = RenderFirewallExternalZone x c'"
    "RenderFirewallDirectRules r c = RenderFirewallDirectRules r c'"
    unfolding RenderHAProxyAPIConfig_def RenderHAProxyIngressConfig_def haproxyTemplateData_def
      RenderKeepalivedConfig_def gateway_vips_def RenderFloatyConfig_def RenderConntrackdConfig_def
      RenderPublicNMConnection_def RenderClusterNetNMConnection_def RenderKeepalivedDummyNMConnection_def
      RenderSysctlConf_def RenderFirewallExternalZone_def RenderFirewallDirectRules_def e
    by (rule refl)+
  then show "stage_render s c = stage_render s c'"
    using s unfolding lb_stages_def by (auto simp del: service_defs)
qed

lemma lb_stages_files: "map stage_file (lb_stages x h r sec loc) = managed_files"
  by (simp add: lb_stages_def managed_files_def)

lemma RenderConfig_frame:
  assumes "RenderConfig h r f cfg mode w = (out, w')"
  shows "Spec (w_lb w') = Spec (w_lb w)" "Meta (w_lb w') = Meta (w_lb w)"
    "w_cmds w' = w_cmds w" "w_updates w' = w_updates w"
    "h' \<noteq> Hostname r \<Longrightarrow> node_ptr (w_lb w') h' = node_ptr (w_lb w) h'"
    "registered r w \<Longrightarrow> registered r w'"
proof -
  consider (same) "w' = w" | (caw) d where "CompareAndWrite h r cfg mode d w = (out, w')"
    using assms by (auto simp: RenderConfig_def split: outcome.splits sum.splits)
  note cases = this
  have "Spec (w_lb w') = Spec (w_lb w) \<and> Meta (w_lb w') = Meta (w_lb w) \<and>
    w_cmds w' = w_cmds w \<and> w_updates w' = w_updates w"
    using cases by cases (simp_all add: CompareAndWrite_frame)
  then show "Spec (w_lb w') = Spec (w_lb w)" "Meta (w_lb w') = Meta (w_lb w)"
    "w_cmds w' = w_cmds w" "w_updates w' = w_updates w"
    by simp_all
  show "node_ptr (w_lb w') h' = node_ptr (w_lb w) h'" if "h' \<noteq> Hostname r"
    using cases that by cases (simp_all add: CompareAndWrite_frame(5))
  show "registered r w'" if "registered r w"
    using cases
  proof cases
    case (caw d)
    then show ?thesis using store.put_ready [OF that, of h cfg mode d] by auto
  qed (use that in simp)
qed

lemma run_stage_cases:
  assumes "run_stage h r s acc w = (out, w')"
  obtains p where "out = Panic p" "RenderConfig h r (stage_render s) (stage_file s) (stage_mode s) w = (Panic p, w')"
  | res where "out = Ret (record_result (stage_svc s) res acc)"
      "RenderConfig h r (stage_render s) (stage_file s) (stage_mode s) w = (Ret res, w')"
  using assms
  by (auto simp: run_stage_def run_defs split: prod.splits outcome.splits)

lemma run_stages_frame:
  assumes "run_stages h r ss acc w = (out, w')"
  shows "Spec (w_lb w') = Spec (w_lb w) \<and> Meta (w_lb w') = Meta (w_lb w) \<and>
    w_cmds w' = w_cmds w \<and> w_updates w' = w_updates w \<and>
    (\<forall>h'. h' \<noteq> Hostname r \<longrightarrow> node_ptr (w_lb w') h' = node_ptr (w_lb w) h') \<and>
    (registered r w \<longrightarrow> registered r w')"
  using assms
proof (induction ss arbitrary: acc w)
  case Nil
  then show ?case by (simp add: run_defs)
next
  case (Cons s ss)
  obtain o1 w1 where s: "run_stage h r s acc w = (o1, w1)" by fastforce
  have fr: "Spec (w_lb w1) = Spec (w_lb w) \<and> Meta (w_lb w1) = Meta (w_lb w) \<and>
    w_cmds w1 = w_cmds w \<and> w_updates w1 = w_updates w \<and>
    (\<forall>h'. h' \<noteq> Hostname r \<longrightarrow> node_ptr (w_lb w1) h' = node_ptr (w_lb w) h') \<and>
    (registered r w \<longrightarrow> registered r w1)"
    using s by (rule run_stage_cases) (auto dest: RenderConfig_frame)
  show ?case
  proof (cases o1)
    case (Ret a)
    then show ?thesis using Cons.IH [of a w1] Cons.prems s fr by (simp add: run_defs)
  next
    case (Panic p)
    then show ?thesis using Cons.prems s fr by (simp add: run_defs)
  qed
qed

text \<open>The errors only grow, and a run without new errors has rendered every file.\<close>

lemma record_result_errors:
  "snd (record_result svc res acc) = snd acc @ (case snd res of None \<Rightarrow> [] | Some e \<Rightarrow> [e])"
  by (cases acc) (auto simp: record_result_def split: option.split)

lemma run_stages_errors:
  assumes "run_stages h r ss acc w = (Ret acc', w')"
  shows "\<exists>es. snd acc' = snd acc @ es"
  using assms
proof (induction ss arbitrary: acc w)
  case Nil
  then show ?case by (simp add: run_defs)
next
  case (Cons s ss)
  obtain o1 w1 where s: "run_stage h r s acc w = (o1, w1)" by fastforce
  then obtain a where a: "o1 = Ret a" "run_stages h r ss a w1 = (Ret acc', w')"
    using Cons.prems by (cases o1) (auto simp: run_defs)
  obtain es where "snd acc' = snd a @ es"
    using Cons.IH [OF a(2)] by blast
  moreover have "\<exists>es. snd a = snd acc @ es"
    using s by (rule run_stage_cases) (auto simp: a record_result_errors)
  ultimately show ?case by auto
qed

lemma RenderConfig_rendered:
  assumes "rendered s (w_lb w) = Some d"
  shows "RenderConfig h r (stage_render s) (stage_file s) (stage_mode s) w =
    CompareAndWrite h r (stage_file s) (stage_mode s) d w"
  using assms by (auto simp: RenderConfig_def rendered_def split: outcome.splits sum.splits)

lemma RenderConfig_no_error:
  assumes "RenderConfig h r (stage_render s) (stage_file s) (stage_mode s) w = (Ret (c, None), w')"
  shows "\<exists>d. rendered s (w_lb w) = Some d"
  using assms by (auto simp: RenderConfig_def rendered_def split: outcome.splits sum.splits)

lemma run_stages_rendered:
  assumes "run_stages h r ss acc w = (Ret acc', w')" "snd acc' = snd acc" "spec_only ss"
  shows "\<forall>s \<in> set ss. \<exists>d. rendered s (w_lb w) = Some d"
  using assms
proof (induction ss arbitrary: acc w)
  case Nil
  then show ?case by simp
next
  case (Cons s ss)
  obtain o1 w1 where s: "run_stage h r s acc w = (o1, w1)" by fastforce
  then obtain a where a: "o1 = Ret a" "run_stages h r ss a w1 = (Ret acc', w')"
    using Cons.prems by (cases o1) (auto simp: run_defs)
  obtain res where res: "a = record_result (stage_svc s) res acc"
    "RenderConfig h r (stage_render s) (stage_file s) (stage_mode s) w = (Ret res, w1)"
    using s by (rule run_stage_cases) (auto simp: a)
  have none: "snd res = None" "snd acc' = snd a"
    using run_stages_errors [OF a(2)] Cons.prems(2) by (auto simp: res record_result_errors split: option.splits)
  have "\<exists>d. rendered s (w_lb w) = Some d"
    using res(2) none(1) RenderConfig_no_error [of h r s w "fst res" w1] by (cases res) auto
  moreover have "rendered t (w_lb w1) = rendered t (w_lb w)" if "t \<in> set ss" for t
    using that Cons.prems(3) RenderConfig_frame(1) [OF res(2)] by (auto intro: spec_onlyD)
  ultimately show ?case
    using Cons.IH [OF a(2) none(2)] Cons.prems(3) by simp
qed

text \<open>When every file renders, the stages are one sequence of puts into the file store.\<close>

definition record_all :: "stage list \<Rightarrow> (bool \<times> error option) list \<Rightarrow> acc \<Rightarrow> acc" where
  "record_all ss rs acc = foldl (\<lambda>a (s, res). record_result (stage_svc s) res a) acc (zip ss rs)"

lemma run_stages_put_all:
  assumes "registered r w" "spec_only ss" "\<forall>s \<in> set ss. \<exists>d. rendered s (w_lb w) = Some d"
    "put_all (CompareAndWrite h r) (map (item (w_lb w)) ss) w = (rs, w')"
  shows "run_stages h r ss acc w = (Ret (record_all ss rs acc), w')"
  using assms
proof (induction ss arbitrary: acc w rs)
  case Nil
  then show ?case by (simp add: run_defs record_all_def)
next
  case (Cons s ss)
  obtain d where d: "rendered s (w_lb w) = Some d"
    using Cons.prems(3) by auto
  obtain c e w1 where p: "CompareAndWrite h r (stage_file s) (stage_mode s) d w = (Ret (c, e), w1)" "registered r w1"
    using store.put_ready [OF Cons.prems(1)] by blast
  have spec: "Spec (w_lb w1) = Spec (w_lb w)" "spec_only ss"
    using CompareAndWrite_frame [OF p(1)] Cons.prems(2) by simp_all
  obtain rs1 where rs1: "put_all (CompareAndWrite h r) (map (item (w_lb w1)) ss) w1 = (rs1, w')" "rs = (c, e) # rs1"
    using Cons.prems(4) p(1) d item_spec [OF spec(2,1)] by (auto simp: item_def [of _ s] split: prod.splits)
  have "\<forall>t \<in> set ss. \<exists>d. rendered t (w_lb w1) = Some d"
    using Cons.prems(3) spec_onlyD [OF spec(2) _ spec(1)] by simp
  from Cons.IH [OF p(2) spec(2) this rs1(1)]
  have "run_stages h r ss a w1 = (Ret (record_all ss rs1 a), w')" for a
    by simp
  moreover have "run_stage h r s acc w = (Ret (record_result (stage_svc s) (c, e) acc), w1)"
    using RenderConfig_rendered [OF d, of h r] p(1) by (cases s) (simp add: run_stage_def run_defs)
  ultimately show ?case
    by (simp add: run_defs record_all_def rs1(2))
qed

lemma record_all_errors:
  "length rs = length ss \<Longrightarrow> snd (record_all ss rs acc) = snd acc @ List.map_filter snd rs"
proof (induction ss arbitrary: rs acc)
  case Nil
  then show ?case by (simp add: record_all_def List.map_filter_def)
next
  case (Cons s ss)
  then obtain res rs1 where rs: "rs = res # rs1" "length rs1 = length ss"
    by (cases rs) auto
  then show ?case
    using Cons.IH [OF rs(2)]
    by (auto simp: record_all_def record_result_errors List.map_filter_def split: option.splits)
qed

lemma record_all_same: "record_all ss (map (\<lambda>_. (False, None)) ss) acc = acc"
proof -
  have "record_all ss (map (\<lambda>_. (False, None)) us) acc = acc" for us
    by (induction ss arbitrary: us) (auto simp: record_all_def record_result_def zip_Cons1 split: list.splits)
  then show ?thesis .
qed

text \<open>Stages whose files are synchronised do nothing.\<close>

lemma run_stages_same:
  assumes "registered r w" "spec_only ss"
    and "\<forall>s \<in> set ss. readable h r (stage_file s) \<and> (\<exists>d. rendered s (w_lb w) = Some d \<and> synced r (stage_file s) d w)"
  shows "run_stages h r ss acc w = (Ret acc, w)"
proof -
  have "\<forall>i \<in> set (map (item (w_lb w)) ss). readable h r (fst i) \<and> synced r (fst i) (snd (snd i)) w"
    using assms(3) by (fastforce simp: item_def)
  from store.put_all_same [OF assms(1) this]
  have "put_all (CompareAndWrite h r) (map (item (w_lb w)) ss) w = (map (\<lambda>_. (False, None)) ss, w)"
    by (simp add: comp_def)
  moreover have "\<forall>s \<in> set ss. \<exists>d. rendered s (w_lb w) = Some d"
    using assms(3) by blast
  ultimately show ?thesis
    using run_stages_put_all [OF assms(1,2)] by (simp add: record_all_same)
qed

text \<open>A run of the stages without errors is a sequence of successful puts, one per file.\<close>

lemma run_stages_ok:
  assumes "registered r w" "spec_only ss" "run_stages h r ss (upd, []) w = (Ret (upd', []), w')"
  obtains rs where "put_all (CompareAndWrite h r) (map (item (w_lb w)) ss) w = (rs, w')"
    "\<forall>res \<in> set rs. snd res = None" "\<forall>s \<in> set ss. \<exists>d. rendered s (w_lb w) = Some d"
proof -
  have ren: "\<forall>s \<in> set ss. \<exists>d. rendered s (w_lb w) = Some d"
    using run_stages_rendered [OF assms(3) _ assms(2)] by simp
  obtain rs w2 where p: "put_all (CompareAndWrite h r) (map (item (w_lb w)) ss) w = (rs, w2)" by fastforce
  have len: "length rs = length ss"
    using store.put_all_length [OF assms(1) p] by simp
  have w2: "w2 = w'" "record_all ss rs (upd, []) = (upd', [])"
    using run_stages_put_all [OF assms(1,2) ren p, of "(upd, [])"] assms(3) by simp_all
  then have "\<forall>res \<in> set rs. snd res = None"
    using record_all_errors [OF len, of "(upd, [])"] by (auto simp: List.map_filter_def filter_empty_conv)
  then show ?thesis
    using that p ren w2(1) by blast
qed

lemma items_ok:
  assumes "distinct (map stage_file ss)" "\<forall>s \<in> set ss. readable h r (stage_file s)"
  shows "distinct (map fst (map (item c) ss))" "\<forall>i \<in> set (map (item c) ss). readable h r (fst i)"
  using assms by (simp_all add: item_def comp_def)

text \<open>Hence it has synchronised every file and, where the recorded hashes fit the data, written it.\<close>

lemma run_stages_sync:
  assumes "registered r w" "spec_only ss" "distinct (map stage_file ss)" "\<forall>s \<in> set ss. readable h r (stage_file s)"
    and "run_stages h r ss (upd, []) w = (Ret (upd', []), w')"
  shows "\<forall>s \<in> set ss. \<exists>d. rendered s (w_lb w) = Some d \<and> synced r (stage_file s) d w'"
    and "\<forall>s \<in> set ss. \<forall>d. rendered s (w_lb w) = Some d \<longrightarrow> hash_fits r (stage_file s) d w \<Longrightarrow>
      \<forall>s \<in> set ss. truthful r (stage_file s) w' \<and> (\<exists>d. rendered s (w_lb w) = Some d \<and> holds_data r (stage_file s) d w')"
proof -
  obtain rs where p: "put_all (CompareAndWrite h r) (map (item (w_lb w)) ss) w = (rs, w')"
    "\<forall>res \<in> set rs. snd res = None" and ren: "\<forall>s \<in> set ss. \<exists>d. rendered s (w_lb w) = Some d"
    using run_stages_ok [OF assms(1,2,5)] .
  note dist = items_ok [OF assms(3,4), of "w_lb w"]
  show "\<forall>s \<in> set ss. \<exists>d. rendered s (w_lb w) = Some d \<and> synced r (stage_file s) d w'"
    using store.put_all_sync [OF assms(1) dist p] ren by (fastforce simp: item_def)
  assume "\<forall>s \<in> set ss. \<forall>d. rendered s (w_lb w) = Some d \<longrightarrow> hash_fits r (stage_file s) d w"
  then have "\<forall>i \<in> set (map (item (w_lb w)) ss). readable h r (fst i) \<and> hash_fits r (fst i) (snd (snd i)) w"
    using dist(2) ren by (fastforce simp: item_def)
  from content.put_all_holds [OF assms(1) dist(1) this p]
  show "\<forall>s \<in> set ss. truthful r (stage_file s) w' \<and> (\<exists>d. rendered s (w_lb w) = Some d \<and> holds_data r (stage_file s) d w')"
    using ren by (fastforce simp: item_def)
qed

text \<open>When all files render and the host has no faults, the run has no errors.\<close>

lemma CompareAndWrite_healthy:
  assumes "registered r w" "f \<in> set managed_files" "healthy h r f"
  shows "\<exists>c w'. CompareAndWrite h r f m d w = (Ret (c, None), w')"
  using assms(1)
  by (cases rule: CompareAndWrite_cases [where h = h and f = f and d = d and m = m])
    (auto simp: WriteConfig_healthy [OF assms(2,3)])

lemma run_stages_healthy:
  assumes "registered r w" "spec_only ss" "\<forall>s \<in> set ss. stage_file s \<in> set managed_files \<and> healthy h r (stage_file s)"
    and "\<forall>s \<in> set ss. \<exists>d. rendered s (w_lb w) = Some d"
  shows "\<exists>upd' w'. run_stages h r ss (upd, []) w = (Ret (upd', []), w')"
proof -
  obtain rs w' where p: "put_all (CompareAndWrite h r) (map (item (w_lb w)) ss) w = (rs, w')" by fastforce
  have "\<forall>res \<in> set rs. snd res = None"
    by (rule store.put_all_no_error [OF assms(1) p]) (use assms(3) in \<open>force simp: item_def intro!: CompareAndWrite_healthy\<close>)
  then have "List.map_filter snd rs = []"
    by (auto simp: List.map_filter_def filter_empty_conv)
  then have "snd (record_all ss rs (upd, [])) = []"
    using record_all_errors [of rs ss "(upd, [])"] store.put_all_length [OF assms(1) p] by simp
  then show ?thesis
    using run_stages_put_all [OF assms(1,2,4) p, of "(upd, [])"] by (metis prod.collapse)
qed

section \<open>Lemmas: the reconciliation\<close>

text \<open>The status has an entry for this host, or no entries at all.\<close>

definition host_known :: "LoadBalancerConfigReconciler \<Rightarrow> LoadBalancerConfig \<Rightarrow> bool" where
  "host_known r c = (Nodes (Status c) = None \<or> node_ptr c (Hostname r) \<noteq> None)"

lemma init_nodes_frame [simp]:
  "Spec (init_nodes r c) = Spec c" "Meta (init_nodes r c) = Meta c"
  by (simp_all add: init_nodes_def)

lemma init_nodes_known: "node_ptr (init_nodes r c) (Hostname r) \<noteq> None \<longleftrightarrow> host_known r c"
  by (auto simp: init_nodes_def host_known_def node_ptr_def)

lemma init_nodes_other: "h' \<noteq> Hostname r \<Longrightarrow> node_ptr (init_nodes r c) h' = node_ptr c h'"
  by (auto simp: init_nodes_def node_ptr_def split: option.split)

lemma InitializeNodeStatus_frame:
  assumes "InitializeNodeStatus x h r w = (out, w')"
  shows "w_fs w' = w_fs w \<and> w_cmds w' = w_cmds w \<and> w_updates w' = w_updates w \<and>
    Spec (w_lb w') = Spec (w_lb w) \<and> Meta (w_lb w') = Meta (w_lb w) \<and>
    (\<forall>h'. h' \<noteq> Hostname r \<longrightarrow> node_ptr (w_lb w') h' = node_ptr (w_lb w) h') \<and>
    (registered r w' \<longleftrightarrow> host_known r (w_lb w)) \<and>
    (host_known r (w_lb w) \<longrightarrow> (\<exists>e. out = Ret e))"
proof -
  define c where "c = init_nodes r (w_lb w)"
  consider (err) e where "out = Ret (Some e)" "w' = w\<lparr>w_lb := c\<rparr>"
    | (panic) p where "out = Panic p" "w' = w\<lparr>w_lb := c\<rparr>" "node_ptr c (Hostname r) = None"
    | (done1) ns f where "out = Ret None" "w' = w\<lparr>w_lb := set_node (Hostname r) (f ns) c\<rparr>"
        "node_ptr c (Hostname r) = Some ns"
    using assms unfolding InitializeNodeStatus_def Let_def c_def [symmetric]
    by (auto simp: c_def [symmetric] split: sum.splits option.splits)
  then show ?thesis
    by cases (use init_nodes_known [of r "w_lb w"] in
        \<open>auto simp: registered_def c_def node_ptr_set_node init_nodes_other dest: node_ptr_nodes\<close>)
qed

text \<open>The initialisation keeps the recorded hashes and its lookups do not depend on the resource.\<close>

lemma InitializeNodeStatus_again:
  assumes "InitializeNodeStatus x h r w = (Ret None, w1)" "registered r w2"
  shows "\<exists>w3. InitializeNodeStatus x h r w2 = (Ret None, w3) \<and>
    (\<forall>f. hash_in_status r f w3 = hash_in_status r f w2) \<and> w_fs w3 = w_fs w2"
proof -
  obtain ns where ns: "node_ptr (w_lb w2) (Hostname r) = Some ns"
    using assms(2) by (auto simp: registered_def)
  then have "init_nodes r (w_lb w2) = w_lb w2"
    using node_ptr_nodes by (auto simp: init_nodes_def)
  with ns assms(1) show ?thesis
    by (auto simp: InitializeNodeStatus_def Let_def hash_in_status_def node_ptr_set_node
        dest: node_ptr_nodes split: sum.splits option.splits)
qed

lemma InitializeNodeStatus_hash:
  assumes "InitializeNodeStatus x h r w = (Ret None, w1)"
  shows "hash_in_status r f w1 = hash_in_status r f w"
proof -
  obtain ns g where ns: "w1 = w\<lparr>w_lb := set_node (Hostname r) (g ns) (init_nodes r (w_lb w))\<rparr>"
    "node_ptr (init_nodes r (w_lb w)) (Hostname r) = Some ns" "ConfigHashes (g ns) = ConfigHashes ns"
  proof -
    obtain a b c where "w1 = w\<lparr>w_lb := set_node (Hostname r)
        (the (node_ptr (init_nodes r (w_lb w)) (Hostname r))\<lparr>NodeStatus := NodeStatusConfiguring, PublicIP := a, PrivateIP := b, VrrpIP := c\<rparr>)
          (init_nodes r (w_lb w))\<rparr>" "node_ptr (init_nodes r (w_lb w)) (Hostname r) \<noteq> None"
      using assms by (auto simp: InitializeNodeStatus_def Let_def split: sum.splits option.splits)
    then show ?thesis
      by (intro that [of "\<lambda>n. n\<lparr>NodeStatus := NodeStatusConfiguring, PublicIP := a, PrivateIP := b, VrrpIP := c\<rparr>"]) auto
  qed
  have "Option.bind (node_ptr (init_nodes r (w_lb w)) (Hostname r)) (\<lambda>ns. Option.bind (ConfigHashes ns) (\<lambda>m. m f)) =
      hash_in_status r f w"
    by (auto simp: hash_in_status_def init_nodes_def node_ptr_def zeroNodeStatus_def split: option.splits)
  then show ?thesis
    using ns node_ptr_nodes [OF ns(2)] by (auto simp: hash_in_status_def node_ptr_set_node)
qed

lemma ReconcileLBConfig_cases:
  assumes "ReconcileLBConfig x h r sec loc w = (out, w')"
  obtains (init_panic) p where "out = Panic p" "InitializeNodeStatus x h r w = (Panic p, w')"
  | (init_error) e where "out = Ret ([], Some (Wrapf ''failed to initialize node status'' e))"
      "InitializeNodeStatus x h r w = (Ret (Some e), w')"
  | (stage_panic) p w1 where "out = Panic p" "InitializeNodeStatus x h r w = (Ret None, w1)"
      "run_stages h r (lb_stages x h r sec loc) ([], []) w1 = (Panic p, w')"
  | (finished) upd errs w1 where "out = Ret (upd, multierr_Combine x (map Some errs))"
      "InitializeNodeStatus x h r w = (Ret None, w1)"
      "run_stages h r (lb_stages x h r sec loc) ([], []) w1 = (Ret (upd, errs), w')"
  using assms
  by (auto simp: ReconcileLBConfig_def run_defs split: prod.splits outcome.splits option.splits)

lemma ReconcileLBConfig_frame:
  assumes "ReconcileLBConfig x h r sec loc w = (out, w')"
  shows "w_cmds w' = w_cmds w \<and> w_updates w' = w_updates w \<and>
    Spec (w_lb w') = Spec (w_lb w) \<and> Meta (w_lb w') = Meta (w_lb w) \<and>
    (\<forall>h'. h' \<noteq> Hostname r \<longrightarrow> node_ptr (w_lb w') h' = node_ptr (w_lb w) h') \<and>
    (host_known r (w_lb w) \<longrightarrow> registered r w')"
  using assms
  by (cases rule: ReconcileLBConfig_cases)
    (auto dest!: InitializeNodeStatus_frame run_stages_frame)

lemma lb_stages_readable:
  assumes "\<forall>f \<in> set managed_files. readable h r f"
  shows "\<forall>s \<in> set (lb_stages x h r sec loc). readable h r (stage_file s)"
  using assms lb_stages_files [of x h r sec loc] by (metis image_eqI list.set_map)

lemma lb_stages_distinct: "distinct (map stage_file (lb_stages x h r sec loc))"
proof -
  have "distinct managed_files" by code_simp
  then show ?thesis by (simp only: lb_stages_files)
qed

text \<open>
  The recorded hashes fit what the stages would write now. This is less than truthfulness: a hash
  may describe an older text that is no longer in the file.
\<close>

definition stages_fit :: "stage list \<Rightarrow> LoadBalancerConfigReconciler \<Rightarrow> world \<Rightarrow> bool" where
  "stages_fit ss r w = (\<forall>s \<in> set ss. \<forall>d. rendered s (w_lb w) = Some d \<longrightarrow> hash_fits r (stage_file s) d w)"

lemma lb_stages_managed: "s \<in> set (lb_stages x h r sec loc) \<Longrightarrow> stage_file s \<in> set managed_files"
  using lb_stages_files [of x h r sec loc] by (metis image_eqI list.set_map)

lemma truthful_stages_fit: "\<forall>f \<in> set managed_files. truthful r f w \<Longrightarrow> stages_fit (lb_stages x h r sec loc) r w"
  using lb_stages_managed truthful_fits unfolding stages_fit_def by blast

lemma stages_fit_cong:
  assumes "Spec (w_lb w') = Spec (w_lb w)" "w_fs w' = w_fs w" "\<And>f. hash_in_status r f w' = hash_in_status r f w"
  shows "stages_fit (lb_stages x h r sec loc) r w' = stages_fit (lb_stages x h r sec loc) r w"
proof -
  have "hash_fits r f d w' = hash_fits r f d w" for f d
    using assms(2,3) by (intro content_frame) simp_all
  then show ?thesis
    using spec_onlyD [OF spec_only_lb_stages _ assms(1)] by (simp add: stages_fit_def)
qed

text \<open>A reconciliation that returns no error has rendered and synchronised all managed files.\<close>

lemma ReconcileLBConfig_ok:
  assumes "Combine_spec x" "\<forall>f \<in> set managed_files. readable h r f" "host_known r (w_lb w)"
    and "ReconcileLBConfig x h r sec loc w = (Ret (upd, None), w')"
  shows "\<exists>w1. InitializeNodeStatus x h r w = (Ret None, w1)"
    "\<forall>s \<in> set (lb_stages x h r sec loc). \<exists>d. rendered s (w_lb w) = Some d \<and> synced r (stage_file s) d w'"
    "stages_fit (lb_stages x h r sec loc) r w \<Longrightarrow>
      \<forall>s \<in> set (lb_stages x h r sec loc). \<exists>d. rendered s (w_lb w) = Some d \<and> holds_data r (stage_file s) d w'"
    "stages_fit (lb_stages x h r sec loc) r w \<Longrightarrow> \<forall>f \<in> set managed_files. truthful r f w'"
proof -
  obtain w1 where w1: "InitializeNodeStatus x h r w = (Ret None, w1)"
    "run_stages h r (lb_stages x h r sec loc) ([], []) w1 = (Ret (upd, []), w')"
    using assms(4) by (cases rule: ReconcileLBConfig_cases) (auto dest!: sym [of None] simp: Combine_None [OF assms(1)])
  have i: "registered r w1" "Spec (w_lb w1) = Spec (w_lb w)" "w_fs w1 = w_fs w"
    using InitializeNodeStatus_frame [OF w1(1)] assms(3) by simp_all
  have ren: "rendered s (w_lb w1) = rendered s (w_lb w)" if "s \<in> set (lb_stages x h r sec loc)" for s
    using spec_onlyD [OF spec_only_lb_stages that i(2)] .
  note sync = run_stages_sync [OF i(1) spec_only_lb_stages lb_stages_distinct lb_stages_readable [OF assms(2)] w1(2)]
  show "\<exists>w1. InitializeNodeStatus x h r w = (Ret None, w1)"
    using w1 by blast
  show "\<forall>s \<in> set (lb_stages x h r sec loc). \<exists>d. rendered s (w_lb w) = Some d \<and> synced r (stage_file s) d w'"
    using sync(1) ren by simp
  assume "stages_fit (lb_stages x h r sec loc) r w"
  then have "stages_fit (lb_stages x h r sec loc) r w1"
    using stages_fit_cong [OF i(2,3) InitializeNodeStatus_hash [OF w1(1)]] by blast
  note sync2 = sync(2) [OF this [unfolded stages_fit_def]]
  show "\<forall>s \<in> set (lb_stages x h r sec loc). \<exists>d. rendered s (w_lb w) = Some d \<and> holds_data r (stage_file s) d w'"
    using sync2 ren by simp
  have "truthful r f w'" if "f \<in> stage_file ` set (lb_stages x h r sec loc)" for f
    using sync2 that by blast
  then show "\<forall>f \<in> set managed_files. truthful r f w'"
    unfolding lb_stages_files [of x h r sec loc, symmetric] by simp
qed

end
