(* ===== verification/ReconcilerCorrect.thy ===== *)
theory ReconcilerCorrect
  imports Reconciler
begin

text \<open>
  Correctness of the reconciliation: when it returns and when it panics, what is on disk after it,
  which services it reloads, what it reports, and that a second run has nothing to do.
\<close>

section \<open>Reloading\<close>

lemma reload_loop_off: "ConfigRoot r \<noteq> ''/'' \<Longrightarrow> reload_loop h r cs errors cmds = (errors, cmds)"
  by (induction cs arbitrary: errors cmds) simp_all

lemma reload_loop_on:
  "ConfigRoot r = ''/'' \<Longrightarrow> reload_loop h r cs errors cmds =
     (errors @ List.map_filter (fst \<circ> Reload h) cs, cmds @ concat (map (snd \<circ> Reload h) cs))"
  by (induction cs arbitrary: errors cmds)
    (auto simp: List.map_filter_def split: prod.splits option.splits)

lemma reload_loop_Nil [simp]: "reload_loop h r [] errors cmds = (errors, cmds)"
  by simp

lemma lb_stages_services:
  "s \<in> set (lb_stages x h r sec loc) \<Longrightarrow> stage_svc s \<in> set node_services"
  by (auto simp: lb_stages_def node_services_def)

lemma record_result_services:
  "set (fst (record_result svc res acc)) =
     set (fst acc) \<union> (if snd res = None \<and> fst res then {svc} else {})"
  by (cases acc) (auto simp: record_result_def split: option.split)

text \<open>A file that a run of the stages changed belongs to a service marked as updated, or an error is reported.\<close>

lemma RenderConfig_changed:
  assumes "RenderConfig h r f cfg mode w = (Ret (c, e), w')" "w_fs w' p \<noteq> w_fs w p"
  shows "c \<and> p \<in> {configfilePath r cfg, digestfilePath r cfg}"
proof -
  obtain d where "CompareAndWrite h r cfg mode d w = (Ret (c, e), w')"
    using assms by (auto simp: RenderConfig_def split: outcome.splits sum.splits)
  moreover have "registered r w"
    using calculation by (auto simp: CompareAndWrite_def registered_def split: option.splits)
  then show ?thesis
  proof (cases rule: CompareAndWrite_cases [where h = h and f = cfg and d = d and m = mode])
    case unchanged
    then show ?thesis using calculation assms(2) by simp
  next
    case (written ns)
    then show ?thesis
      using calculation assms(2) WriteConfig_frame [of p r cfg h "Meta (w_lb w)" d "sha256_hex d" mode "w_fs w"]
      by auto
  qed
qed

lemma run_stages_changed:
  assumes "run_stages h r ss acc w = (Ret acc', w')"
  shows "set (fst acc) \<subseteq> set (fst acc') \<and> set (fst acc') \<subseteq> set (fst acc) \<union> stage_svc ` set ss \<and>
    (\<forall>p. w_fs w' p \<noteq> w_fs w p \<longrightarrow> snd acc' \<noteq> snd acc \<or>
      (\<exists>s \<in> set ss. stage_svc s \<in> set (fst acc') \<and>
         p \<in> {configfilePath r (stage_file s), digestfilePath r (stage_file s)}))"
  using assms
proof (induction ss arbitrary: acc w)
  case Nil
  then show ?case by (simp add: run_defs)
next
  case (Cons s ss)
  obtain o1 w1 where s: "run_stage h r s acc w = (o1, w1)" by fastforce
  then obtain a where a: "o1 = Ret a" "run_stages h r ss a w1 = (Ret acc', w')"
    using Cons.prems by (cases o1) (auto simp: run_defs)
  obtain res where res: "a = record_result (stage_svc s) res acc"
    "RenderConfig h r (stage_render s) (stage_file s) (stage_mode s) w = (Ret (fst res, snd res), w1)"
    using s by (rule run_stage_cases) (auto simp: a)
  obtain es where es: "snd acc' = snd a @ es"
    using run_stages_errors [OF a(2)] by blast
  note IH = Cons.IH [OF a(2)]
  have svc: "set (fst a) = set (fst acc) \<union> (if snd res = None \<and> fst res then {stage_svc s} else {})"
    by (simp add: res(1) record_result_services)
  have err: "snd acc' \<noteq> snd acc" if "snd res \<noteq> None \<or> snd acc' \<noteq> snd a"
    using that es by (auto simp: res(1) record_result_errors)
  have "snd acc' \<noteq> snd acc \<or> (\<exists>s \<in> set (s # ss). stage_svc s \<in> set (fst acc') \<and>
         p \<in> {configfilePath r (stage_file s), digestfilePath r (stage_file s)})"
    if p: "w_fs w' p \<noteq> w_fs w p" for p
  proof (cases "w_fs w1 p = w_fs w p")
    case True
    then have "w_fs w' p \<noteq> w_fs w1 p" using p by simp
    then have "snd acc' \<noteq> snd a \<or> (\<exists>t \<in> set ss. stage_svc t \<in> set (fst acc') \<and>
         p \<in> {configfilePath r (stage_file t), digestfilePath r (stage_file t)})"
      using IH by blast
    then show ?thesis using err by (auto simp del: insert_iff)
  next
    case False
    from RenderConfig_changed [OF res(2) this] show ?thesis
      using IH svc err by (cases "snd res") auto
  qed
  then show ?case
    using IH svc by (auto split: if_splits)
qed

section \<open>The outcome of a reconciliation\<close>

text \<open>The last part of \<^verbatim>\<open>Reconcile\<close>, after the files have been processed.\<close>

definition final_status :: "error list \<Rightarrow> string" where
  "final_status errors = (if errors = [] then NodeStatusReady else NodeStatusFailed)"

lemma Reconcile_after:
  assumes "client_GetLB x req = Inr c"
    and "client_GetSecret x (Namespace (Meta c), CloudCredentials (Spec c)) = Inr sec"
    and "ReconcileLBConfig x h r sec None (w\<lparr>w_lb := c\<rparr>) = (Ret (upd, err), w1)"
    and "node_ptr (w_lb w1) (Hostname r) = Some ns"
    and "reload_loop h r (keys upd) (case err of Some e \<Rightarrow> [e] | None \<Rightarrow> []) (w_cmds w1) = (errors, cmds)"
  defines "lb' \<equiv> set_node (Hostname r) (ns\<lparr>NodeStatus := final_status errors\<rparr>) (w_lb w1)"
  shows "Reconcile x h keys r req w =
    (Ret (multierr_Combine x [err, client_StatusUpdate x lb']),
     w1\<lparr>w_cmds := cmds, w_lb := lb', w_updates := w_updates w1 @ [lb']\<rparr>)"
  using assms by (simp add: Reconcile_def final_status_def Let_def)

lemma Combine_two: "Combine_spec x \<Longrightarrow> multierr_Combine x [a, b] = None \<longleftrightarrow> a = None \<and> b = None"
  by (simp add: Combine_spec_def)

text \<open>A reconciliation that returns has gone through all steps.\<close>

lemma Reconcile_returned:
  assumes "client_GetLB x req = Inr c"
    and "client_GetSecret x (Namespace (Meta c), CloudCredentials (Spec c)) = Inr sec"
    and "Reconcile x h keys r req w = (Ret e, w')"
  obtains upd err w1 ns errors cmds where
    "ReconcileLBConfig x h r sec None (w\<lparr>w_lb := c\<rparr>) = (Ret (upd, err), w1)"
    "node_ptr (w_lb w1) (Hostname r) = Some ns"
    "reload_loop h r (keys upd) (case err of Some e \<Rightarrow> [e] | None \<Rightarrow> []) (w_cmds w1) = (errors, cmds)"
    "w_lb w' = set_node (Hostname r) (ns\<lparr>NodeStatus := final_status errors\<rparr>) (w_lb w1)"
    "w_fs w' = w_fs w1" "w_cmds w' = cmds" "w_updates w' = w_updates w1 @ [w_lb w']"
    "e = multierr_Combine x [err, client_StatusUpdate x (w_lb w')]"
proof -
  obtain o1 w1 where r1: "ReconcileLBConfig x h r sec None (w\<lparr>w_lb := c\<rparr>) = (o1, w1)" by fastforce
  then obtain upd err where o1: "o1 = Ret (upd, err)"
    using assms by (cases o1) (auto simp: Reconcile_def)
  obtain errors cmds where l: "reload_loop h r (keys upd) (case err of Some e \<Rightarrow> [e] | None \<Rightarrow> []) (w_cmds w1) = (errors, cmds)"
    by fastforce
  obtain ns where ns: "node_ptr (w_lb w1) (Hostname r) = Some ns"
    using assms r1 o1 l by (cases "node_ptr (w_lb w1) (Hostname r)") (auto simp: Reconcile_def Let_def)
  show ?thesis
    using that [OF r1 [unfolded o1] ns l] Reconcile_after [where keys = keys, OF assms(1,2) r1 [unfolded o1] ns l] assms(3) by simp
qed

section \<open>Valid input\<close>

text \<open>
  A configuration that the API server's schema accepts and that refers to existing things: a
  supported distribution, virtual addresses that are single addresses in CIDR notation, both
  optional parts present, credentials for a supported provider, selectors that resolve, and a host
  whose interfaces and routes are found.
\<close>

definition credentials_ok :: "LoadBalancerConfig \<Rightarrow> Secret \<Rightarrow> bool" where
  "credentials_ok c sec =
     (Cloud (Spec c) = ''cloudscale'' \<and> sec_Data sec ''token'' \<noteq> None \<or>
      Cloud (Spec c) = ''exoscale'' \<and> sec_Data sec ''key'' \<noteq> None \<and> sec_Data sec ''secret'' \<noteq> None)"

definition addresses_ok :: "LoadBalancerConfig \<Rightarrow> bool" where
  "addresses_ok c =
     (list_all (\<lambda>v. is_ok (parseVIP v)) (all_vips (VirtualAddresses (Spec c))) \<and>
      vips_NAT (VirtualAddresses (Spec c)) \<noteq> None)"

definition backends_ok :: "ext \<Rightarrow> LoadBalancerConfig \<Rightarrow> bool" where
  "backends_ok x c =
     (is_ok (getHAProxyBackends x (NodeSelector (APIBackend (Spec c)))) \<and>
      (case IngressBackend (Spec c) of
         None \<Rightarrow> False | Some ib \<Rightarrow> is_ok (getHAProxyBackends x (NodeSelector ib))))"

definition network_ok :: "ext \<Rightarrow> host \<Rightarrow> LoadBalancerConfigReconciler \<Rightarrow> bool" where
  "network_ok x h r =
     (is_ok (internalIPs r) \<and> is_ok (macAddressForInterface h (PublicInterface r)) \<and>
      is_ok (primaryIPAddressForInterface h (PublicInterface r) None) \<and>
      (case ClusterNetworkInterface x r of
         Inl _ \<Rightarrow> False
       | Inr i \<Rightarrow> is_ok (macAddressForInterface h i) \<and>
           is_ok (primaryIPAddressForInterface h i (Some (ClusterNetwork r)))))"

definition valid_input ::
  "ext \<Rightarrow> host \<Rightarrow> LoadBalancerConfigReconciler \<Rightarrow> Secret \<Rightarrow> LoadBalancerConfig \<Rightarrow> bool" where
  "valid_input x h r sec c =
     (Distribution (Spec c) \<in> {''openshift'', ''talos''} \<and> credentials_ok c sec \<and> addresses_ok c \<and>
      backends_ok x c \<and> network_ok x h r)"

lemma is_okE: "is_ok a \<Longrightarrow> (\<And>v. a = Inr v \<Longrightarrow> P) \<Longrightarrow> P"
  by (auto simp: is_ok_def split: sum.splits)

lemma parse_ok_of_type:
  "addresses_ok c \<Longrightarrow> \<forall>v \<in> set (of_type ty (all_vips (VirtualAddresses (Spec c)))). is_ok (parseVIP v)"
  by (auto simp: addresses_ok_def list_all_iff of_type_def)

lemma publicVIPs_valid:
  assumes "Combine_spec x" "Keys_spec x" "addresses_ok c"
  obtains vips where "publicVIPs x (VirtualAddresses (Spec c)) = (vips, None)"
  using publicVIPs_correct(4) [OF assms(1,2), of "VirtualAddresses (Spec c)"] parse_ok_of_type [OF assms(3)]
  by (metis prod.collapse)

lemma gateway_vips_valid:
  assumes "internalIPs r = Inr ii"
  shows "set (gateway_vips ii c) \<subseteq> vip_prefixes"
proof -
  have "\<exists>a. ii_DefaultGateway ii = Next (Addr4 a)"
    using assms
    by (cases "pfx_ip (Masked (ClusterNetwork r))") (auto simp: internalIPs_def Let_def split: if_splits)
  then obtain a where "ii_DefaultGateway ii = Next (Addr4 a)" ..
  then have "(\<exists>w. ii_DefaultGateway ii = Addr4 w) \<or> ii_DefaultGateway ii = zeroAddr"
    by (auto simp: zeroAddr_def)
  moreover have "Addr_Prefix zeroAddr 32 = Inr zeroPrefix"
    by (simp add: zeroAddr_def)
  moreover have "zeroPrefix \<in> vip_prefixes"
    by (simp add: vip_prefixes_def)
  ultimately show ?thesis
    by (auto simp: gateway_vips_def single4_vip Addr_Prefix_single4 simp del: Addr_Prefix.simps)
qed

lemma privateVIPs_valid:
  assumes "Combine_spec x" "Keys_spec x" "addresses_ok c" "internalIPs r = Inr ii"
  obtains vips where "privateVIPs x (VirtualAddresses (Spec c)) (gateway_vips ii c) = (vips, None)"
  using privateVIPs_correct(4) [OF assms(1,2) gateway_vips_valid [OF assms(4)], of "VirtualAddresses (Spec c)"]
    parse_ok_of_type [OF assms(3)]
  by (metis prod.collapse)

lemma frontends_valid:
  assumes "Combine_spec x" "Keys_spec x" "addresses_ok c"
  obtains f where "getHAProxyFrontends x (VirtualAddresses (Spec c)) = (f, None)"
proof -
  have "parse_errors (vips_API (VirtualAddresses (Spec c)) @ vips_Ingress (VirtualAddresses (Spec c))) = []"
    using assms(3) unfolding parse_errors_Nil_iff by (auto simp: addresses_ok_def list_all_iff all_vips_def)
  moreover have "multierr_Combine x [] = None"
    using Combine_None [OF assms(1), of "[]"] by simp
  ultimately show ?thesis
    using that by (simp add: getHAProxyFrontends_eq [OF assms(2)])
qed

text \<open>Every file of a valid configuration renders.\<close>

lemma valid_haproxy:
  assumes "Combine_spec x" "Keys_spec x" "valid_input x h r sec c"
  shows "\<exists>d. RenderHAProxyAPIConfig x c loc = Inr d" "\<exists>d. RenderHAProxyIngressConfig x c loc = Ret (Inr d)"
proof -
  obtain f where f: "getHAProxyFrontends x (VirtualAddresses (Spec c)) = (f, None)"
    using frontends_valid [OF assms(1,2)] assms(3) by (auto simp: valid_input_def)
  have v: "Distribution (Spec c) \<in> {''openshift'', ''talos''}" "backends_ok x c"
    using assms(3) by (simp_all add: valid_input_def)
  obtain bs where "getHAProxyBackends x (NodeSelector (APIBackend (Spec c))) = Inr bs"
    using v(2) by (auto simp: backends_ok_def elim!: is_okE)
  with f v(1) show "\<exists>d. RenderHAProxyAPIConfig x c loc = Inr d"
    by (cases loc) (auto simp: RenderHAProxyAPIConfig_def haproxyTemplateData_def wrap_result_def haproxy_templates)
  obtain ib bs where "IngressBackend (Spec c) = Some ib" "getHAProxyBackends x (NodeSelector ib) = Inr bs"
    using v(2) by (auto simp: backends_ok_def elim!: is_okE split: option.splits)
  with f v(1) show "\<exists>d. RenderHAProxyIngressConfig x c loc = Ret (Inr d)"
    by (cases loc) (auto simp: RenderHAProxyIngressConfig_def haproxyTemplateData_def wrap_result_def haproxy_templates)
qed

lemma valid_network:
  assumes "network_ok x h r"
  obtains ii i macp macc ipp ipc where "internalIPs r = Inr ii" "ClusterNetworkInterface x r = Inr i"
    "macAddressForInterface h (PublicInterface r) = Inr macp" "macAddressForInterface h i = Inr macc"
    "primaryIPAddressForInterface h (PublicInterface r) None = Inr ipp"
    "primaryIPAddressForInterface h i (Some (ClusterNetwork r)) = Inr ipc"
  using assms by (auto simp: network_ok_def is_ok_def split: sum.splits)

lemma valid_failover:
  assumes "Combine_spec x" "Keys_spec x" "valid_input x h r sec c"
  shows "\<exists>d. RenderKeepalivedConfig x r c = Inr d" "\<exists>d. RenderFloatyConfig x c sec = Inr d"
    "\<exists>d. RenderConntrackdConfig x r c = Inr d"
proof -
  obtain ii i where n: "internalIPs r = Inr ii" "ClusterNetworkInterface x r = Inr i"
    using assms(3) valid_network by (metis valid_input_def)
  obtain vips where "privateVIPs x (VirtualAddresses (Spec c)) (gateway_vips ii c) = (vips, None)"
    using privateVIPs_valid [OF assms(1,2) _ n(1)] assms(3) by (auto simp: valid_input_def)
  then show "\<exists>d. RenderKeepalivedConfig x r c = Inr d" "\<exists>d. RenderConntrackdConfig x r c = Inr d"
    using n by (simp_all add: RenderKeepalivedConfig_def keepalived_template RenderConntrackdConfig_def conntrackd_template Let_def)
  obtain pub where "publicVIPs x (VirtualAddresses (Spec c)) = (pub, None)"
    using publicVIPs_valid [OF assms(1,2)] assms(3) by (auto simp: valid_input_def)
  moreover have "credentials_ok c sec"
    using assms(3) by (simp add: valid_input_def)
  ultimately show "\<exists>d. RenderFloatyConfig x c sec = Inr d"
    by (auto simp: RenderFloatyConfig_def credentials_ok_def cloudscale_template exoscale_template)
qed

lemma valid_host_files:
  assumes "Combine_spec x" "Keys_spec x" "valid_input x h r sec c"
  shows "\<exists>d. RenderPublicNMConnection h r c = Inr d" "\<exists>d. RenderClusterNetNMConnection x h r c = Inr d"
    "\<exists>d. RenderKeepalivedDummyNMConnection x c = Inr d"
    "\<exists>d. RenderFirewallExternalZone x c = Inr d" "\<exists>d. RenderFirewallDirectRules r c = Ret (Inr d)"
proof -
  have "network_ok x h r"
    using assms(3) by (simp add: valid_input_def)
  then show "\<exists>d. RenderPublicNMConnection h r c = Inr d" "\<exists>d. RenderClusterNetNMConnection x h r c = Inr d"
    by (auto elim!: valid_network simp: RenderPublicNMConnection_def RenderClusterNetNMConnection_def
        public_nm_template cluster_nm_template)
  obtain pub where "publicVIPs x (VirtualAddresses (Spec c)) = (pub, None)"
    using publicVIPs_valid [OF assms(1,2)] assms(3) by (auto simp: valid_input_def)
  then show "\<exists>d. RenderKeepalivedDummyNMConnection x c = Inr d" "\<exists>d. RenderFirewallExternalZone x c = Inr d"
    by (simp_all add: RenderKeepalivedDummyNMConnection_def RenderFirewallExternalZone_def split_families_eq
        keepalived_nm_template zone_template del: map_map)
  obtain v where "vips_NAT (VirtualAddresses (Spec c)) = Some v" "is_ok (parseVIP v)"
    using assms(3) by (auto simp: valid_input_def addresses_ok_def list_all_iff all_vips_def)
  then show "\<exists>d. RenderFirewallDirectRules r c = Ret (Inr d)"
    by (auto simp: RenderFirewallDirectRules_def direct_template parseVIP_def is_ok_def split: sum.splits)
qed

lemma valid_rendered:
  assumes "Combine_spec x" "Keys_spec x" "valid_input x h r sec c"
  shows "\<forall>s \<in> set (lb_stages x h r sec loc). \<exists>d. rendered s c = Some d"
proof -
  note renders = valid_haproxy [OF assms, of loc] valid_failover [OF assms] valid_host_files [OF assms]
  then show ?thesis
    unfolding lb_stages_def
    by (elim exE) (simp add: rendered_def RenderSysctlConf_eq)
qed

lemma valid_init:
  assumes "network_ok x h r" "host_known r (w_lb w)"
  shows "\<exists>w1. InitializeNodeStatus x h r w = (Ret None, w1)"
proof -
  obtain ns where "node_ptr (init_nodes r (w_lb w)) (Hostname r) = Some ns"
    using assms(2) init_nodes_known by blast
  with assms(1) show ?thesis
    by (elim valid_network) (simp add: InitializeNodeStatus_def)
qed

section \<open>A second reconciliation\<close>

text \<open>
  What the renderers read of their surroundings. The resources the API server returns and its answer
  to a status update do not influence what is rendered.
\<close>

definition same_inputs :: "ext \<Rightarrow> ext \<Rightarrow> bool" where
  "same_inputs x y =
     (multierr_Combine x = multierr_Combine y \<and> maps_Keys_Addr x = maps_Keys_Addr y \<and>
      maps_Keys_Prefix x = maps_Keys_Prefix y \<and> routetable_Get x = routetable_Get y \<and>
      LabelSelectorAsSelector x = LabelSelectorAsSelector y \<and> client_ListNodes x = client_ListNodes y)"

lemma same_inputs_update [simp]:
  "same_inputs (x\<lparr>client_GetLB := g\<rparr>) x" "same_inputs (x\<lparr>client_StatusUpdate := u\<rparr>) x"
  by (simp_all add: same_inputs_def)

lemma ext_cong:
  assumes "same_inputs x y"
  shows "getHAProxyFrontends x vs = getHAProxyFrontends y vs" "getHAProxyBackends x ls = getHAProxyBackends y ls"
    "privateVIPs x vs es = privateVIPs y vs es" "publicVIPs x vs = publicVIPs y vs"
    "ClusterNetworkInterface x r = ClusterNetworkInterface y r"
proof -
  have sel: "multierr_Combine x = multierr_Combine y" "maps_Keys_Addr x = maps_Keys_Addr y"
    "maps_Keys_Prefix x = maps_Keys_Prefix y" "routetable_Get x = routetable_Get y"
    "LabelSelectorAsSelector x = LabelSelectorAsSelector y" "client_ListNodes x = client_ListNodes y"
    using assms by (simp_all add: same_inputs_def)
  show "getHAProxyFrontends x vs = getHAProxyFrontends y vs" "getHAProxyBackends x ls = getHAProxyBackends y ls"
    "privateVIPs x vs es = privateVIPs y vs es" "publicVIPs x vs = publicVIPs y vs"
    "ClusterNetworkInterface x r = ClusterNetworkInterface y r"
    unfolding getHAProxyFrontends_def getHAProxyBackends_def privateVIPs_def publicVIPs_def
      ClusterNetworkInterface_def sel by (rule refl)+
qed

lemma lb_stages_cong: "same_inputs x y \<Longrightarrow> lb_stages x h r sec loc = lb_stages y h r sec loc"
  unfolding lb_stages_def RenderHAProxyAPIConfig_def RenderHAProxyIngressConfig_def haproxyTemplateData_def
    RenderKeepalivedConfig_def RenderFloatyConfig_def RenderConntrackdConfig_def RenderClusterNetNMConnection_def
    RenderKeepalivedDummyNMConnection_def RenderFirewallExternalZone_def ext_cong
  by (rule refl)

lemma InitializeNodeStatus_cong: "same_inputs x y \<Longrightarrow> InitializeNodeStatus x h r = InitializeNodeStatus y h r"
  unfolding InitializeNodeStatus_def ext_cong by (rule refl)

lemma valid_input_cong: "same_inputs x y \<Longrightarrow> valid_input x h r sec c = valid_input y h r sec c"
  unfolding valid_input_def backends_ok_def network_ok_def ext_cong by (rule refl)

lemmas inputs_cong = lb_stages_cong InitializeNodeStatus_cong valid_input_cong

lemmas lb_stages_GetLB [simp] = lb_stages_cong [OF same_inputs_update(1)]

lemmas InitializeNodeStatus_GetLB [simp] = InitializeNodeStatus_cong [OF same_inputs_update(1)]

lemma rendered_eq: "rendered s c = Some d \<longleftrightarrow> stage_render s c = Ret (Inr d)"
  by (auto simp: rendered_def split: outcome.splits sum.splits)

text \<open>Stages whose renderers do not panic come to an end.\<close>

lemma run_stages_returns:
  assumes "registered r w" "spec_only ss" "\<forall>s \<in> set ss. \<exists>res. stage_render s (w_lb w) = Ret res"
  shows "\<exists>acc' w'. run_stages h r ss acc w = (Ret acc', w')"
  using assms
proof (induction ss arbitrary: acc w)
  case Nil
  then show ?case by (simp add: run_defs)
next
  case (Cons s ss)
  obtain res where res: "stage_render s (w_lb w) = Ret res"
    using Cons.prems(3) by auto
  have "\<exists>res' w1. RenderConfig h r (stage_render s) (stage_file s) (stage_mode s) w = (Ret res', w1)"
    using res store.put_ready [OF Cons.prems(1), of h "stage_file s" "stage_mode s"]
    by (cases res) (fastforce simp: RenderConfig_def)+
  then obtain res' w1 where w1: "RenderConfig h r (stage_render s) (stage_file s) (stage_mode s) w = (Ret res', w1)"
    by blast
  have "registered r w1" "Spec (w_lb w1) = Spec (w_lb w)"
    using RenderConfig_frame [OF w1] Cons.prems(1) by simp_all
  moreover from this have "\<forall>t \<in> set ss. \<exists>res. stage_render t (w_lb w1) = Ret res"
    using Cons.prems(2,3) unfolding spec_only_def by (metis list.set_intros(2))
  ultimately obtain acc' w' where "run_stages h r ss (record_result (stage_svc s) res' acc) w1 = (Ret acc', w')"
    using Cons.IH Cons.prems(2) by (metis spec_only_Cons)
  then show ?case
    using w1 by (cases s) (simp add: run_stage_def run_defs)
qed

text \<open>A renderer that panics takes the whole run down.\<close>

lemma run_stages_panics:
  assumes "spec_only ss" "\<exists>s \<in> set ss. \<exists>p. stage_render s (w_lb w) = Panic p"
  shows "\<exists>p w'. run_stages h r ss acc w = (Panic p, w')"
  using assms
proof (induction ss arbitrary: acc w)
  case Nil
  then show ?case by simp
next
  case (Cons s ss)
  obtain o1 w1 where s: "run_stage h r s acc w = (o1, w1)" by fastforce
  show ?case
  proof (cases o1)
    case (Panic p)
    then show ?thesis using s by (simp add: run_defs)
  next
    case (Ret a)
    obtain res where res: "RenderConfig h r (stage_render s) (stage_file s) (stage_mode s) w = (Ret res, w1)"
      using s by (rule run_stage_cases) (auto simp: Ret)
    then have "\<nexists>p. stage_render s (w_lb w) = Panic p"
      by (auto simp: RenderConfig_def)
    moreover have "Spec (w_lb w1) = Spec (w_lb w)"
      by (rule RenderConfig_frame(1) [OF res])
    ultimately have "\<exists>t \<in> set ss. \<exists>p. stage_render t (w_lb w1) = Panic p"
      using Cons.prems unfolding spec_only_def by (metis list.set_intros(2) set_ConsD)
    then show ?thesis
      using Cons.IH [of w1 a] Cons.prems(1) s Ret by (simp add: run_defs)
  qed
qed

lemma lb_stages_return:
  assumes "Spec c' = Spec c" "IngressBackend (Spec c) \<noteq> None" "vips_NAT (VirtualAddresses (Spec c)) \<noteq> None"
  shows "\<forall>s \<in> set (lb_stages x h r sec loc). \<exists>res. stage_render s c' = Ret res"
  using assms by (auto simp: lb_stages_def RenderHAProxyIngressConfig_def RenderFirewallDirectRules_def)

text \<open>A valid configuration reconciles without error on a healthy host.\<close>

lemma ReconcileLBConfig_valid:
  assumes "Combine_spec x" "Keys_spec x" "valid_input x h r sec (w_lb w)" "host_known r (w_lb w)"
    and "\<forall>f \<in> set managed_files. healthy h r f"
  shows "\<exists>upd w'. ReconcileLBConfig x h r sec loc w = (Ret (upd, None), w') \<and> set upd \<subseteq> set node_services"
proof -
  obtain w1 where w1: "InitializeNodeStatus x h r w = (Ret None, w1)"
    using valid_init [OF _ assms(4)] assms(3) by (auto simp: valid_input_def)
  have i: "registered r w1" "Spec (w_lb w1) = Spec (w_lb w)"
    using InitializeNodeStatus_frame [OF w1] assms(4) by simp_all
  have "\<forall>s \<in> set (lb_stages x h r sec loc). \<exists>d. rendered s (w_lb w1) = Some d"
    using valid_rendered [OF assms(1-3)] spec_onlyD [OF spec_only_lb_stages _ i(2)] by simp
  moreover have "stage_file s \<in> set managed_files" if "s \<in> set (lb_stages x h r sec loc)" for s
    using that by (rule lb_stages_managed)
  ultimately obtain upd w' where run: "run_stages h r (lb_stages x h r sec loc) ([], []) w1 = (Ret (upd, []), w')"
    using run_stages_healthy [OF i(1) spec_only_lb_stages, of x h r sec loc] assms(5) by blast
  then have "ReconcileLBConfig x h r sec loc w = (Ret (upd, None), w')"
    using w1 Combine_None [OF assms(1), of "[]"] by (simp add: ReconcileLBConfig_def run_defs)
  moreover have "set upd \<subseteq> set node_services"
    using run_stages_changed [OF run] lb_stages_services by auto
  ultimately show ?thesis by blast
qed

text \<open>Every service that a reconciliation marks as updated has a reload command.\<close>

lemma ReconcileLBConfig_changed:
  assumes "ReconcileLBConfig x h r sec loc w = (Ret (upd, err), w')" "Combine_spec x"
  shows "set upd \<subseteq> set node_services"
    "err = None \<Longrightarrow> w_fs w' p \<noteq> w_fs w p \<Longrightarrow>
      \<exists>s \<in> set (lb_stages x h r sec loc). stage_svc s \<in> set upd \<and>
        p \<in> {configfilePath r (stage_file s), digestfilePath r (stage_file s)}"
proof -
  show "set upd \<subseteq> set node_services"
    using assms(1)
    by (cases rule: ReconcileLBConfig_cases)
      (use lb_stages_services in \<open>fastforce dest!: run_stages_changed\<close>)+
  assume e: "err = None" and p: "w_fs w' p \<noteq> w_fs w p"
  show "\<exists>s \<in> set (lb_stages x h r sec loc). stage_svc s \<in> set upd \<and>
        p \<in> {configfilePath r (stage_file s), digestfilePath r (stage_file s)}"
    using assms(1)
  proof (cases rule: ReconcileLBConfig_cases)
    case (finished upd1 errs w1)
    then have "errs = []"
      using e Combine_None [OF assms(2), of errs] by simp
    moreover have "w_fs w' p \<noteq> w_fs w1 p"
      using p InitializeNodeStatus_frame [OF finished(2)] by simp
    ultimately show ?thesis
      using run_stages_changed [OF finished(3)] finished(1) by auto
  qed (use e in auto)
qed

text \<open>A reconciliation of a complete resource comes to an end with a report.\<close>

lemma reconcile_returns:
  assumes "client_GetLB x req = Inr c" "host_known r c"
    and "client_GetSecret x (Namespace (Meta c), CloudCredentials (Spec c)) = Inr sec"
    and "IngressBackend (Spec c) \<noteq> None" "vips_NAT (VirtualAddresses (Spec c)) \<noteq> None"
  shows "\<exists>e w' ns. Reconcile x h keys r req w = (Ret e, w') \<and> w_updates w' = w_updates w @ [w_lb w'] \<and>
    node_ptr (w_lb w') (Hostname r) = Some ns \<and> NodeStatus ns \<in> {NodeStatusReady, NodeStatusFailed} \<and>
    Spec (w_lb w') = Spec c \<and> Meta (w_lb w') = Meta c \<and>
    (\<forall>h'. h' \<noteq> Hostname r \<longrightarrow> node_ptr (w_lb w') h' = node_ptr c h')"
proof -
  obtain o1 w1 where r1: "ReconcileLBConfig x h r sec None (w\<lparr>w_lb := c\<rparr>) = (o1, w1)" by fastforce
  note frame = ReconcileLBConfig_frame [OF r1, simplified]
  have "\<exists>res. o1 = Ret res"
    using r1
  proof (cases rule: ReconcileLBConfig_cases)
    case (init_panic p)
    then show ?thesis using InitializeNodeStatus_frame assms(2) by fastforce
  next
    case (stage_panic p w2)
    have i: "registered r w2" "Spec (w_lb w2) = Spec c"
      using InitializeNodeStatus_frame [OF stage_panic(2)] assms(2) by simp_all
    show ?thesis
      using run_stages_returns [OF i(1) spec_only_lb_stages lb_stages_return [OF i(2) assms(4,5)], of h x h r sec None "([], [])"]
        stage_panic(3) by simp
  qed auto
  then obtain upd err where o1: "o1 = Ret (upd, err)" by auto
  obtain errors cmds where l: "reload_loop h r (keys upd) (case err of Some e \<Rightarrow> [e] | None \<Rightarrow> []) (w_cmds w1) = (errors, cmds)"
    by fastforce
  obtain ns where ns: "node_ptr (w_lb w1) (Hostname r) = Some ns"
    using frame assms(2) by (auto simp: registered_def)
  show ?thesis
    using Reconcile_after [where keys = keys, OF assms(1,3) r1 [unfolded o1] ns l] frame node_ptr_nodes [OF ns]
    by (simp add: node_ptr_set_node final_status_def)
qed

text \<open>The entry of this host after a successful initialisation.\<close>

definition host_status :: "ext \<Rightarrow> host \<Rightarrow> LoadBalancerConfigReconciler \<Rightarrow> LoadBalancerNodeStatus \<Rightarrow> LoadBalancerNodeStatus" where
  "host_status x h r ns =
     ns\<lparr>NodeStatus := NodeStatusConfiguring,
        PublicIP := projr (primaryIPAddressForInterface h (PublicInterface r) None),
        PrivateIP := projr (primaryIPAddressForInterface h (projr (ClusterNetworkInterface x r)) (Some (ClusterNetwork r))),
        VrrpIP := myInternalIP (projr (internalIPs r)) (IsPrimary (Keepalived_Config r))\<rparr>"

lemma InitializeNodeStatus_exact:
  assumes "InitializeNodeStatus x h r w0 = (Ret None, w1)" "node_ptr (w_lb w) (Hostname r) = Some ns"
  shows "InitializeNodeStatus x h r w =
    (Ret None, w\<lparr>w_lb := set_node (Hostname r) (host_status x h r ns) (w_lb w)\<rparr>)"
proof -
  have "init_nodes r (w_lb w) = w_lb w"
    using node_ptr_nodes [OF assms(2)] by (simp add: init_nodes_def)
  then show ?thesis
    using assms
    by (auto simp: InitializeNodeStatus_def Let_def host_status_def split: sum.splits option.splits)
qed

text \<open>
  A reconciliation whose files are all synchronised with the status of the resource: it only
  refreshes the entry of this host. It does not matter what else the files contain.
\<close>

lemma Reconcile_synced:
  assumes "Combine_spec x" "\<forall>f \<in> set managed_files. readable h r f" "\<And>c. client_StatusUpdate x c = None"
    and "keys [] = []" "client_GetLB x req = Inr c" "node_ptr c (Hostname r) = Some ns"
    and "client_GetSecret x (Namespace (Meta c), CloudCredentials (Spec c)) = Inr sec"
    and "InitializeNodeStatus x h r w0 = (Ret None, w1)"
    and "\<forall>s \<in> set (lb_stages x h r sec None). \<exists>d. rendered s c = Some d \<and> synced r (stage_file s) d (w\<lparr>w_lb := c\<rparr>)"
  defines "c' \<equiv> set_node (Hostname r) ((host_status x h r ns)\<lparr>NodeStatus := NodeStatusReady\<rparr>) c"
  shows "Reconcile x h keys r req w = (Ret None, w\<lparr>w_lb := c', w_updates := w_updates w @ [c']\<rparr>)"
proof -
  let ?c1 = "set_node (Hostname r) (host_status x h r ns) c"
  have init: "InitializeNodeStatus x h r (w\<lparr>w_lb := c\<rparr>) = (Ret None, w\<lparr>w_lb := ?c1\<rparr>)"
    using InitializeNodeStatus_exact [OF assms(8), of "w\<lparr>w_lb := c\<rparr>"] assms(6) by simp
  have ptr: "node_ptr ?c1 (Hostname r) = Some (host_status x h r ns)"
    using node_ptr_nodes [OF assms(6)] by (simp add: node_ptr_set_node)
  have "hash_in_status r f (w\<lparr>w_lb := ?c1\<rparr>) = hash_in_status r f (w\<lparr>w_lb := c\<rparr>)" for f
    using ptr assms(6) by (simp add: hash_in_status_def host_status_def)
  then have "\<forall>s \<in> set (lb_stages x h r sec None). readable h r (stage_file s) \<and>
      (\<exists>d. rendered s (w_lb (w\<lparr>w_lb := ?c1\<rparr>)) = Some d \<and> synced r (stage_file s) d (w\<lparr>w_lb := ?c1\<rparr>))"
    using assms(9) lb_stages_readable [OF assms(2)] spec_onlyD [OF spec_only_lb_stages, of _ x h r sec None ?c1 c]
    by (simp add: synced_def)
  then have "run_stages h r (lb_stages x h r sec None) ([], []) (w\<lparr>w_lb := ?c1\<rparr>) = (Ret ([], []), w\<lparr>w_lb := ?c1\<rparr>)"
    using run_stages_same [OF _ spec_only_lb_stages] ptr by (simp add: registered_def)
  then have R: "ReconcileLBConfig x h r sec None (w\<lparr>w_lb := c\<rparr>) = (Ret ([], None), w\<lparr>w_lb := ?c1\<rparr>)"
    using init Combine_None [OF assms(1), of "[]"] by (simp add: ReconcileLBConfig_def run_defs)
  have "reload_loop h r (keys []) (case None of Some e \<Rightarrow> [e] | None \<Rightarrow> []) (w_cmds (w\<lparr>w_lb := ?c1\<rparr>)) = ([], w_cmds w)"
    using assms(4) by simp
  moreover have "node_ptr (w_lb (w\<lparr>w_lb := ?c1\<rparr>)) (Hostname r) = Some (host_status x h r ns)"
    using ptr by simp
  moreover have "multierr_Combine x [None, None] = None"
    using Combine_two [OF assms(1)] by blast
  ultimately show ?thesis
    using Reconcile_after [where keys = keys, OF assms(5,7) R] assms(3) by (simp add: c'_def final_status_def)
qed

text \<open>What a reconciliation without an error has left: the next one finds all files synchronised.\<close>

lemma Reconcile_success:
  assumes "Combine_spec x" "\<forall>f \<in> set managed_files. readable h r f"
    and "client_GetLB x req = Inr c" "host_known r c"
    and "client_GetSecret x (Namespace (Meta c), CloudCredentials (Spec c)) = Inr sec"
    and "Reconcile x h keys r req w = (Ret None, w')"
  obtains ns w1 where "node_ptr (w_lb w') (Hostname r) = Some ns" "Spec (w_lb w') = Spec c" "Meta (w_lb w') = Meta c"
    "InitializeNodeStatus x h r (w\<lparr>w_lb := c\<rparr>) = (Ret None, w1)"
    "\<forall>s \<in> set (lb_stages x h r sec None). \<exists>d. rendered s (w_lb w') = Some d \<and> synced r (stage_file s) d w'"
proof -
  obtain upd err w1 ns errors where r1: "ReconcileLBConfig x h r sec None (w\<lparr>w_lb := c\<rparr>) = (Ret (upd, err), w1)"
    and ns: "node_ptr (w_lb w1) (Hostname r) = Some ns"
    and w': "w_lb w' = set_node (Hostname r) (ns\<lparr>NodeStatus := final_status errors\<rparr>) (w_lb w1)" "w_fs w' = w_fs w1"
    and err: "None = multierr_Combine x [err, client_StatusUpdate x (w_lb w')]"
    using assms(3,5,6) by (rule Reconcile_returned)
  from err have "err = None"
    using Combine_two [OF assms(1), of err] by metis
  note r1 = r1 [unfolded this]
  note ok = ReconcileLBConfig_ok [OF assms(1,2) _ r1, simplified, OF assms(4)]
  have frame: "Spec (w_lb w') = Spec c" "Meta (w_lb w') = Meta c"
    using ReconcileLBConfig_frame [OF r1] w'(1) by simp_all
  have ptr: "node_ptr (w_lb w') (Hostname r) = Some (ns\<lparr>NodeStatus := final_status errors\<rparr>)"
    using node_ptr_nodes [OF ns] by (simp add: w'(1) node_ptr_set_node)
  then have "hash_in_status r f w' = hash_in_status r f w1" for f
    using ns by (simp add: hash_in_status_def)
  then have "\<forall>s \<in> set (lb_stages x h r sec None). \<exists>d. rendered s (w_lb w') = Some d \<and> synced r (stage_file s) d w'"
    using ok(2) spec_onlyD [OF spec_only_lb_stages, of _ x h r sec None c "w_lb w'"] frame(1) w'(2)
    by (simp add: synced_def)
  then show ?thesis
    using that ptr frame ok(1) by blast
qed

section \<open>Properties\<close>

text \<open>
  C1: A valid configuration is fully applied. On a host without file-system faults, with a status
  that knows this host or no host yet and whose recorded hashes, if any, are truthful (a hash describes
  the text in its file, as every successful \<^verbatim>\<open>CompareAndWrite\<close> leaves it), the reconciliation of a valid configuration returns without
  error, and every one of the eleven managed files holds, under its header and stamp, the text
  rendered for it, with its digest file beside it.
\<close>

theorem valid_configuration_applied:
  assumes "Combine_spec x" "Keys_spec x" "valid_input x h r sec (w_lb w)" "host_known r (w_lb w)"
    and "\<forall>f \<in> set managed_files. healthy h r f \<and> truthful r f w"
  shows "\<exists>upd w'. ReconcileLBConfig x h r sec None w = (Ret (upd, None), w') \<and>
    set upd \<subseteq> set node_services \<and>
    (\<forall>s \<in> set (lb_stages x h r sec None). \<exists>d. stage_render s (w_lb w) = Ret (Inr d) \<and> holds_data r (stage_file s) d w') \<and>
    map stage_file (lb_stages x h r sec None) = managed_files"
proof -
  have "\<forall>f \<in> set managed_files. healthy h r f"
    using assms(5) by blast
  from ReconcileLBConfig_valid [OF assms(1-4) this] obtain upd w' where
    ok: "ReconcileLBConfig x h r sec None w = (Ret (upd, None), w')" "set upd \<subseteq> set node_services"
    by blast
  have "\<forall>f \<in> set managed_files. readable h r f"
    using assms(5) by (simp add: readable_def healthy_def)
  from ReconcileLBConfig_ok(3) [OF assms(1) this assms(4) ok(1)]
  have "\<forall>s \<in> set (lb_stages x h r sec None). \<exists>d. stage_render s (w_lb w) = Ret (Inr d) \<and> holds_data r (stage_file s) d w'"
    using assms(5) truthful_stages_fit by (simp add: rendered_eq)
  then show ?thesis
    using ok by (simp add: lb_stages_files)
qed

text \<open>
  C2: Reconciliation is idempotent. After a reconciliation that returned no error, reconciling the
  resource as it was stored writes no file, runs no command, returns no error and reports the host
  as ready.
\<close>

theorem reconcile_idempotent:
  assumes "Combine_spec x" "\<forall>f \<in> set managed_files. readable h r f" "\<And>c. client_StatusUpdate x c = None"
    and "keys [] = []"
    and "client_GetLB x req = Inr c" "host_known r c"
    and "client_GetSecret x (Namespace (Meta c), CloudCredentials (Spec c)) = Inr sec"
    and "Reconcile x h keys r req w = (Ret None, w')"
  shows "\<exists>w''. Reconcile (x\<lparr>client_GetLB := \<lambda>_. Inr (w_lb w')\<rparr>) h keys r req w' = (Ret None, w'') \<and>
    w_fs w'' = w_fs w' \<and> w_cmds w'' = w_cmds w' \<and>
    map_option NodeStatus (node_ptr (w_lb w'') (Hostname r)) = Some NodeStatusReady"
proof -
  obtain ns w1 where ns: "node_ptr (w_lb w') (Hostname r) = Some ns" "Spec (w_lb w') = Spec c" "Meta (w_lb w') = Meta c"
    and init: "InitializeNodeStatus x h r (w\<lparr>w_lb := c\<rparr>) = (Ret None, w1)"
    and sync: "\<forall>s \<in> set (lb_stages x h r sec None). \<exists>d. rendered s (w_lb w') = Some d \<and> synced r (stage_file s) d w'"
    using assms(1,2,5-8) by (rule Reconcile_success)
  let ?x = "x\<lparr>client_GetLB := \<lambda>_. Inr (w_lb w')\<rparr>"
  have "Combine_spec ?x"
    using assms(1) by (simp add: Combine_spec_def)
  then show ?thesis
    using Reconcile_synced [of ?x h r keys req "w_lb w'" ns sec, OF _ assms(2) _ assms(4) _ ns(1)] assms(3,7) ns init sync
      node_ptr_nodes [OF ns(1)]
    by (simp add: node_ptr_set_node)
qed

text \<open>
  C10: A reconciliation always comes to an end with a report, when the optional parts are present
  and the status knows this host or is empty: it does not panic, it submits exactly one status
  update, that update marks this host as ready or failed and leaves the specification, the
  metadata and the status of every other host unchanged.
\<close>

theorem reconcile_reports:
  assumes "client_GetLB x req = Inr c" "host_known r c"
    and "client_GetSecret x (Namespace (Meta c), CloudCredentials (Spec c)) = Inr sec"
    and "IngressBackend (Spec c) \<noteq> None" "vips_NAT (VirtualAddresses (Spec c)) \<noteq> None"
  shows "\<exists>e w' ns. Reconcile x h keys r req w = (Ret e, w') \<and> w_updates w' = w_updates w @ [w_lb w'] \<and>
    node_ptr (w_lb w') (Hostname r) = Some ns \<and> NodeStatus ns \<in> {NodeStatusReady, NodeStatusFailed} \<and>
    Spec (w_lb w') = Spec c \<and> Meta (w_lb w') = Meta c \<and>
    (\<forall>h'. h' \<noteq> Hostname r \<longrightarrow> node_ptr (w_lb w') h' = node_ptr c h')"
  using reconcile_returns [OF assms] .

text \<open>
  C8: Changed files are picked up. When a reconciliation on the real root directory returns no
  error, every path that differs on disk afterwards is a managed file or the digest of one, and the
  reload command of the service that owns the file has been run in this reconciliation.
\<close>

theorem change_implies_reload:
  assumes "Combine_spec x" "\<And>us. set (keys us) = set us" "ConfigRoot r = ''/''"
    and "client_GetLB x req = Inr c"
    and "client_GetSecret x (Namespace (Meta c), CloudCredentials (Spec c)) = Inr sec"
    and "Reconcile x h keys r req w = (Ret None, w')" "w_fs w' p \<noteq> w_fs w p"
  shows "\<exists>s \<in> set (lb_stages x h r sec None). \<exists>new. w_cmds w' = w_cmds w @ new \<and>
    p \<in> {configfilePath r (stage_file s), digestfilePath r (stage_file s)} \<and> reload_argv (stage_svc s) \<in> set new"
proof -
  obtain upd err w1 ns errors cmds where
    r1: "ReconcileLBConfig x h r sec None (w\<lparr>w_lb := c\<rparr>) = (Ret (upd, err), w1)"
    and l: "reload_loop h r (keys upd) (case err of Some e \<Rightarrow> [e] | None \<Rightarrow> []) (w_cmds w1) = (errors, cmds)"
    and w': "w_fs w' = w_fs w1" "w_cmds w' = cmds"
    and err: "None = multierr_Combine x [err, client_StatusUpdate x (w_lb w')]"
    using assms(4,5,6) by (rule Reconcile_returned)
  from err have e: "err = None"
    using Combine_two [OF assms(1), of err] by metis
  obtain s where s: "s \<in> set (lb_stages x h r sec None)" "stage_svc s \<in> set upd"
    "p \<in> {configfilePath r (stage_file s), digestfilePath r (stage_file s)}"
    using ReconcileLBConfig_changed(2) [OF r1 assms(1) e, of p] assms(7) w'(1) by auto
  have "w_cmds w' = w_cmds w @ concat (map (snd \<circ> Reload h) (keys upd))"
    using l w'(2) reload_loop_on [OF assms(3), of h "keys upd"] ReconcileLBConfig_frame [OF r1] by simp
  moreover have "reload_argv (stage_svc s) \<in> set (concat (map (snd \<circ> Reload h) (keys upd)))"
    using s(2) assms(2) Reload_known(1) [OF lb_stages_services [OF s(1)], of h]
    by (auto intro!: bexI [of _ "stage_svc s"])
  ultimately show ?thesis
    using s by blast
qed

text \<open>
  C30: A host that is missing from a non-empty status can never be reconciled: whatever the host,
  the network and the file system look like, the reconciliation panics. The second load balancer
  is in this position as soon as the first one has written its status.
\<close>

theorem unregistered_host_panics:
  assumes "client_GetLB x req = Inr c" "Nodes (Status c) = Some m" "node_ptr c (Hostname r) = None"
    and "client_GetSecret x (Namespace (Meta c), CloudCredentials (Spec c)) = Inr sec"
  shows "\<exists>w'. Reconcile x h keys r req w = (Panic (NilDereference ''Status.Nodes[hostname]''), w')"
proof -
  have "\<not> host_known r c"
    using assms(2,3) by (simp add: host_known_def)
  moreover have ini: "init_nodes r c = c"
    using assms(2) by (simp add: init_nodes_def)
  ultimately show ?thesis
    using assms
    by (auto simp: Reconcile_def ReconcileLBConfig_def InitializeNodeStatus_def run_defs Let_def
        split: sum.splits prod.splits)
qed

text \<open>
  C31: The two parts of the specification that are optional in the API are needed by the code: once
  the node status is initialised, a configuration without an ingress backend or without a NAT
  address makes the reconciliation panic.
\<close>

theorem missing_optional_part_panics:
  assumes "InitializeNodeStatus x h r w = (Ret None, w1)" "registered r w1"
    and "IngressBackend (Spec (w_lb w)) = None \<or> vips_NAT (VirtualAddresses (Spec (w_lb w))) = None"
  shows "\<exists>p w'. ReconcileLBConfig x h r sec loc w = (Panic p, w')"
proof -
  have spec: "Spec (w_lb w1) = Spec (w_lb w)"
    using InitializeNodeStatus_frame [OF assms(1)] by simp
  have "\<exists>s \<in> set (lb_stages x h r sec loc). \<exists>p. stage_render s (w_lb w1) = Panic p"
    using assms(3) spec by (auto simp: lb_stages_def RenderHAProxyIngressConfig_def RenderFirewallDirectRules_def)
  then obtain p w' where "run_stages h r (lb_stages x h r sec loc) ([], []) w1 = (Panic p, w')"
    using run_stages_panics [OF spec_only_lb_stages, of x h r sec loc w1 h r "([], [])"] by blast
  then show ?thesis
    using assms(1) by (simp add: ReconcileLBConfig_def run_defs)
qed

text \<open>
  C33: A failed reload is not retried. When the files are in order but the command of some changed
  service fails, the host is marked as failed but the reconciliation returns no error, so the work
  queue does not schedule it again (and the next one finds nothing to reload).
\<close>

theorem reload_failure_unreported:
  assumes "Combine_spec x" "\<And>us. set (keys us) = set us" "ConfigRoot r = ''/''" "\<And>c. client_StatusUpdate x c = None"
    and "client_GetLB x req = Inr c" "host_known r c"
    and "client_GetSecret x (Namespace (Meta c), CloudCredentials (Spec c)) = Inr sec"
    and "ReconcileLBConfig x h r sec None (w\<lparr>w_lb := c\<rparr>) = (Ret (upd, None), w1)"
    and "svc \<in> set upd" "exec_Run h (reload_argv svc) = Some e"
  shows "\<exists>w'. Reconcile x h keys r req w = (Ret None, w') \<and>
    map_option NodeStatus (node_ptr (w_lb w') (Hostname r)) = Some NodeStatusFailed"
proof -
  obtain ns where ns: "node_ptr (w_lb w1) (Hostname r) = Some ns"
    using ReconcileLBConfig_frame [OF assms(8)] assms(6) by (auto simp: registered_def)
  have "svc \<in> set node_services"
    using ReconcileLBConfig_changed(1) [OF assms(8,1)] assms(9) by auto
  then have "fst (Reload h svc) \<noteq> None"
    using Reload_known(2) assms(10) by simp
  then have errs: "List.map_filter (fst \<circ> Reload h) (keys upd) \<noteq> []"
    using assms(2,9) by (auto simp: List.map_filter_def filter_empty_conv)
  have l: "reload_loop h r (keys upd) (case None of Some e \<Rightarrow> [e] | None \<Rightarrow> []) (w_cmds w1) =
      (List.map_filter (fst \<circ> Reload h) (keys upd), w_cmds w1 @ concat (map (snd \<circ> Reload h) (keys upd)))"
    using reload_loop_on [OF assms(3)] by simp
  have "multierr_Combine x [None, None] = None"
    using Combine_two [OF assms(1)] by blast
  then show ?thesis
    using Reconcile_after [where keys = keys, OF assms(5,7,8) ns l] node_ptr_nodes [OF ns] errs assms(4)
    by (simp add: node_ptr_set_node final_status_def)
qed

section \<open>Witnesses\<close>

definition empty_world :: world where
  "empty_world = \<lparr>w_fs = Map.empty, w_lb = sample_lbconfig, w_cmds = [], w_updates = []\<rparr>"

lemma exec_Run_irrelevant:
  "macAddressForInterface (h\<lparr>exec_Run := g\<rparr>) i = macAddressForInterface h i"
  "primaryIPAddressForInterface (h\<lparr>exec_Run := g\<rparr>) i n = primaryIPAddressForInterface h i n"
  by (simp_all add: macAddressForInterface_def primaryIPAddressForInterface_def)

lemma sample_network_ok: "network_ok sample_ext (sample_host\<lparr>exec_Run := g\<rparr>) sample_reconciler"
proof -
  have "network_ok sample_ext sample_host sample_reconciler"
    by code_simp
  then show ?thesis
    unfolding network_ok_def exec_Run_irrelevant .
qed

lemma sample_input_ok:
  "credentials_ok sample_lbconfig sample_secret" "addresses_ok sample_lbconfig" "backends_ok sample_ext sample_lbconfig"
  "Distribution (Spec sample_lbconfig) = ''openshift''"
  by code_simp+

lemma sample_valid: "valid_input sample_ext (sample_host\<lparr>exec_Run := g\<rparr>) sample_reconciler sample_secret sample_lbconfig"
  by (simp add: valid_input_def sample_input_ok sample_network_ok)

lemma sample_known: "host_known sample_reconciler sample_lbconfig"
  by (simp add: host_known_def sample_lbconfig_def)

lemma sample_host_facts:
  "\<forall>f \<in> set managed_files. healthy (sample_host\<lparr>exec_Run := g\<rparr>) sample_reconciler f"
  "\<forall>f \<in> set managed_files. readable (sample_host\<lparr>exec_Run := g\<rparr>) sample_reconciler f"
  by (simp_all add: healthy_def readable_def sample_host_def)

lemma sample_host_update: "sample_host\<lparr>exec_Run := \<lambda>_. None\<rparr> = sample_host"
  by (simp add: sample_host_def)

lemma sample_client:
  "client_GetLB sample_ext req = Inr sample_lbconfig"
  "client_GetSecret sample_ext (Namespace (Meta sample_lbconfig), CloudCredentials (Spec sample_lbconfig)) = Inr sample_secret"
  "client_StatusUpdate sample_ext c = None"
  by (simp_all add: sample_ext_def)

lemma empty_world_simps [simp]:
  "w_lb empty_world = sample_lbconfig" "w_fs empty_world = Map.empty" "empty_world\<lparr>w_lb := sample_lbconfig\<rparr> = empty_world"
  by (simp_all add: empty_world_def)

lemma empty_world_truthful: "truthful r f empty_world"
  by (simp add: truthful_def stored_def)

text \<open>The sample reconciles without error and changes the sysctl file.\<close>

lemma sample_reconciles:
  obtains upd w1 where
    "ReconcileLBConfig sample_ext (sample_host\<lparr>exec_Run := g\<rparr>) sample_reconciler sample_secret None empty_world = (Ret (upd, None), w1)"
    "w_fs w1 (configfilePath sample_reconciler SysctlConfFile) \<noteq> None" "upd \<noteq> []"
proof -
  let ?h = "sample_host\<lparr>exec_Run := g\<rparr>"
  obtain upd w1 where r: "ReconcileLBConfig sample_ext ?h sample_reconciler sample_secret None empty_world = (Ret (upd, None), w1)"
    using ReconcileLBConfig_valid [OF sample_specs, of ?h sample_reconciler sample_secret empty_world None]
      sample_valid sample_known sample_host_facts(1) by auto
  have "(Sysctl, SysctlConfFile, 420, \<lambda>c. Ret (RenderSysctlConf sample_reconciler c)) \<in>
      set (lb_stages sample_ext ?h sample_reconciler sample_secret None)"
    by (simp add: lb_stages_def)
  then obtain d where "holds_data sample_reconciler SysctlConfFile d w1"
    using ReconcileLBConfig_ok(3) [OF sample_Combine sample_host_facts(2) _ r] sample_known truthful_stages_fit [of sample_reconciler empty_world]
      empty_world_truthful by fastforce
  then have f: "w_fs w1 (configfilePath sample_reconciler SysctlConfFile) \<noteq> None"
    by (auto simp: holds_data_def stored_def)
  then have "upd \<noteq> []"
    using ReconcileLBConfig_changed(2) [OF r sample_Combine, of "configfilePath sample_reconciler SysctlConfFile"] by auto
  then show ?thesis
    using that r f by blast
qed

lemma sample_Reconcile:
  obtains w' where "Reconcile sample_ext sample_host rev sample_reconciler req empty_world = (Ret None, w')"
    "w_fs w' (configfilePath sample_reconciler SysctlConfFile) \<noteq> None"
proof -
  obtain upd w1 where r: "ReconcileLBConfig sample_ext sample_host sample_reconciler sample_secret None empty_world = (Ret (upd, None), w1)"
    "w_fs w1 (configfilePath sample_reconciler SysctlConfFile) \<noteq> None"
    using sample_reconciles [of "\<lambda>_. None"] unfolding sample_host_update by blast
  then have r': "ReconcileLBConfig sample_ext sample_host sample_reconciler sample_secret None (empty_world\<lparr>w_lb := sample_lbconfig\<rparr>) =
      (Ret (upd, None), w1)"
    by simp
  obtain ns where ns: "node_ptr (w_lb w1) (Hostname sample_reconciler) = Some ns"
    using ReconcileLBConfig_frame [OF r(1)] sample_known by (auto simp: registered_def)
  obtain errors cmds where l: "reload_loop sample_host sample_reconciler (rev upd)
      (case None of Some e \<Rightarrow> [e] | None \<Rightarrow> []) (w_cmds w1) = (errors, cmds)"
    by fastforce
  show ?thesis
    using that Reconcile_after [where keys = rev, OF sample_client(1,2) r' ns l] r(2)
      Combine_two [OF sample_Combine, of None None]
    by (simp add: sample_client(3))
qed

theorem valid_configuration_applied_witness:
  "\<exists>upd w'. ReconcileLBConfig sample_ext sample_host sample_reconciler sample_secret None empty_world = (Ret (upd, None), w') \<and>
     (\<forall>s \<in> set (lb_stages sample_ext sample_host sample_reconciler sample_secret None).
        \<exists>d. stage_render s sample_lbconfig = Ret (Inr d) \<and> holds_data sample_reconciler (stage_file s) d w')"
  using valid_configuration_applied [OF sample_specs, of sample_host sample_reconciler sample_secret empty_world]
    sample_valid [of "\<lambda>_. None"] sample_known sample_host_facts(1) [of "\<lambda>_. None"] empty_world_truthful
  unfolding sample_host_update by auto

theorem reconcile_idempotent_witness:
  "\<exists>w' w''. Reconcile sample_ext sample_host rev sample_reconciler (''default'', ''test-lb'') empty_world = (Ret None, w') \<and>
     Reconcile (sample_ext\<lparr>client_GetLB := \<lambda>_. Inr (w_lb w')\<rparr>) sample_host rev sample_reconciler (''default'', ''test-lb'') w' =
       (Ret None, w'') \<and> w_fs w'' = w_fs w'"
proof -
  obtain w' where r: "Reconcile sample_ext sample_host rev sample_reconciler (''default'', ''test-lb'') empty_world = (Ret None, w')"
    using sample_Reconcile .
  show ?thesis
    using reconcile_idempotent [OF sample_Combine sample_host_facts(2) [of "\<lambda>_. None", unfolded sample_host_update]
        sample_client(3) _ sample_client(1) sample_known sample_client(2) r] r
    by auto
qed

theorem reconcile_reports_witness:
  "\<exists>e w'. Reconcile sample_ext sample_host rev sample_reconciler (''default'', ''test-lb'') empty_world = (Ret e, w') \<and>
     w_updates w' = [w_lb w']"
proof -
  have "IngressBackend (Spec sample_lbconfig) \<noteq> None" "vips_NAT (VirtualAddresses (Spec sample_lbconfig)) \<noteq> None"
    by code_simp+
  from reconcile_reports [where req = "(''default'', ''test-lb'')" and h = sample_host and keys = rev and w = empty_world,
      OF sample_client(1) sample_known sample_client(2) this]
  show ?thesis
    by (auto simp: empty_world_def)
qed

theorem change_implies_reload_witness:
  "\<exists>s w'. Reconcile sample_ext sample_host rev sample_reconciler (''default'', ''test-lb'') empty_world = (Ret None, w') \<and>
     reload_argv (stage_svc s) \<in> set (w_cmds w') \<and>
     configfilePath sample_reconciler SysctlConfFile \<in>
       {configfilePath sample_reconciler (stage_file s), digestfilePath sample_reconciler (stage_file s)}"
proof -
  obtain w' where r: "Reconcile sample_ext sample_host rev sample_reconciler (''default'', ''test-lb'') empty_world = (Ret None, w')"
    "w_fs w' (configfilePath sample_reconciler SysctlConfFile) \<noteq> None"
    using sample_Reconcile .
  have root: "ConfigRoot sample_reconciler = ''/''"
    by (simp add: sample_reconciler_def)
  show ?thesis
    using change_implies_reload [OF sample_Combine _ root sample_client(1,2) r(1),
        of "configfilePath sample_reconciler SysctlConfFile"] r
    by (auto simp: empty_world_def simp del: insert_iff)
qed

theorem unregistered_host_panics_witness:
  "\<exists>w'. Reconcile (sample_ext\<lparr>client_GetLB := \<lambda>_. Inr (sample_lbconfig\<lparr>Status :=
          \<lparr>Nodes = Some [''lb0'' \<mapsto> Some zeroNodeStatus], Conditions = []\<rparr>\<rparr>)\<rparr>)
       sample_host rev sample_reconciler (''default'', ''test-lb'') empty_world =
     (Panic (NilDereference ''Status.Nodes[hostname]''), w')"
  by (rule unregistered_host_panics [where c = "sample_lbconfig\<lparr>Status :=
        \<lparr>Nodes = Some [''lb0'' \<mapsto> Some zeroNodeStatus], Conditions = []\<rparr>\<rparr>" and m = "[''lb0'' \<mapsto> Some zeroNodeStatus]" and sec = sample_secret])
    (simp_all add: node_ptr_def sample_reconciler_def sample_ext_def)

theorem missing_optional_part_panics_witness:
  "\<exists>p w'. ReconcileLBConfig sample_ext sample_host sample_reconciler sample_secret None
     (empty_world\<lparr>w_lb := sample_lbconfig\<lparr>Spec := sample_spec\<lparr>IngressBackend := None\<rparr>\<rparr>\<rparr>) = (Panic p, w')"
proof -
  let ?w = "empty_world\<lparr>w_lb := sample_lbconfig\<lparr>Spec := sample_spec\<lparr>IngressBackend := None\<rparr>\<rparr>\<rparr>"
  have known: "host_known sample_reconciler (w_lb ?w)"
    by (simp add: host_known_def sample_lbconfig_def)
  obtain w1 where "InitializeNodeStatus sample_ext sample_host sample_reconciler ?w = (Ret None, w1)"
    using valid_init [OF sample_network_ok [of "\<lambda>_. None", unfolded sample_host_update] known] by blast
  moreover from this have "registered sample_reconciler w1"
    using InitializeNodeStatus_frame known by blast
  ultimately show ?thesis
    by (rule missing_optional_part_panics) simp
qed

theorem reload_failure_unreported_witness:
  "\<exists>w'. Reconcile sample_ext (sample_host\<lparr>exec_Run := \<lambda>_. Some (Errorf ''exit status 1'')\<rparr>) rev sample_reconciler
       (''default'', ''test-lb'') empty_world = (Ret None, w') \<and>
     map_option NodeStatus (node_ptr (w_lb w') ''lb1'') = Some NodeStatusFailed"
proof -
  let ?h = "sample_host\<lparr>exec_Run := \<lambda>_. Some (Errorf ''exit status 1'')\<rparr>"
  obtain upd w1 where r: "ReconcileLBConfig sample_ext ?h sample_reconciler sample_secret None empty_world = (Ret (upd, None), w1)"
    "upd \<noteq> []"
    using sample_reconciles by blast
  have "ReconcileLBConfig sample_ext ?h sample_reconciler sample_secret None (empty_world\<lparr>w_lb := sample_lbconfig\<rparr>) =
      (Ret (upd, None), w1)" "hd upd \<in> set upd" "exec_Run ?h (reload_argv (hd upd)) = Some (Errorf ''exit status 1'')"
    "ConfigRoot sample_reconciler = ''/''" "Hostname sample_reconciler = ''lb1''"
    using r by (simp_all add: sample_reconciler_def)
  then show ?thesis
    using reload_failure_unreported [OF sample_Combine, of rev sample_reconciler, OF _ _ sample_client(3) sample_client(1)
        sample_known sample_client(2)] by (metis set_rev)
qed

end
