(* ===== verification/RenderFile.thy ===== *)
theory RenderFile
  imports ReconcilerCorrect
begin

text \<open>
  \<^verbatim>\<open>internal/render/render.go\<close>: rendering the files of a load balancer from a resource in a YAML
  file, with backends given on the command line. The YAML package is a parameter: a reader that
  yields the documents of a file and then the end of the file or an error, and the strict decoders,
  which may have changed the object even when they report an error. What the function prints is
  not modelled.
\<close>

section \<open>Definitions\<close>

record yaml =
  yaml_Read :: "string \<Rightarrow> string list \<times> error option"
  UnmarshalStrict_LB :: "string \<Rightarrow> LoadBalancerConfig \<Rightarrow> LoadBalancerConfig \<times> error option"
  UnmarshalStrict_Secret :: "string \<Rightarrow> Secret \<Rightarrow> Secret \<times> error option"

text \<open>The zero values the documents are decoded into.\<close>

definition zeroLB :: LoadBalancerConfig where
  "zeroLB =
     \<lparr>Meta = \<lparr>Namespace = [], Name = [], UID = [], Generation = 0\<rparr>,
      Spec = \<lparr>Cloud = [], CloudCredentials = [], Distribution = [],
        VirtualAddresses = \<lparr>vips_API = [], vips_Ingress = [], vips_NAT = None\<rparr>,
        APIBackend = \<lparr>NodeSelector = \<lparr>MatchLabels = Map.empty, MatchExpressions = []\<rparr>\<rparr>,
        IngressBackend = None, FirewallRules = []\<rparr>,
      Status = \<lparr>Nodes = None, Conditions = []\<rparr>\<rparr>"

definition zeroSecret :: Secret where
  "zeroSecret = \<lparr>sec_Namespace = [], sec_Name = [], sec_Data = Map.empty, sec_StringData = Map.empty\<rparr>"

fun parse_backends :: "string \<Rightarrow> int \<Rightarrow> string list \<Rightarrow> Backend list result" where
  "parse_backends prefix i [] = Inr []"
| "parse_backends prefix i (be # bes) =
     (case ParseAddr be of
        Inl err \<Rightarrow> Inl (Wrapf (''failed to parse backend ip '' @ be @ '' for '' @ prefix) err)
      | Inr beip \<Rightarrow>
         (case parse_backends prefix (i + 1) bes of
            Inl err \<Rightarrow> Inl err
          | Inr bs \<Rightarrow> Inr (\<lparr>be_Name = prefix @ ''_'' @ int_str i, be_Address = Addr_String beip\<rparr> # bs)))"

definition parseBackendString :: "string \<Rightarrow> string \<Rightarrow> Backend list result" where
  "parseBackendString prefix backends = parse_backends prefix 0 (split_on CHR '','' backends)"

text \<open>Each document is decoded into the resource and into the secret; decoding errors are ignored.\<close>

definition decode_doc :: "yaml \<Rightarrow> string \<Rightarrow> LoadBalancerConfig \<times> Secret \<Rightarrow> LoadBalancerConfig \<times> Secret" where
  "decode_doc y doc s =
     (fst (UnmarshalStrict_LB y doc (fst s)), fst (UnmarshalStrict_Secret y doc (snd s)))"

definition merge_StringData :: "Secret \<Rightarrow> Secret" where
  "merge_StringData creds = creds\<lparr>sec_Data := sec_Data creds ++ sec_StringData creds\<rparr>"

text \<open>As in the code, the ingress backends are parsed from the argument with the API backends.\<close>

definition RenderFile ::
  "yaml \<Rightarrow> ext \<Rightarrow> host \<Rightarrow> LoadBalancerConfigReconciler \<Rightarrow> string \<Rightarrow> string \<Rightarrow> string \<Rightarrow> (world, error option) run" where
  "RenderFile y x h r path apiBackends ingressBackends = (\<lambda>w.
     case os_ReadFile h path (w_fs w) of
       Inl err \<Rightarrow> (Ret (Some (Wrapf ''failed to read managed resource file'' err)), w)
     | Inr raw \<Rightarrow>
     case parseBackendString ''api'' apiBackends of
       Inl err \<Rightarrow> (Ret (Some err), w)
     | Inr api \<Rightarrow>
     case parseBackendString ''ingress'' apiBackends of
       Inl err \<Rightarrow> (Ret (Some err), w)
     | Inr ingress \<Rightarrow>
     case yaml_Read y raw of
       (docs, Some err) \<Rightarrow> (Ret (Some (Wrapf ''failed to read input file'' err)), w)
     | (docs, None) \<Rightarrow>
        (let (lbconfig, creds) = fold (decode_doc y) docs (zeroLB, zeroSecret) in
         case ReconcileLBConfig x h r (merge_StringData creds)
                (Some \<lparr>local_API = api, local_Ingress = ingress\<rparr>) (w\<lparr>w_lb := lbconfig\<rparr>) of
           (Panic p, w') \<Rightarrow> (Panic p, w')
         | (Ret (updated, Some err), w') \<Rightarrow> (Ret (Some (Wrapf ''failed to render loadbalancerconfig file'' err)), w')
         | (Ret (updated, None), w') \<Rightarrow> (Ret None, w')))"

section \<open>Lemmas\<close>

lemma string4_chars: "c \<in> set (string4 w) \<Longrightarrow> c = CHR ''.'' \<or> is_digit c"
  by (auto simp: string4_def octets4_def dest!: dec_str_digits [rotated])

lemma parse_backends_offset:
  "parse_backends prefix i (map string4 ws) =
     Inr (map2 (\<lambda>k w. \<lparr>be_Name = prefix @ ''_'' @ int_str k, be_Address = string4 w\<rparr>)
       (map (\<lambda>n. i + int n) [0..<length ws]) ws)"
proof (induction ws arbitrary: i)
  case Nil
  then show ?case by simp
next
  case (Cons w ws)
  have "map (\<lambda>n. i + int n) [0..<Suc (length ws)] = i # map (\<lambda>n. i + 1 + int n) [0..<length ws]"
    by (subst upt_conv_Cons) (simp_all add: map_Suc_upt [symmetric] ac_simps del: upt_Suc map_Suc_upt)
  with Cons show ?case by (simp add: ParseAddr_string4 del: upt_Suc)
qed

text \<open>The ingress backends of the command line have no influence on the result.\<close>

lemma ingress_backends_ignored:
  "RenderFile y x h r path apiBackends i1 = RenderFile y x h r path apiBackends i2"
  by (simp add: RenderFile_def)

lemma RenderFile_success:
  assumes "RenderFile y x h r path apiBackends ingressBackends w = (Ret None, w')"
  obtains raw api ingress docs lbconfig creds updated where
    "os_ReadFile h path (w_fs w) = Inr raw"
    "parseBackendString ''api'' apiBackends = Inr api" "parseBackendString ''ingress'' apiBackends = Inr ingress"
    "yaml_Read y raw = (docs, None)" "fold (decode_doc y) docs (zeroLB, zeroSecret) = (lbconfig, creds)"
    "ReconcileLBConfig x h r (merge_StringData creds) (Some \<lparr>local_API = api, local_Ingress = ingress\<rparr>)
       (w\<lparr>w_lb := lbconfig\<rparr>) = (Ret (updated, None), w')"
  using assms
  by (auto simp: RenderFile_def split: sum.splits prod.splits option.splits outcome.splits)

section \<open>Properties\<close>

text \<open>
  C38: A list of IPv4 addresses separated by commas is parsed into backends with these addresses, in
  this order, named by the prefix and their position.
\<close>

theorem backend_string_round_trip:
  assumes "ws \<noteq> []"
  shows "parseBackendString prefix (join_with '','' (map string4 ws)) =
    Inr (numbered (\<lambda>k w. \<lparr>be_Name = prefix @ ''_'' @ int_str k, be_Address = string4 w\<rparr>) ws)"
proof -
  have "CHR '','' \<notin> set (string4 w)" for w
    using string4_chars [of "CHR '',''" w] by (auto simp: is_digit_def)
  then have "split_on CHR '','' (join_with '','' (map string4 ws)) = map string4 ws"
    using assms by (intro split_join) auto
  then show ?thesis
    using parse_backends_offset [of prefix 0 ws] by (simp add: parseBackendString_def numbered_def)
qed

theorem backend_string_round_trip_witness:
  "parseBackendString ''api'' ''172.18.200.10,172.18.200.11'' =
     Inr [\<lparr>be_Name = ''api_0'', be_Address = ''172.18.200.10''\<rparr>, \<lparr>be_Name = ''api_1'', be_Address = ''172.18.200.11''\<rparr>]"
proof -
  have "join_with '','' (map string4 [2886912010, 2886912011]) = ''172.18.200.10,172.18.200.11''"
    "numbered (\<lambda>k w. \<lparr>be_Name = ''api'' @ ''_'' @ int_str k, be_Address = string4 w\<rparr>) [2886912010, 2886912011] =
     [\<lparr>be_Name = ''api_0'', be_Address = ''172.18.200.10''\<rparr>, \<lparr>be_Name = ''api_1'', be_Address = ''172.18.200.11''\<rparr>]"
    by code_simp+
  then show ?thesis
    using backend_string_round_trip [of "[2886912010, 2886912011]" "''api''"] by simp
qed

text \<open>
  C29: Rendering from a file, where the API and the ingress are served by the same backends: when the
  flags \<^verbatim>\<open>api-backends\<close> and \<^verbatim>\<open>ingress-backends\<close> have the same value and rendering succeeds, every
  managed file holds the text rendered from the decoded resource, the credentials (string data
  overrides data) and the backends of the flags, provided that the hashes recorded in the decoded
  status are truthful; no command was run and no status update sent. With different values the flag
  for the ingress is ignored, see \<open>ingress_backends_ignored\<close>.
\<close>

theorem render_file_applies:
  assumes "Combine_spec x" "\<forall>f \<in> set managed_files. readable h r f"
    and "os_ReadFile h path (w_fs w) = Inr raw" "yaml_Read y raw = (docs, None)"
    and "fold (decode_doc y) docs (zeroLB, zeroSecret) = (c, creds)"
    and "host_known r c" "\<forall>f \<in> set managed_files. truthful r f (w\<lparr>w_lb := c\<rparr>)"
    and "RenderFile y x h r path apiBackends ingressBackends w = (Ret None, w')"
    and "ingressBackends = apiBackends"
  shows "\<exists>api ingress. parseBackendString ''api'' apiBackends = Inr api \<and>
    parseBackendString ''ingress'' ingressBackends = Inr ingress \<and>
    w_cmds w' = w_cmds w \<and> w_updates w' = w_updates w \<and>
    (\<forall>s \<in> set (lb_stages x h r (merge_StringData creds) (Some \<lparr>local_API = api, local_Ingress = ingress\<rparr>)).
       \<exists>d. stage_render s c = Ret (Inr d) \<and> holds_data r (stage_file s) d w')"
proof -
  obtain api ingress upd where
    "parseBackendString ''api'' apiBackends = Inr api" "parseBackendString ''ingress'' apiBackends = Inr ingress"
    and r: "ReconcileLBConfig x h r (merge_StringData creds) (Some \<lparr>local_API = api, local_Ingress = ingress\<rparr>)
       (w\<lparr>w_lb := c\<rparr>) = (Ret (upd, None), w')"
    using RenderFile_success [OF assms(8)] assms(3-5) by (metis prod.inject sum.inject(2))
  then show ?thesis
    unfolding assms(9) using ReconcileLBConfig_ok(3) [OF assms(1,2) _ r] assms(6) truthful_stages_fit [OF assms(7)] ReconcileLBConfig_frame [OF r]
    by (auto simp: rendered_eq)
qed

text \<open>
  Without the list of API backends, rendering from a file always fails, before anything is
  written: the empty string is not the empty list of backends but one backend that does not parse.
\<close>

theorem empty_backends_fail:
  "\<exists>e. RenderFile y x h r path [] ingressBackends w = (Ret (Some e), w)"
proof -
  have "\<exists>e. ParseAddr [] = Inl e"
    by (simp add: ParseAddr_def)
  then show ?thesis
    by (auto simp: RenderFile_def parseBackendString_def split: sum.splits)
qed

section \<open>Witnesses\<close>

text \<open>A file with one document for the resource and one for its credentials.\<close>

definition sample_yaml :: yaml where
  "sample_yaml =
     \<lparr>yaml_Read = (\<lambda>raw. ([''lb'', ''secret''], None)),
      UnmarshalStrict_LB = (\<lambda>doc c. if doc = ''lb'' then (sample_lbconfig, None) else (c, Some (Errorf ''kind''))),
      UnmarshalStrict_Secret = (\<lambda>doc c. if doc = ''secret'' then (sample_secret, None) else (c, Some (Errorf ''kind'')))\<rparr>"

definition file_world :: world where
  "file_world = empty_world\<lparr>w_fs := [''/tmp/lb.yaml'' \<mapsto> \<lparr>Content = ''lb'', Perm = 420\<rparr>]\<rparr>"

lemma sample_docs:
  "os_ReadFile sample_host ''/tmp/lb.yaml'' (w_fs file_world) = Inr ''lb''"
  "yaml_Read sample_yaml ''lb'' = ([''lb'', ''secret''], None)"
  "fold (decode_doc sample_yaml) [''lb'', ''secret''] (zeroLB, zeroSecret) = (sample_lbconfig, sample_secret)"
  by (simp_all add: os_ReadFile_def sample_host_def file_world_def sample_yaml_def decode_doc_def)

lemma sample_merge: "merge_StringData sample_secret = sample_secret"
  by (simp add: merge_StringData_def sample_secret_def)

lemma file_world_truthful: "truthful sample_reconciler f (file_world\<lparr>w_lb := sample_lbconfig\<rparr>)"
  by (simp add: truthful_def hash_in_status_def node_ptr_def sample_lbconfig_def)

theorem render_file_applies_witness:
  "\<exists>w' api ingress. RenderFile sample_yaml sample_ext sample_host sample_reconciler ''/tmp/lb.yaml'' ''172.18.200.10'' ''172.18.200.10'' file_world = (Ret None, w') \<and>
     (\<forall>s \<in> set (lb_stages sample_ext sample_host sample_reconciler sample_secret (Some \<lparr>local_API = api, local_Ingress = ingress\<rparr>)).
       \<exists>d. stage_render s sample_lbconfig = Ret (Inr d) \<and> holds_data sample_reconciler (stage_file s) d w')"
proof -
  obtain api ingress where p: "parseBackendString ''api'' ''172.18.200.10'' = Inr api"
    "parseBackendString ''ingress'' ''172.18.200.10'' = Inr ingress"
  proof -
    have "is_ok (parseBackendString ''api'' ''172.18.200.10'')" "is_ok (parseBackendString ''ingress'' ''172.18.200.10'')"
      by code_simp+
    then show ?thesis using that by (auto elim!: is_okE)
  qed
  obtain upd w' where "ReconcileLBConfig sample_ext sample_host sample_reconciler sample_secret
      (Some \<lparr>local_API = api, local_Ingress = ingress\<rparr>) (file_world\<lparr>w_lb := sample_lbconfig\<rparr>) = (Ret (upd, None), w')"
    using ReconcileLBConfig_valid [OF sample_specs, of sample_host sample_reconciler sample_secret
        "file_world\<lparr>w_lb := sample_lbconfig\<rparr>" "Some \<lparr>local_API = api, local_Ingress = ingress\<rparr>"]
      sample_valid [of "\<lambda>_. None"] sample_known sample_host_facts(1) [of "\<lambda>_. None"]
    unfolding sample_host_update by auto
  then have r: "RenderFile sample_yaml sample_ext sample_host sample_reconciler ''/tmp/lb.yaml'' ''172.18.200.10'' ''172.18.200.10'' file_world = (Ret None, w')"
    by (simp add: RenderFile_def sample_docs(1,2) sample_docs(3) [simplified] p sample_merge)
  show ?thesis
    using render_file_applies [OF sample_Combine sample_host_facts(2) [of "\<lambda>_. None", unfolded sample_host_update]
        sample_docs sample_known _ r refl] file_world_truthful r
    by (auto simp: sample_merge)
qed

end
