(* ===== verification/Scheme.thy ===== *)
theory Scheme
  imports Prelude
begin

text \<open>
  Registration of the API types: \<^verbatim>\<open>api/v1alpha1/groupversion_info.go\<close>, the \<^verbatim>\<open>init\<close> function of
  \<^verbatim>\<open>api/v1alpha1/loadbalancerconfig_types.go\<close> and the \<^verbatim>\<open>init\<close> function of \<^verbatim>\<open>cmd/main.go\<close>. The scheme of
  the Kubernetes libraries is seen through the kinds it knows; its operations are parameters
  (\<open>scheme_lib\<close>) whose documented behaviour is \<open>scheme_lib_spec\<close>.
\<close>

section \<open>Definitions\<close>

record GroupVersion =
  gv_Group :: string
  gv_Version :: string

type_synonym scheme = "(GroupVersion \<times> string) list"

definition SchemeGroupVersion :: GroupVersion where
  "SchemeGroupVersion = \<lparr>gv_Group = ''config.bootc-lb.syn.tools'', gv_Version = ''v1alpha1''\<rparr>"

definition v1alpha1_GroupVersion :: GroupVersion where
  "v1alpha1_GroupVersion = SchemeGroupVersion"

text \<open>A builder has its group version and the kinds registered with it so far.\<close>

record Builder =
  bld_GroupVersion :: GroupVersion
  bld_kinds :: "string list"

definition SchemeBuilder :: Builder where
  "SchemeBuilder = \<lparr>bld_GroupVersion = SchemeGroupVersion, bld_kinds = []\<rparr>"

record scheme_lib =
  NewScheme :: scheme
  Builder_Register :: "Builder \<Rightarrow> string list \<Rightarrow> Builder"
  Builder_AddToScheme :: "Builder \<Rightarrow> scheme \<Rightarrow> scheme result"
  clientgo_AddToScheme :: "scheme \<Rightarrow> scheme result"

text \<open>The \<^verbatim>\<open>init\<close> function of the types; it runs before \<^verbatim>\<open>cmd/main.go\<close> is initialised.\<close>

definition types_init :: "scheme_lib \<Rightarrow> Builder" where
  "types_init lib = Builder_Register lib SchemeBuilder [''LoadBalancerConfig'', ''LoadBalancerConfigList'']"

text \<open>\<^verbatim>\<open>AddToScheme\<close> is a method value of the builder behind the pointer, so it sees what was registered.\<close>

definition AddToScheme :: "scheme_lib \<Rightarrow> scheme \<Rightarrow> scheme result" where
  "AddToScheme lib s = Builder_AddToScheme lib (types_init lib) s"

text \<open>\<^verbatim>\<open>utilruntime.Must\<close> panics with the error.\<close>

definition main_init :: "scheme_lib \<Rightarrow> scheme outcome" where
  "main_init lib =
     (case clientgo_AddToScheme lib (NewScheme lib) of
        Inl err \<Rightarrow> Panic (PanicError err)
      | Inr s \<Rightarrow>
         (case AddToScheme lib s of
            Inl err \<Rightarrow> Panic (PanicError err)
          | Inr s' \<Rightarrow> Ret s'))"

text \<open>
  Documented behaviour: registration adds the kinds to the builder, and adding the builder to a scheme
  keeps what the scheme knows and adds at least the registered kinds (the library also adds the kinds
  that every API group has, such as watch events and list options).
\<close>

definition scheme_lib_spec :: "scheme_lib \<Rightarrow> bool" where
  "scheme_lib_spec lib =
     ((\<forall>b ks. bld_GroupVersion (Builder_Register lib b ks) = bld_GroupVersion b \<and>
         set (bld_kinds b) \<union> set ks \<subseteq> set (bld_kinds (Builder_Register lib b ks))) \<and>
      (\<forall>b s s'. Builder_AddToScheme lib b s = Inr s' \<longrightarrow>
         set s \<union> Pair (bld_GroupVersion b) ` set (bld_kinds b) \<subseteq> set s'))"

section \<open>Lemmas\<close>

text \<open>When the process gets past its initialisation, the manager's scheme knows both kinds of the API.\<close>

lemma types_init_kinds:
  assumes "scheme_lib_spec lib"
  shows "bld_GroupVersion (types_init lib) = SchemeGroupVersion"
    "{''LoadBalancerConfig'', ''LoadBalancerConfigList''} \<subseteq> set (bld_kinds (types_init lib))"
proof -
  have "\<And>b ks. bld_GroupVersion (Builder_Register lib b ks) = bld_GroupVersion b"
    "\<And>b ks. set ks \<subseteq> set (bld_kinds (Builder_Register lib b ks))"
    using assms unfolding scheme_lib_spec_def by (blast, simp)
  from this(1) this(2) [of "[''LoadBalancerConfig'', ''LoadBalancerConfigList'']" SchemeBuilder]
  show "bld_GroupVersion (types_init lib) = SchemeGroupVersion"
    "{''LoadBalancerConfig'', ''LoadBalancerConfigList''} \<subseteq> set (bld_kinds (types_init lib))"
    by (simp_all add: types_init_def, simp add: SchemeBuilder_def)
qed

lemma main_init_knows_kinds:
  assumes "scheme_lib_spec lib" "main_init lib = Ret s"
  shows "{(SchemeGroupVersion, ''LoadBalancerConfig''), (SchemeGroupVersion, ''LoadBalancerConfigList'')} \<subseteq> set s"
    "clientgo_AddToScheme lib (NewScheme lib) = Inr s0 \<Longrightarrow> set s0 \<subseteq> set s"
proof -
  obtain s1 where s1: "clientgo_AddToScheme lib (NewScheme lib) = Inr s1"
    "Builder_AddToScheme lib (types_init lib) s1 = Inr s"
    using assms(2) by (auto simp: main_init_def AddToScheme_def split: sum.splits)
  then have "set s1 \<union> Pair (bld_GroupVersion (types_init lib)) ` set (bld_kinds (types_init lib)) \<subseteq> set s"
    using assms(1) unfolding scheme_lib_spec_def by blast
  with types_init_kinds [OF assms(1)] s1(1)
  show "{(SchemeGroupVersion, ''LoadBalancerConfig''), (SchemeGroupVersion, ''LoadBalancerConfigList'')} \<subseteq> set s"
    "clientgo_AddToScheme lib (NewScheme lib) = Inr s0 \<Longrightarrow> set s0 \<subseteq> set s"
    by auto
qed

lemma main_init_fails:
  "(\<exists>p. main_init lib = Panic p) \<longleftrightarrow>
     (\<forall>s. clientgo_AddToScheme lib (NewScheme lib) = Inr s \<longrightarrow> (\<exists>err. AddToScheme lib s = Inl err))"
  by (auto simp: main_init_def split: sum.splits)

end
