(* ===== verification/MainCmd.thy ===== *)
theory MainCmd
  imports RenderFile Scheme
begin

text \<open>
  \<^verbatim>\<open>cmd/main.go\<close>: the command-line flags, the TLS and server options derived from them, the
  reconciler they configure, and the order of the start-up steps with their exits. The manager of
  controller-runtime, the detection of the default route and the host name are parameters
  (\<open>runtime\<close>): each yields a value or fails. Logging and the flag parser itself are not modelled; the
  flags are given parsed. \<open>program\<close> is the whole process: package initialisation, then \<^verbatim>\<open>main\<close>.
\<close>

section \<open>Definitions\<close>

record flags =
  metricsAddr :: string
  metricsCertPath :: string
  metricsCertName :: string
  metricsCertKey :: string
  webhookCertPath :: string
  webhookCertName :: string
  webhookCertKey :: string
  enableLeaderElection :: bool
  probeAddr :: string
  secureMetrics :: bool
  enableHTTP2 :: bool
  isPrimary :: bool
  publicInterface :: string
  clusterNetwork :: string
  configRoot :: string
  renderFromFile :: string
  apiBackends :: string
  ingressBackends :: string
  watchNamespace :: string

text \<open>The defaults; the public interface defaults to the interface of the default route.\<close>

definition default_flags :: "string \<Rightarrow> flags" where
  "default_flags detectedPublicInterface =
     \<lparr>metricsAddr = ''0'', metricsCertPath = [], metricsCertName = ''tls.crt'', metricsCertKey = ''tls.key'',
      webhookCertPath = [], webhookCertName = ''tls.crt'', webhookCertKey = ''tls.key'',
      enableLeaderElection = False, probeAddr = '':8081'', secureMetrics = True, enableHTTP2 = False,
      isPrimary = False, publicInterface = detectedPublicInterface, clusterNetwork = ''172.18.200.0/24'',
      configRoot = ''/'', renderFromFile = [], apiBackends = [], ingressBackends = [],
      watchNamespace = ''default''\<rparr>"

text \<open>A TLS option is a function on the TLS configuration; only the list of protocols is set here.\<close>

record tls_Config =
  NextProtos :: "string list"

definition disableHTTP2 :: "tls_Config \<Rightarrow> tls_Config" where
  "disableHTTP2 c = c\<lparr>NextProtos := [''http/1.1'']\<rparr>"

definition tlsOpts :: "flags \<Rightarrow> (tls_Config \<Rightarrow> tls_Config) list" where
  "tlsOpts fl = (if \<not> enableHTTP2 fl then [disableHTTP2] else [])"

record server_Options =
  BindAddress :: string
  SecureServing :: bool
  TLSOpts :: "(tls_Config \<Rightarrow> tls_Config) list"
  AuthFilter :: bool
  CertDir :: string
  CertName :: string
  KeyName :: string

definition webhookServerOptions :: "flags \<Rightarrow> server_Options" where
  "webhookServerOptions fl =
     (let o0 = \<lparr>BindAddress = [], SecureServing = False, TLSOpts = tlsOpts fl, AuthFilter = False,
                CertDir = [], CertName = [], KeyName = []\<rparr> in
      if 0 < length (webhookCertPath fl)
      then o0\<lparr>CertDir := webhookCertPath fl, CertName := webhookCertName fl, KeyName := webhookCertKey fl\<rparr>
      else o0)"

definition metricsServerOptions :: "flags \<Rightarrow> server_Options" where
  "metricsServerOptions fl =
     (let o0 = \<lparr>BindAddress = metricsAddr fl, SecureServing = secureMetrics fl, TLSOpts = tlsOpts fl,
                AuthFilter = False, CertDir = [], CertName = [], KeyName = []\<rparr>;
          o1 = (if secureMetrics fl then o0\<lparr>AuthFilter := True\<rparr> else o0) in
      if 0 < length (metricsCertPath fl)
      then o1\<lparr>CertDir := metricsCertPath fl, CertName := metricsCertName fl, KeyName := metricsCertKey fl\<rparr>
      else o1)"

record manager_Options =
  mo_Scheme :: scheme
  Metrics :: server_Options
  WebhookServer :: server_Options
  HealthProbeBindAddress :: string
  LeaderElection :: bool
  LeaderElectionID :: string

definition manager_options :: "scheme \<Rightarrow> flags \<Rightarrow> manager_Options" where
  "manager_options s fl =
     \<lparr>mo_Scheme = s, Metrics = metricsServerOptions fl, WebhookServer = webhookServerOptions fl,
      HealthProbeBindAddress = probeAddr fl, LeaderElection = enableLeaderElection fl,
      LeaderElectionID = ''5eb1bfc8.bootc-lb.syn.tools''\<rparr>"

definition reconciler_of :: "flags \<Rightarrow> Prefix \<Rightarrow> string \<Rightarrow> LoadBalancerConfigReconciler" where
  "reconciler_of fl clusterNet hostname =
     \<lparr>ConfigRoot = configRoot fl, PublicInterface = publicInterface fl, ClusterNetwork = clusterNet,
      WatchNamespace = watchNamespace fl, Hostname = hostname,
      Keepalived_Config = \<lparr>IsPrimary = isPrimary fl\<rparr>\<rparr>"

text \<open>The steps of the manager that can fail, by their results.\<close>

record runtime =
  DefaultRouteInterface :: "string result"
  NewManager :: "manager_Options \<Rightarrow> error option"
  os_Hostname :: "string result"
  setup_controller :: "error option"
  AddHealthzCheck :: "error option"
  AddReadyzCheck :: "error option"
  mgr_Start :: "LoadBalancerConfigReconciler \<Rightarrow> error option"

text \<open>How the process ends; \<open>Ran\<close> is the return of \<^verbatim>\<open>main\<close> after the manager was stopped.\<close>

datatype ending = Exit int | Ran LoadBalancerConfigReconciler

definition start_manager :: "runtime \<Rightarrow> LoadBalancerConfigReconciler \<Rightarrow> ending" where
  "start_manager rt r =
     (if setup_controller rt \<noteq> None then Exit 1
      else if AddHealthzCheck rt \<noteq> None then Exit 1
      else if AddReadyzCheck rt \<noteq> None then Exit 1
      else if mgr_Start rt r \<noteq> None then Exit 1
      else Ran r)"

text \<open>
  \<^verbatim>\<open>main\<close>, from the detected interface on; \<open>parse\<close> turns the defaults into the flags of the command
  line. A host name that cannot be determined is only logged and is then empty.
\<close>

definition main ::
  "yaml \<Rightarrow> ext \<Rightarrow> host \<Rightarrow> scheme \<Rightarrow> runtime \<Rightarrow> (flags \<Rightarrow> flags) \<Rightarrow> (world, ending) run" where
  "main y x h s rt parse = (\<lambda>w.
     case DefaultRouteInterface rt of
       Inl err \<Rightarrow> (Ret (Exit 1), w)
     | Inr detectedPublicInterface \<Rightarrow>
        (let fl = parse (default_flags detectedPublicInterface) in
         if NewManager rt (manager_options s fl) \<noteq> None then (Ret (Exit 1), w)
         else
           case ParsePrefix (clusterNetwork fl) of
             Inl err \<Rightarrow> (Ret (Exit 1), w)
           | Inr clusterNet \<Rightarrow>
              if \<not> Is4 (pfx_ip (Masked clusterNet)) then (Ret (Exit 1), w)
              else
                (let hostname = (case os_Hostname rt of Inl _ \<Rightarrow> [] | Inr n \<Rightarrow> n);
                     r = reconciler_of fl clusterNet hostname in
                 if renderFromFile fl \<noteq> [] then
                   (case RenderFile y x h r (renderFromFile fl) (apiBackends fl) (ingressBackends fl) w of
                      (Panic p, w') \<Rightarrow> (Panic p, w')
                    | (Ret (Some err), w') \<Rightarrow> (Ret (Exit 1), w')
                    | (Ret None, w') \<Rightarrow> (Ret (Exit 0), w'))
                 else (Ret (start_manager rt r), w))))"

definition program ::
  "scheme_lib \<Rightarrow> yaml \<Rightarrow> ext \<Rightarrow> host \<Rightarrow> runtime \<Rightarrow> (flags \<Rightarrow> flags) \<Rightarrow> (world, ending) run" where
  "program lib y x h rt parse = (\<lambda>w.
     case main_init lib of
       Panic p \<Rightarrow> (Panic p, w)
     | Ret s \<Rightarrow> main y x h s rt parse w)"

section \<open>Properties\<close>

text \<open>
  C40: The controller only ever runs with a usable cluster network and a scheme that knows its resources:
  when the manager has run, the network parsed and is IPv4, so the internal addresses of the load
  balancers are defined, and the manager was created with a scheme that has both kinds of the API.
\<close>

theorem manager_runs_with_ipv4_network:
  assumes "scheme_lib_spec lib" "program lib y x h rt parse w = (Ret (Ran r), w')"
  shows "w' = w \<and> is_ok (internalIPs r) \<and> wf_prefix (ClusterNetwork r) \<and>
    (\<exists>opts. NewManager rt opts = None \<and>
      {(SchemeGroupVersion, ''LoadBalancerConfig''), (SchemeGroupVersion, ''LoadBalancerConfigList'')} \<subseteq> set (mo_Scheme opts))"
proof -
  obtain s where s: "main_init lib = Ret s" "main y x h s rt parse w = (Ret (Ran r), w')"
    using assms(2) by (auto simp: program_def split: outcome.splits)
  then obtain fl net n fl' where r: "r = reconciler_of fl net n" "ParsePrefix (clusterNetwork fl) = Inr net"
      "Is4 (pfx_ip (Masked net))" "w' = w" "NewManager rt (manager_options s fl') = None"
    by (auto simp: main_def start_manager_def Let_def
        split: sum.splits if_splits prod.splits outcome.splits option.splits)
  moreover have "mo_Scheme (manager_options s fl') = s"
    by (simp add: manager_options_def)
  ultimately show ?thesis
    using main_init_knows_kinds(1) [OF assms(1) s(1)]
    by (auto simp: internalIPs_def reconciler_of_def is_ok_def Let_def simp del: insert_subset
        intro: ParsePrefix_wf intro!: exI [of _ "manager_options s fl'"])
qed

text \<open>
  Unless HTTP/2 is asked for, both servers are restricted to HTTP/1.1; the metrics endpoint is
  protected by authentication exactly when it is served securely; certificates are taken from the
  flags exactly when a directory is given.
\<close>

theorem server_options:
  "(\<forall>opt c. opt \<in> set (TLSOpts (metricsServerOptions fl)) \<union> set (TLSOpts (webhookServerOptions fl)) \<longrightarrow>
      NextProtos (opt c) = [''http/1.1'']) \<and>
   (enableHTTP2 fl \<longleftrightarrow> TLSOpts (metricsServerOptions fl) = []) \<and>
   TLSOpts (webhookServerOptions fl) = TLSOpts (metricsServerOptions fl) \<and>
   (AuthFilter (metricsServerOptions fl) \<longleftrightarrow> SecureServing (metricsServerOptions fl)) \<and>
   CertDir (metricsServerOptions fl) = metricsCertPath fl \<and> CertDir (webhookServerOptions fl) = webhookCertPath fl"
  by (auto simp: metricsServerOptions_def webhookServerOptions_def tlsOpts_def disableHTTP2_def Let_def)

theorem server_options_witness:
  "NextProtos (hd (TLSOpts (metricsServerOptions (default_flags ''eth0''))) \<lparr>NextProtos = []\<rparr>) = [''http/1.1'']"
proof -
  have "TLSOpts (metricsServerOptions (default_flags ''eth0'')) \<noteq> []"
    using server_options [of "default_flags ''eth0''"] by (simp add: default_flags_def)
  then show ?thesis
    using server_options [of "default_flags ''eth0''"] by (metis UnI1 hd_in_set)
qed

text \<open>
  Rendering from a file still needs a manager: when the connection to the API server cannot be
  configured, the process exits with an error and has not rendered anything.
\<close>

theorem render_needs_manager:
  assumes "DefaultRouteInterface rt = Inr i" "\<And>a. NewManager rt a = Some e"
  shows "main y x h s rt parse w = (Ret (Exit 1), w)"
  using assms by (simp add: main_def Let_def)

section \<open>Witnesses\<close>

definition sample_runtime :: runtime where
  "sample_runtime =
     \<lparr>DefaultRouteInterface = Inr ''eth0'', NewManager = (\<lambda>_. None), os_Hostname = Inr ''lb1'',
      setup_controller = None, AddHealthzCheck = None, AddReadyzCheck = None, mgr_Start = (\<lambda>_. None)\<rparr>"

text \<open>A library that, like the real one, registers a kind of its own with every group version.\<close>

definition sample_lib :: scheme_lib where
  "sample_lib =
     \<lparr>NewScheme = [], Builder_Register = (\<lambda>b ks. b\<lparr>bld_kinds := bld_kinds b @ ks @ [''WatchEvent'']\<rparr>),
      Builder_AddToScheme = (\<lambda>b s. Inr (s @ map (Pair (bld_GroupVersion b)) (bld_kinds b))),
      clientgo_AddToScheme = Inr\<rparr>"

lemma sample_lib_spec: "scheme_lib_spec sample_lib"
  by (auto simp: scheme_lib_spec_def sample_lib_def)

lemma sample_init: "main_init sample_lib =
    Ret [(SchemeGroupVersion, ''LoadBalancerConfig''), (SchemeGroupVersion, ''LoadBalancerConfigList''),
      (SchemeGroupVersion, ''WatchEvent'')]"
  by (simp add: main_init_def AddToScheme_def types_init_def SchemeBuilder_def sample_lib_def)

lemma sample_main:
  "main y x h s sample_runtime id w = (Ret (Ran (reconciler_of (default_flags ''eth0'') sample_network ''lb1'')), w)"
proof -
  have "ParsePrefix ''172.18.200.0/24'' = Inr sample_network" "Is4 (pfx_ip (Masked sample_network))"
    by code_simp+
  then show ?thesis
    by (simp add: main_def sample_runtime_def start_manager_def default_flags_def)
qed

theorem manager_runs_with_ipv4_network_witness:
  "is_ok (internalIPs (reconciler_of (default_flags ''eth0'') sample_network ''lb1''))"
proof -
  have "program sample_lib sample_yaml sample_ext sample_host sample_runtime id file_world =
      (Ret (Ran (reconciler_of (default_flags ''eth0'') sample_network ''lb1'')), file_world)"
    by (simp add: program_def sample_init sample_main)
  from manager_runs_with_ipv4_network [OF sample_lib_spec this] show ?thesis
    by blast
qed

theorem render_needs_manager_witness:
  "main sample_yaml sample_ext sample_host [] (sample_runtime\<lparr>NewManager := \<lambda>_. Some (Errorf ''no kubeconfig'')\<rparr>)
     (\<lambda>fl. fl\<lparr>renderFromFile := ''/tmp/lb.yaml''\<rparr>) file_world = (Ret (Exit 1), file_world)"
  by (rule render_needs_manager) (simp_all add: sample_runtime_def)

end
