(* ===== verification/ReconcilePass.thy ===== *)
theory ReconcilePass
  imports ReconcilerCorrect
begin

text \<open>
  Lemmas on a single reconciliation that the control loop needs: what it leaves in the files and in the
  recorded hashes when it returns no error, when it returns an error and when it panics; that it
  reconciles a valid resource without an error; and that it does not notice files that were overwritten
  behind the back of the status.
\<close>

section \<open>Names of objects\<close>

abbreviation lb_key :: "LoadBalancerConfig \<Rightarrow> NamespacedName" where
  "lb_key c \<equiv> (Namespace (Meta c), Name (Meta c))"

abbreviation creds_key :: "LoadBalancerConfig \<Rightarrow> NamespacedName" where
  "creds_key c \<equiv> (Namespace (Meta c), CloudCredentials (Spec c))"

section \<open>What a reconciliation without an error has left\<close>

lemma holds_data_fs: "w_fs w' = w_fs w \<Longrightarrow> holds_data r f d w' = holds_data r f d w"
  by (simp add: holds_data_def)

lemma hash_in_status_lb:
  "node_ptr (w_lb w) (Hostname r) = node_ptr (w_lb w') (Hostname r) \<Longrightarrow> hash_in_status r f w = hash_in_status r f w'"
  by (simp add: hash_in_status_def)

lemma truthful_cong:
  "node_ptr (w_lb w) (Hostname r) = node_ptr (w_lb w') (Hostname r) \<Longrightarrow> w_fs w = w_fs w' \<Longrightarrow>
     truthful r f w = truthful r f w'"
  using hash_in_status_lb [of w r w' f] by (simp add: truthful_def)

text \<open>What a reconciliation that returned no error has left in the files.\<close>

lemma reconciled_stages:
  assumes "Combine_spec x" "\<forall>f \<in> set managed_files. readable h r f"
    and "stages_fit (lb_stages x h r sec None) r (w\<lparr>w_lb := c\<rparr>)"
    and "client_GetLB x req = Inr c" "host_known r c"
    and "client_GetSecret x (Namespace (Meta c), CloudCredentials (Spec c)) = Inr sec"
    and "Reconcile x h keys r req w = (Ret None, w')"
  shows "\<forall>s \<in> set (lb_stages x h r sec None). \<exists>d. stage_render s c = Ret (Inr d) \<and> holds_data r (stage_file s) d w'"
    "\<forall>f \<in> set managed_files. truthful r f w'"
proof -
  obtain upd err w1 ns errors where r1: "ReconcileLBConfig x h r sec None (w\<lparr>w_lb := c\<rparr>) = (Ret (upd, err), w1)"
    and ns: "node_ptr (w_lb w1) (Hostname r) = Some ns"
    "w_lb w' = set_node (Hostname r) (ns\<lparr>NodeStatus := final_status errors\<rparr>) (w_lb w1)"
    and fs: "w_fs w' = w_fs w1" and err: "None = multierr_Combine x [err, client_StatusUpdate x (w_lb w')]"
    using assms(4,6,7) by (rule Reconcile_returned)
  from err have "err = None"
    using Combine_two [OF assms(1), of err] by metis
  note ok = ReconcileLBConfig_ok(3,4) [OF assms(1,2) _ r1 [unfolded this], simplified, OF assms(5,3)]
  show "\<forall>s \<in> set (lb_stages x h r sec None). \<exists>d. stage_render s c = Ret (Inr d) \<and> holds_data r (stage_file s) d w'"
    using ok(1) holds_data_fs [OF fs] by (simp add: rendered_eq)
  have "hash_in_status r f w' = hash_in_status r f w1" for f
    using ns node_ptr_nodes [OF ns(1)] by (simp add: hash_in_status_def node_ptr_set_node)
  then show "\<forall>f \<in> set managed_files. truthful r f w'"
    using ok(2) content_frame(1) [of r _ w' w1] fs by simp
qed

lemma reconciled_stage:
  assumes "Combine_spec x" "\<forall>f \<in> set managed_files. readable h r f \<and> truthful r f (w\<lparr>w_lb := c\<rparr>)"
    and "client_GetLB x req = Inr c" "host_known r c"
    and "client_GetSecret x (Namespace (Meta c), CloudCredentials (Spec c)) = Inr sec"
    and "Reconcile x h keys r req w = (Ret None, w')"
    and "s \<in> set (lb_stages x h r sec None)"
  shows "\<exists>d. stage_render s c = Ret (Inr d) \<and> holds_data r (stage_file s) d w'"
  using reconciled_stages(1) [OF assms(1) _ truthful_stages_fit assms(3-6)] assms(2,7) by blast

section \<open>Recorded hashes\<close>

text \<open>On a host without faults no step makes a recorded hash untruthful.\<close>

lemma healthy_readable: "f \<in> set managed_files \<Longrightarrow> healthy h r f \<Longrightarrow> readable h r f"
  by (simp add: readable_def healthy_def)

lemma RenderConfig_truthful:
  assumes "registered r w" "\<forall>f \<in> set managed_files. healthy h r f \<and> truthful r f w"
    and "cfg \<in> set managed_files" "RenderConfig h r g cfg mode w = (out, w')"
  shows "\<forall>f \<in> set managed_files. truthful r f w'"
proof -
  consider (same) "w' = w" | (caw) d where "CompareAndWrite h r cfg mode d w = (out, w')"
    using assms(4) by (auto simp: RenderConfig_def split: outcome.splits sum.splits)
  then show ?thesis
  proof cases
    case (caw d)
    have rd: "readable h r f" if "f \<in> set managed_files" for f
      using that assms(2) healthy_readable by blast
    obtain c where c: "CompareAndWrite h r cfg mode d w = (Ret (c, None), w')"
      using CompareAndWrite_healthy [OF assms(1,3), of h mode d] assms(2,3) caw by auto
    then have "truthful r cfg w'"
      using content.put_holds [OF assms(1) rd [OF assms(3)] _ c] assms(2,3) by simp
    moreover have "truthful r f w'" if "f \<in> set managed_files" "f \<noteq> cfg" for f
      using content.put_content_other [OF assms(1) rd [OF assms(3)] rd [OF that(1)] that(2) c] assms(2) that(1) by simp
    ultimately show ?thesis by blast
  qed (use assms(2) in simp)
qed

lemma run_stages_truthful:
  assumes "registered r w" "\<forall>f \<in> set managed_files. healthy h r f \<and> truthful r f w"
    and "stage_file ` set ss \<subseteq> set managed_files" "run_stages h r ss acc w = (out, w')"
  shows "\<forall>f \<in> set managed_files. truthful r f w'"
  using assms
proof (induction ss arbitrary: acc w)
  case Nil
  then show ?case by (simp add: run_defs)
next
  case (Cons s ss)
  obtain o1 w1 where s: "run_stage h r s acc w = (o1, w1)" by fastforce
  then obtain out1 where r1: "RenderConfig h r (stage_render s) (stage_file s) (stage_mode s) w = (out1, w1)"
    by (rule run_stage_cases) auto
  have t1: "\<forall>f \<in> set managed_files. healthy h r f \<and> truthful r f w1"
    using RenderConfig_truthful [OF Cons.prems(1,2) _ r1] Cons.prems(2,3) by simp
  show ?case
  proof (cases o1)
    case (Ret a)
    then show ?thesis
      using Cons.IH [OF RenderConfig_frame(6) [OF r1 Cons.prems(1)] t1] Cons.prems(3,4) s by (simp add: run_defs)
  next
    case (Panic p)
    then show ?thesis using Cons.prems(4) s t1 by (simp add: run_defs)
  qed
qed

lemma InitializeNodeStatus_keeps_hash:
  assumes "InitializeNodeStatus x h r w = (out, w1)"
  shows "hash_in_status r f w1 = hash_in_status r f w"
proof (cases "out = Ret None")
  case True
  then show ?thesis using InitializeNodeStatus_hash assms by blast
next
  case False
  then have "w1 = w\<lparr>w_lb := init_nodes r (w_lb w)\<rparr>"
    using assms by (auto simp: InitializeNodeStatus_def Let_def split: sum.splits option.splits)
  then show ?thesis
    by (auto simp: hash_in_status_def init_nodes_def node_ptr_def zeroNodeStatus_def split: option.splits)
qed

lemma ReconcileLBConfig_truthful:
  assumes "host_known r (w_lb w)" "\<forall>f \<in> set managed_files. healthy h r f \<and> truthful r f w"
    and "ReconcileLBConfig x h r sec loc w = (out, w')"
  shows "\<forall>f \<in> set managed_files. truthful r f w'"
proof -
  have init: "\<forall>f \<in> set managed_files. healthy h r f \<and> truthful r f w1"
    if "InitializeNodeStatus x h r w = (o1, w1)" for o1 w1
    using InitializeNodeStatus_keeps_hash [OF that] InitializeNodeStatus_frame [OF that] assms(2)
    by (simp add: truthful_def)
  have files: "stage_file ` set (lb_stages x h r sec loc) \<subseteq> set managed_files"
    using lb_stages_managed by blast
  have stages: "\<forall>f \<in> set managed_files. truthful r f w'"
    if "InitializeNodeStatus x h r w = (o1, w1)" "run_stages h r (lb_stages x h r sec loc) ([], []) w1 = (o2, w')" for o1 w1 o2
    using run_stages_truthful [OF _ init [OF that(1)] files that(2)] InitializeNodeStatus_frame [OF that(1)] assms(1) by blast
  show ?thesis
    using assms(3) by (cases rule: ReconcileLBConfig_cases) (use init stages in blast)+
qed

section \<open>However it ends\<close>

text \<open>
  A run of the stages on a host without faults, however it ends: every file that renders holds its
  data afterwards, unless the run panicked before it came to the file, which is then as it was.
\<close>

lemma RenderConfig_other:
  assumes "registered r w" "cfg \<in> set managed_files" "g \<in> set managed_files" "g \<noteq> cfg"
    and "RenderConfig h r f cfg mode w = (out, w')"
  shows "stored r g txt (w_fs w') = stored r g txt (w_fs w)" "hash_in_status r g w' = hash_in_status r g w"
proof -
  consider (same) "w' = w" | (caw) d where "CompareAndWrite h r cfg mode d w = (out, w')"
    using assms(5) by (auto simp: RenderConfig_def split: outcome.splits sum.splits)
  then have "stored r g txt (w_fs w') = stored r g txt (w_fs w) \<and> hash_in_status r g w' = hash_in_status r g w"
    by cases (use CompareAndWrite_other [OF assms(1-4)] in auto)
  then show "stored r g txt (w_fs w') = stored r g txt (w_fs w)" "hash_in_status r g w' = hash_in_status r g w"
    by simp_all
qed

lemma run_stages_other:
  assumes "registered r w" "stage_file ` set ss \<subseteq> set managed_files" "g \<in> set managed_files" "g \<notin> stage_file ` set ss"
    and "run_stages h r ss acc w = (out, w')"
  shows "stored r g txt (w_fs w') = stored r g txt (w_fs w)"
  using assms
proof (induction ss arbitrary: acc w)
  case Nil
  then show ?case by (simp add: run_defs)
next
  case (Cons s ss)
  obtain o1 w1 where s: "run_stage h r s acc w = (o1, w1)" by fastforce
  then obtain out1 where r1: "RenderConfig h r (stage_render s) (stage_file s) (stage_mode s) w = (out1, w1)"
    by (rule run_stage_cases) auto
  have g: "stored r g txt (w_fs w1) = stored r g txt (w_fs w)"
    using Cons.prems(2-4) RenderConfig_other(1) [OF Cons.prems(1) _ _ _ r1] by auto
  show ?case
  proof (cases o1)
    case (Ret a)
    then show ?thesis
      using Cons.IH [OF RenderConfig_frame(6) [OF r1 Cons.prems(1)], of a] Cons.prems(2-5) s g by (simp add: run_defs)
  next
    case (Panic p)
    then show ?thesis using Cons.prems(5) s g by (simp add: run_defs)
  qed
qed

lemma run_stage_put:
  assumes "registered r w" "stage_file s \<in> set managed_files" "healthy h r (stage_file s)"
    and "rendered s (w_lb w) = Some d" "hash_fits r (stage_file s) d w" "run_stage h r s acc w = (out, w')"
  shows "\<exists>a. out = Ret a" "holds_data r (stage_file s) d w'"
proof -
  note put = RenderConfig_rendered [OF assms(4), of h r]
  obtain c w1 where c: "CompareAndWrite h r (stage_file s) (stage_mode s) d w = (Ret (c, None), w1)"
    using CompareAndWrite_healthy [OF assms(1-3)] by blast
  have "(\<exists>a. out = Ret a) \<and> w' = w1"
    using assms(6) by (rule run_stage_cases) (simp_all add: put c)
  then show "\<exists>a. out = Ret a" "holds_data r (stage_file s) d w'"
    using CompareAndWrite_content [OF assms(1) healthy_readable [OF assms(2,3)] assms(5) c] by blast+
qed

lemma run_stage_other:
  assumes "registered r w" "stage_file s \<in> set managed_files" "run_stage h r s acc w = (out, w')"
  shows "registered r w'" "Spec (w_lb w') = Spec (w_lb w)"
    "g \<in> set managed_files \<Longrightarrow> g \<noteq> stage_file s \<Longrightarrow> stored r g t (w_fs w') = stored r g t (w_fs w)"
    "g \<in> set managed_files \<Longrightarrow> g \<noteq> stage_file s \<Longrightarrow> hash_in_status r g w' = hash_in_status r g w"
proof -
  obtain out1 where r1: "RenderConfig h r (stage_render s) (stage_file s) (stage_mode s) w = (out1, w')"
    using assms(3) by (rule run_stage_cases) auto
  show "registered r w'" "Spec (w_lb w') = Spec (w_lb w)"
    using RenderConfig_frame(1,6) [OF r1] assms(1) by simp_all
  show "stored r g t (w_fs w') = stored r g t (w_fs w)" "hash_in_status r g w' = hash_in_status r g w"
    if "g \<in> set managed_files" "g \<noteq> stage_file s"
    using RenderConfig_other [OF assms(1,2) that r1] by simp_all
qed

lemma run_stages_files:
  assumes "registered r w" "spec_only ss" "distinct (map stage_file ss)" "stage_file ` set ss \<subseteq> set managed_files"
    and "\<forall>f \<in> set managed_files. healthy h r f" "stages_fit ss r w" "run_stages h r ss acc w = (out, w')"
    and "s \<in> set ss" "rendered s (w_lb w) = Some d"
  shows "holds_data r (stage_file s) d w' \<or>
    (\<exists>p. out = Panic p) \<and> (\<forall>txt. stored r (stage_file s) txt (w_fs w') = stored r (stage_file s) txt (w_fs w))"
  using assms
proof (induction ss arbitrary: acc w)
  case (Cons t ss)
  obtain o1 w1 where t: "run_stage h r t acc w = (o1, w1)" by fastforce
  have tf: "stage_file t \<in> set managed_files"
    using Cons.prems(4) by simp
  have mem: "stage_file u \<in> set managed_files" "stage_file u \<noteq> stage_file t" if "u \<in> set ss" for u
    using imageI [OF that, of stage_file] Cons.prems(3,4) by (simp_all only: list.map distinct.simps set_map set_simps) (blast, metis)
  note other = run_stage_other [OF Cons.prems(1) tf t]
  have spec: "rendered u (w_lb w1) = rendered u (w_lb w)" if "u \<in> set ss" for u
    using Cons.prems(2) spec_onlyD [OF _ that other(2)] by simp
  have fit: "stages_fit ss r w1"
    using Cons.prems(6) spec content_frame(2) [OF other(3,4) [OF mem]] by (simp add: stages_fit_def)
  show ?case
  proof (cases "s \<in> set ss")
    case True
    then show ?thesis
      using Cons.IH [OF other(1) _ _ _ Cons.prems(5) fit _ True] Cons.prems(2-4,7,9) spec [OF True] other(3) [OF mem [OF True]] t
      by (cases o1) (auto simp: run_defs)
  next
    case False
    then have s: "s = t" "hash_fits r (stage_file t) d w"
      using Cons.prems(6,8,9) by (auto simp: stages_fit_def)
    obtain a where a: "o1 = Ret a" "holds_data r (stage_file t) d w1"
      using run_stage_put [OF Cons.prems(1) tf _ Cons.prems(9) [unfolded s(1)] s(2) t] Cons.prems(5) tf by blast
    then have "run_stages h r ss a w1 = (out, w')"
      using t Cons.prems(7) by (simp add: run_defs)
    then have "stored r (stage_file t) t' (w_fs w') = stored r (stage_file t) t' (w_fs w1)" for t'
      using Cons.prems(3,4) by (intro run_stages_other [OF other(1)]) auto
    then show ?thesis
      using a(2) s(1) by (simp add: holds_data_def)
  qed
qed simp

text \<open>The same for a reconciliation, seen with its own status and with the status it started from.\<close>

lemma InitializeNodeStatus_known: "InitializeNodeStatus x h r w = (Ret None, w1) \<Longrightarrow> host_known r (w_lb w)"
  using init_nodes_known [of r "w_lb w"] by (auto simp: InitializeNodeStatus_def Let_def split: sum.splits option.splits)

lemma ReconcileLBConfig_unknown:
  assumes "\<not> host_known r (w_lb w)" "ReconcileLBConfig x h r sec loc w = (out, w')"
  shows "w_fs w' = w_fs w" "node_ptr (w_lb w') (Hostname r) = None" "out = Ret (upd, err) \<Longrightarrow> upd = []"
proof -
  have "w_fs w' = w_fs w \<and> node_ptr (w_lb w') (Hostname r) = None \<and> (out = Ret (upd, err) \<longrightarrow> upd = [])"
    using assms(2)
    by (cases rule: ReconcileLBConfig_cases)
      (use assms(1) InitializeNodeStatus_known InitializeNodeStatus_frame in \<open>fastforce simp: registered_def\<close>)+
  then show "w_fs w' = w_fs w" "node_ptr (w_lb w') (Hostname r) = None" "out = Ret (upd, err) \<Longrightarrow> upd = []"
    by simp_all
qed

lemma ReconcileLBConfig_files:
  assumes "host_known r (w_lb w)" "\<forall>f \<in> set managed_files. healthy h r f"
    and "stages_fit (lb_stages x h r sec loc) r w" "ReconcileLBConfig x h r sec loc w = (out, w')"
  shows "s \<in> set (lb_stages x h r sec loc) \<Longrightarrow> rendered s (w_lb w) = Some d \<Longrightarrow>
      holds_data r (stage_file s) d w' \<or> (\<forall>t. stored r (stage_file s) t (w_fs w') = stored r (stage_file s) t (w_fs w))"
    "out = Ret res \<Longrightarrow> stages_fit (lb_stages x h r sec loc) r w'"
proof -
  let ?ss = "lb_stages x h r sec loc"
  have init: "registered r w1" "Spec (w_lb w1) = Spec (w_lb w)" "w_fs w1 = w_fs w" "stages_fit ?ss r w1"
    if "InitializeNodeStatus x h r w = (o1, w1)" for o1 w1
  proof -
    show i: "registered r w1" "Spec (w_lb w1) = Spec (w_lb w)" "w_fs w1 = w_fs w"
      using InitializeNodeStatus_frame [OF that] assms(1) by simp_all
    show "stages_fit ?ss r w1"
      using stages_fit_cong [OF i(2,3) InitializeNodeStatus_keeps_hash [OF that]] assms(3) by blast
  qed
  have managed: "stage_file ` set ?ss \<subseteq> set managed_files"
    using lb_stages_managed by blast
  have ren: "rendered s (w_lb w1) = rendered s (w_lb w)"
    if "s \<in> set ?ss" "Spec (w_lb w1) = Spec (w_lb w)" for s w1
    using spec_onlyD [OF spec_only_lb_stages that] .
  note files = run_stages_files [OF init(1) spec_only_lb_stages lb_stages_distinct managed assms(2) init(4)]
  show "holds_data r (stage_file s) d w' \<or> (\<forall>t. stored r (stage_file s) t (w_fs w') = stored r (stage_file s) t (w_fs w))"
    if s: "s \<in> set ?ss" "rendered s (w_lb w) = Some d"
    using assms(4)
  proof (cases rule: ReconcileLBConfig_cases)
    case (stage_panic p w1)
    then show ?thesis
      using files [OF stage_panic(2,2,3) s(1)] s(2) ren [OF s(1) init(2) [OF stage_panic(2)]] init(3) [OF stage_panic(2)] by auto
  next
    case (finished upd errs w1)
    then show ?thesis
      using files [OF finished(2,2,3) s(1)] s(2) ren [OF s(1) init(2) [OF finished(2)]] init(3) [OF finished(2)] by auto
  qed (use init(3) in auto)
  show "stages_fit ?ss r w'" if "out = Ret res"
    using assms(4)
  proof (cases rule: ReconcileLBConfig_cases)
    case (init_error e)
    then show ?thesis using init(4) by blast
  next
    case (finished upd errs w1)
    have "Spec (w_lb w') = Spec (w_lb w1)"
      using run_stages_frame [OF finished(3)] by blast
    then have "rendered s (w_lb w') = rendered s (w_lb w1)" if "s \<in> set ?ss" for s
      using spec_onlyD [OF spec_only_lb_stages that] by blast
    then show ?thesis
      using files [OF finished(2,2,3)] by (auto simp: stages_fit_def hash_fits_def)
  qed (use that in auto)
qed

lemma stages_fit_reset:
  assumes "stages_fit (lb_stages x h r sec loc) r w" "Spec (w_lb w') = Spec (w_lb w)" "w_lb w'' = w_lb w" "w_fs w'' = w_fs w'"
    and "\<And>s d. s \<in> set (lb_stages x h r sec loc) \<Longrightarrow> rendered s (w_lb w) = Some d \<Longrightarrow>
      holds_data r (stage_file s) d w' \<or> (\<forall>t. stored r (stage_file s) t (w_fs w') = stored r (stage_file s) t (w_fs w))"
  shows "stages_fit (lb_stages x h r sec loc) r w''"
  unfolding stages_fit_def
proof (intro ballI allI impI)
  fix s d
  assume s: "s \<in> set (lb_stages x h r sec loc)" "rendered s (w_lb w'') = Some d"
  consider "holds_data r (stage_file s) d w'" | "\<And>t. stored r (stage_file s) t (w_fs w'') = stored r (stage_file s) t (w_fs w)"
    using assms(5) [OF s(1)] s(2) assms(3,4) by fastforce
  then show "hash_fits r (stage_file s) d w''"
  proof cases
    case 1
    then show ?thesis using holds_data_fs [OF assms(4)] by (simp add: hash_fits_def)
  next
    case 2
    then have "hash_fits r (stage_file s) d w'' = hash_fits r (stage_file s) d w"
      by (rule content_frame(2)) (simp add: hash_in_status_def assms(3))
    then show ?thesis using assms(1,3) s by (simp add: stages_fit_def)
  qed
qed

lemma Reconcile_runs:
  assumes "client_GetLB x req = Inr c" "client_GetSecret x (Namespace (Meta c), CloudCredentials (Spec c)) = Inr sec"
    and "Reconcile x h keys r req w = (out, w')"
  obtains out1 w1 where "ReconcileLBConfig x h r sec None (w\<lparr>w_lb := c\<rparr>) = (out1, w1)" "w_fs w' = w_fs w1"
  using assms by (auto simp: Reconcile_def Let_def split: prod.splits outcome.splits option.splits)

text \<open>Whatever becomes of a reconciliation, what it has left in the files fits the status it started from.\<close>

lemma Reconcile_fits:
  assumes "client_GetLB x req = Inr c" "client_GetSecret x (Namespace (Meta c), CloudCredentials (Spec c)) = Inr sec"
    and "\<forall>f \<in> set managed_files. healthy h r f" "stages_fit (lb_stages x h r sec None) r (w\<lparr>w_lb := c\<rparr>)"
    and "Reconcile x h keys r req w = (out, w')"
  shows "stages_fit (lb_stages x h r sec None) r (w'\<lparr>w_lb := c\<rparr>)"
proof -
  obtain out1 w1 where r1: "ReconcileLBConfig x h r sec None (w\<lparr>w_lb := c\<rparr>) = (out1, w1)" "w_fs w' = w_fs w1"
    using Reconcile_runs [OF assms(1,2,5)] .
  show ?thesis
  proof (cases "host_known r c")
    case True
    then show ?thesis
      using stages_fit_reset [OF assms(4) _ _ _ ReconcileLBConfig_files(1) [OF _ assms(3,4) r1(1)]]
        ReconcileLBConfig_frame [OF r1(1)] r1(2) by simp
  next
    case False
    then have "w_fs w' = w_fs w"
      using ReconcileLBConfig_unknown(1) [OF _ r1(1)] r1(2) by simp
    then show ?thesis
      using assms(4) stages_fit_cong [of "w'\<lparr>w_lb := c\<rparr>" "w\<lparr>w_lb := c\<rparr>"] by (simp add: hash_in_status_def)
  qed
qed

text \<open>A reconciliation that returns although the credentials were found has sent one update.\<close>

lemma Reconcile_sent:
  assumes "client_GetLB x req = Inr c" "client_GetSecret x (creds_key c) = Inr sec"
    and "Reconcile x h keys r req w = (Ret e, w')"
  obtains upd err w1 where
    "ReconcileLBConfig x h r sec None (w\<lparr>w_lb := c\<rparr>) = (Ret (upd, err), w1)" "w_fs w' = w_fs w1"
    "\<forall>f. hash_in_status r f w' = hash_in_status r f w1"
    "host_known r c" "w_updates w' = w_updates w @ [w_lb w']" "Spec (w_lb w') = Spec c" "Meta (w_lb w') = Meta c"
    "registered r w'" "e = multierr_Combine x [err, client_StatusUpdate x (w_lb w')]"
proof -
  obtain upd err w1 ns errors cmds where r1: "ReconcileLBConfig x h r sec None (w\<lparr>w_lb := c\<rparr>) = (Ret (upd, err), w1)"
    "node_ptr (w_lb w1) (Hostname r) = Some ns"
    "w_lb w' = set_node (Hostname r) (ns\<lparr>NodeStatus := final_status errors\<rparr>) (w_lb w1)" "w_fs w' = w_fs w1"
    "w_updates w' = w_updates w1 @ [w_lb w']" "e = multierr_Combine x [err, client_StatusUpdate x (w_lb w')]"
    using assms by (rule Reconcile_returned)
  have "host_known r c"
    using ReconcileLBConfig_unknown(2) [OF _ r1(1)] r1(2) by fastforce
  moreover have "hash_in_status r f w' = hash_in_status r f w1" for f
    using r1(2,3) node_ptr_nodes [OF r1(2)] by (simp add: hash_in_status_def node_ptr_set_node)
  moreover have "registered r w'"
    using r1(3) node_ptr_nodes [OF r1(2)] by (simp add: registered_def node_ptr_set_node)
  ultimately show ?thesis
    using that r1 ReconcileLBConfig_frame [OF r1(1)] by simp
qed

section \<open>Valid and stale input\<close>

lemma network_ok_init:
  assumes "network_ok x h r" "host_known r (w_lb w)"
  obtains w1 where "InitializeNodeStatus x h r w = (Ret None, w1)"
  using valid_init [OF assms] by blast

text \<open>A valid resource reconciles without an error.\<close>

lemma Reconcile_valid:
  assumes "Combine_spec x" "Keys_spec x" "valid_input x h r sec c" "host_known r c"
    and "\<forall>f \<in> set managed_files. healthy h r f" "\<And>c. client_StatusUpdate x c = None"
    and "client_GetLB x req = Inr c" "client_GetSecret x (Namespace (Meta c), CloudCredentials (Spec c)) = Inr sec"
  obtains w' where "Reconcile x h keys r req w = (Ret None, w')"
proof -
  obtain upd w1 where r1: "ReconcileLBConfig x h r sec None (w\<lparr>w_lb := c\<rparr>) = (Ret (upd, None), w1)"
    using ReconcileLBConfig_valid [OF assms(1,2), of h r sec "w\<lparr>w_lb := c\<rparr>" None] assms(3-5) by auto
  obtain ns where ns: "node_ptr (w_lb w1) (Hostname r) = Some ns"
    using ReconcileLBConfig_frame [OF r1] assms(4) by (auto simp: registered_def)
  obtain errors cmds where "reload_loop h r (keys upd) (case None of Some e \<Rightarrow> [e] | None \<Rightarrow> []) (w_cmds w1) = (errors, cmds)"
    by fastforce
  from Reconcile_after [where keys = keys, OF assms(7,8) r1 ns this] show ?thesis
    using that assms(6) Combine_two [OF assms(1), of None None] by simp
qed

text \<open>
  A status that records what was once written and files that were overwritten since: a reconciliation
  does not notice, because every file agrees with its digest file and every recorded hash with the data
  to be written.
\<close>

lemma stale_status:
  assumes "Combine_spec x" "\<forall>f \<in> set managed_files. readable h r f" "\<And>c. client_StatusUpdate x c = None" "keys [] = []"
    and "client_GetSecret x (creds_key c) = Inr sec" "node_ptr c (Hostname r) = Some ns" "w_lb wA = c"
    and "InitializeNodeStatus x h r w0 = (Ret None, w1)"
    and "\<forall>s \<in> set (lb_stages x h r sec None). \<exists>d. rendered s c = Some d \<and> synced r (stage_file s) d wA"
    and "\<forall>f \<in> set managed_files. \<exists>t. stored r f t (w_fs wB)"
  shows "\<exists>c'. Reconcile (x\<lparr>client_GetLB := \<lambda>_. Inr c\<rparr>) h keys r req wB =
      (Ret None, wB\<lparr>w_lb := c', w_updates := w_updates wB @ [c']\<rparr>) \<and>
    map_option NodeStatus (node_ptr c' (Hostname r)) = Some NodeStatusReady"
proof -
  let ?x = "x\<lparr>client_GetLB := \<lambda>_. Inr c\<rparr>"
  have "\<forall>s \<in> set (lb_stages x h r sec None). \<exists>d. rendered s c = Some d \<and> synced r (stage_file s) d (wB\<lparr>w_lb := c\<rparr>)"
    using assms(7,9,10) lb_stages_managed hash_in_status_lb [of wA r "wB\<lparr>w_lb := c\<rparr>"] by (simp add: synced_def) blast
  moreover have "Combine_spec ?x"
    using assms(1) by (simp add: Combine_spec_def)
  moreover define c' where "c' = set_node (Hostname r) ((host_status ?x h r ns)\<lparr>NodeStatus := NodeStatusReady\<rparr>) c"
  ultimately have "Reconcile ?x h keys r req wB = (Ret None, wB\<lparr>w_lb := c', w_updates := w_updates wB @ [c']\<rparr>)"
    using Reconcile_synced [where x = ?x and keys = keys and c = c and sec = sec, OF _ assms(2) _ assms(4) _ assms(6)]
      assms(3,5,8) by simp
  moreover have "map_option NodeStatus (node_ptr c' (Hostname r)) = Some NodeStatusReady"
    using node_ptr_nodes [OF assms(6)] by (simp add: c'_def node_ptr_set_node)
  ultimately show ?thesis by blast
qed

lemma synced_stored:
  assumes "\<forall>s \<in> set (lb_stages x h r sec None). \<exists>d. synced r (stage_file s) d w"
  shows "\<forall>f \<in> set managed_files. \<exists>t. stored r f t (w_fs w)"
  using assms unfolding lb_stages_files [of x h r sec None, symmetric] by (auto simp: synced_def)

end
