(* ===== verification/Handlers.thy ===== *)
theory Handlers
  imports Samples
begin

text \<open>
  The event handlers (\<^verbatim>\<open>internal/controller/node_update_handler.go\<close> and
  \<^verbatim>\<open>internal/controller/credentials_update_handler.go\<close>) and the wiring of the controller:
  \<^verbatim>\<open>Filter\<close> and \<^verbatim>\<open>SetupWithManager\<close> of
  \<^verbatim>\<open>internal/controller/loadbalancerconfig_controller.go\<close>. A handler is modelled by the requests it
  adds to the work queue, in order. The locale \<open>requeue_handler\<close> is the contract of a handler that
  requeues all resources; it is interpreted on both handlers.
\<close>

section \<open>Definitions\<close>

definition node_queueAllLBConfigs :: "ext \<Rightarrow> NamespacedName list" where
  "node_queueAllLBConfigs x =
     (case client_ListLB x of
        Inl err \<Rightarrow> []
      | Inr lbconfigs \<Rightarrow> map (\<lambda>lbconfig. (Namespace (Meta lbconfig), Name (Meta lbconfig))) lbconfigs)"

definition node_Create :: "ext \<Rightarrow> bool \<Rightarrow> NamespacedName list" where
  "node_Create x IsInInitialList = (if IsInInitialList then [] else node_queueAllLBConfigs x)"

text \<open>\<^verbatim>\<open>maps.Equal\<close> on the labels; a nil map has no labels.\<close>

definition node_Update :: "ext \<Rightarrow> Node \<Rightarrow> Node \<Rightarrow> NamespacedName list" where
  "node_Update x ObjectOld ObjectNew =
     (if node_Labels ObjectOld = node_Labels ObjectNew then [] else node_queueAllLBConfigs x)"

definition node_Delete :: "ext \<Rightarrow> NamespacedName list" where
  "node_Delete x = node_queueAllLBConfigs x"

definition node_Generic :: "ext \<Rightarrow> NamespacedName list" where
  "node_Generic x = node_queueAllLBConfigs x"

definition credentials_queueAllLBConfigs :: "ext \<Rightarrow> NamespacedName list" where
  "credentials_queueAllLBConfigs x =
     (case client_ListLB x of
        Inl err \<Rightarrow> []
      | Inr lbconfigs \<Rightarrow> map (\<lambda>lbconfig. (Namespace (Meta lbconfig), Name (Meta lbconfig))) lbconfigs)"

definition credentials_Create :: "ext \<Rightarrow> bool \<Rightarrow> NamespacedName list" where
  "credentials_Create x IsInInitialList = (if IsInInitialList then [] else credentials_queueAllLBConfigs x)"

definition credentials_Update :: "ext \<Rightarrow> Secret \<Rightarrow> Secret \<Rightarrow> NamespacedName list" where
  "credentials_Update x ObjectOld ObjectNew = credentials_queueAllLBConfigs x"

definition credentials_Delete :: "ext \<Rightarrow> NamespacedName list" where
  "credentials_Delete x = credentials_queueAllLBConfigs x"

definition credentials_Generic :: "ext \<Rightarrow> NamespacedName list" where
  "credentials_Generic x = credentials_queueAllLBConfigs x"

text \<open>The objects the controller watches; any other kind is \<open>OtherObject\<close> with its namespace.\<close>

datatype object = LBObject LoadBalancerConfig | NodeObject Node | SecretObject Secret | OtherObject string

definition Filter :: "LoadBalancerConfigReconciler \<Rightarrow> object \<Rightarrow> bool" where
  "Filter r obj =
     (case obj of
        LBObject c \<Rightarrow> WatchNamespace r \<noteq> [] \<and> WatchNamespace r = Namespace (Meta c)
      | NodeObject _ \<Rightarrow> True
      | SecretObject s \<Rightarrow> WatchNamespace r \<noteq> [] \<and> WatchNamespace r = sec_Namespace s
      | OtherObject _ \<Rightarrow> False)"

text \<open>
  \<^verbatim>\<open>SetupWithManager\<close>: an event passes the filter (for an update, on the new object) before it
  reaches the handler of its kind. The handler of the controller's own kind is the library's
  default one, which requests the object of the event. The rate limiter that the function configures
  only delays repeated requests and is not modelled.
\<close>

datatype 'o event = CreateEvent 'o bool | UpdateEvent 'o 'o | DeleteEvent 'o | GenericEvent 'o

fun node_handle :: "ext \<Rightarrow> Node event \<Rightarrow> NamespacedName list" where
  "node_handle x (CreateEvent n i) = node_Create x i"
| "node_handle x (UpdateEvent a b) = node_Update x a b"
| "node_handle x (DeleteEvent n) = node_Delete x"
| "node_handle x (GenericEvent n) = node_Generic x"

fun credentials_handle :: "ext \<Rightarrow> Secret event \<Rightarrow> NamespacedName list" where
  "credentials_handle x (CreateEvent n i) = credentials_Create x i"
| "credentials_handle x (UpdateEvent a b) = credentials_Update x a b"
| "credentials_handle x (DeleteEvent n) = credentials_Delete x"
| "credentials_handle x (GenericEvent n) = credentials_Generic x"

fun event_object :: "'o event \<Rightarrow> 'o" where
  "event_object (CreateEvent a i) = a"
| "event_object (UpdateEvent a b) = b"
| "event_object (DeleteEvent a) = a"
| "event_object (GenericEvent a) = a"

datatype watch_event = LBEvent "LoadBalancerConfig event" | NodeEvent "Node event" | SecretEvent "Secret event"

definition SetupWithManager :: "ext \<Rightarrow> LoadBalancerConfigReconciler \<Rightarrow> watch_event \<Rightarrow> NamespacedName list" where
  "SetupWithManager x r ev =
     (case ev of
        LBEvent e \<Rightarrow>
          (if Filter r (LBObject (event_object e))
           then [(Namespace (Meta (event_object e)), Name (Meta (event_object e)))] else [])
      | NodeEvent e \<Rightarrow> (if Filter r (NodeObject (event_object e)) then node_handle x e else [])
      | SecretEvent e \<Rightarrow> (if Filter r (SecretObject (event_object e)) then credentials_handle x e else []))"

section \<open>The contract of a requeueing handler\<close>

locale requeue_handler =
  fixes requests :: "'r list"
    and handle :: "'o event \<Rightarrow> 'r list"
    and relevant :: "'o \<Rightarrow> 'o \<Rightarrow> bool"
  assumes create: "handle (CreateEvent a i) = (if i then [] else requests)"
    and update: "handle (UpdateEvent a b) = (if relevant a b then requests else [])"
    and delete: "handle (DeleteEvent a) = requests"
    and generic: "handle (GenericEvent a) = requests"
begin

text \<open>Events that do not call for a reconciliation: the initial list and irrelevant updates.\<close>

lemma handle_cases: "handle ev = [] \<or> handle ev = requests"
  by (cases ev) (auto simp: create update delete generic)

lemma handle_quiet:
  "requests \<noteq> [] \<Longrightarrow> handle ev = [] \<longleftrightarrow>
     (case ev of CreateEvent _ i \<Rightarrow> i | UpdateEvent a b \<Rightarrow> \<not> relevant a b | _ \<Rightarrow> False)"
  by (cases ev) (auto simp: create update delete generic)

lemma handle_all:
  "set (concat (map handle evs)) = (if list_all (\<lambda>ev. handle ev = []) evs then {} else set requests)"
proof (induction evs)
  case (Cons ev evs)
  then show ?case using handle_cases [of ev] by auto
qed simp

end

interpretation node_handler: requeue_handler "node_queueAllLBConfigs x" "node_handle x"
  "\<lambda>a b. node_Labels a \<noteq> node_Labels b" for x
  by unfold_locales (simp_all add: node_Create_def node_Update_def node_Delete_def node_Generic_def)

interpretation credentials_handler: requeue_handler "credentials_queueAllLBConfigs x" "credentials_handle x"
  "\<lambda>a b. True" for x
  by unfold_locales
    (simp_all add: credentials_Create_def credentials_Update_def credentials_Delete_def credentials_Generic_def)

section \<open>Properties\<close>

text \<open>
  C37: Every change of the nodes that can move a backend in or out of a selector reaches every
  resource: for any sequence of node events, either all of them were quiet (the initial list, or
  updates that keep the labels) and nothing is queued, or every listed resource is queued and
  nothing else.
\<close>

theorem node_events_requeue_all:
  assumes "client_ListLB x = Inr lbs" "lbs \<noteq> []"
  shows "set (concat (map (\<lambda>e. SetupWithManager x r (NodeEvent e)) evs)) =
    (if list_all (\<lambda>e. case e of CreateEvent _ i \<Rightarrow> i
                     | UpdateEvent a b \<Rightarrow> node_Labels a = node_Labels b | _ \<Rightarrow> False) evs
     then {} else (\<lambda>c. (Namespace (Meta c), Name (Meta c))) ` set lbs)"
proof -
  have q: "node_queueAllLBConfigs x = map (\<lambda>c. (Namespace (Meta c), Name (Meta c))) lbs"
    using assms(1) by (simp add: node_queueAllLBConfigs_def)
  have quiet: "(node_handle x e = []) = (case e of CreateEvent _ i \<Rightarrow> i
                     | UpdateEvent a b \<Rightarrow> node_Labels a = node_Labels b | _ \<Rightarrow> False)" for e
    using node_handler.handle_quiet [of x e] assms(2) q by (auto split: event.splits)
  then show ?thesis
    using node_handler.handle_all [of x evs] q by (simp add: SetupWithManager_def Filter_def)
qed

theorem node_events_requeue_all_witness:
  "set (concat (map (\<lambda>e. SetupWithManager sample_ext sample_reconciler (NodeEvent e))
      [CreateEvent (hd sample_nodes) True, UpdateEvent (hd sample_nodes) (hd sample_nodes\<lparr>node_Labels := Map.empty\<rparr>)])) =
   {(''default'', ''test-lb'')}"
proof -
  have "client_ListLB sample_ext = Inr [sample_lbconfig]" "[sample_lbconfig] \<noteq> []"
    by (simp_all add: sample_ext_def)
  from node_events_requeue_all [OF this, of sample_reconciler
      "[CreateEvent (hd sample_nodes) True, UpdateEvent (hd sample_nodes) (hd sample_nodes\<lparr>node_Labels := Map.empty\<rparr>)]"]
  show ?thesis
    by (simp add: sample_nodes_def sample_lbconfig_def)
qed

text \<open>
  Secrets: any event on a secret of the watched namespace, except its appearance in the initial
  list, queues every resource; events on secrets of other namespaces queue nothing.
\<close>

theorem secret_events_requeue_all:
  "SetupWithManager x r (SecretEvent e) =
     (if WatchNamespace r \<noteq> [] \<and> sec_Namespace (event_object e) = WatchNamespace r \<and> (\<forall>s. e \<noteq> CreateEvent s True)
      then (case client_ListLB x of
              Inl _ \<Rightarrow> [] | Inr lbs \<Rightarrow> map (\<lambda>c. (Namespace (Meta c), Name (Meta c))) lbs)
      else [])"
  using credentials_handler.create [of x] credentials_handler.update [of x]
    credentials_handler.delete [of x] credentials_handler.generic [of x]
  by (cases e) (auto simp: SetupWithManager_def Filter_def credentials_queueAllLBConfigs_def)

text \<open>
  With an empty watch namespace the controller ignores every event on its own resources and on
  secrets; only node events get through.
\<close>

theorem empty_namespace_watches_nothing:
  assumes "WatchNamespace r = []"
  shows "SetupWithManager x r (LBEvent e) = [] \<and> SetupWithManager x r (SecretEvent s) = [] \<and>
    SetupWithManager x r (NodeEvent n) = node_handle x n"
  using assms by (simp add: SetupWithManager_def Filter_def)

theorem empty_namespace_watches_nothing_witness:
  "SetupWithManager sample_ext (sample_reconciler\<lparr>WatchNamespace := []\<rparr>) (LBEvent (CreateEvent sample_lbconfig False)) = []"
  using empty_namespace_watches_nothing [of "sample_reconciler\<lparr>WatchNamespace := []\<rparr>" sample_ext "CreateEvent sample_lbconfig False"]
  by simp

end
