(* ===== verification/ControlLoop.thy ===== *)
theory ControlLoop
  imports ReconcilePass Handlers
begin

text \<open>
  The controller in its surroundings: the API server with the resource, the nodes and the secrets,
  the work queue and the worker that reconciles what is queued, as a transition system. The
  surroundings are the documented behaviour of controller-runtime and of the API server: the queue
  holds a request at most once; a reconciliation that returns an error or panics is queued again; a
  status update is accepted or rejected; an accepted one that changes the stored resource is an
  update event of it. Users edit the specification, the other load balancer writes its own status
  entry, nodes and secrets come, change and go, the process restarts, in any order. The handlers and
  the filter decide which of these events queue the resource.

  Idealised: there is one resource, it is not deleted, a reconciliation reads the current objects,
  nodes are listed in a fixed order, and nobody else writes the managed files.
\<close>

section \<open>The transition system\<close>

text \<open>
  The history of the recorded hashes. \<open>Recorded\<close>: every hash in the stored status describes the file on
  disk. \<open>Unrecorded\<close>: a reconciliation has changed files, but its status update was rejected, or it
  panicked before it sent one, and none has succeeded since. \<open>Overtaken\<close>: in that situation the
  specification, a node or a secret has changed.
\<close>

datatype history = Recorded | Unrecorded | Overtaken

text \<open>
  \<open>ctl_cluster\<close> holds the library functions. \<open>ctl_seen\<close> and \<open>ctl_hist\<close> are history variables that
  nothing reads: the nodes at the last turn of the worker, and the history of the hashes.
\<close>

record ctl =
  ctl_cluster :: ext
  ctl_nodes :: "Node list"
  ctl_secrets :: "NamespacedName \<rightharpoonup> Secret"
  ctl_lb :: LoadBalancerConfig
  ctl_queue :: "NamespacedName list"
  ctl_world :: world
  ctl_seen :: "Node list"
  ctl_hist :: history

abbreviation secret_key :: "Secret \<Rightarrow> NamespacedName" where
  "secret_key sec \<equiv> (sec_Namespace sec, sec_Name sec)"

text \<open>What the renderers see of a cluster with the given nodes: a selector lists the nodes it selects.\<close>

definition cluster_view :: "ext \<Rightarrow> Node list \<Rightarrow> ext" where
  "cluster_view x nodes = x\<lparr>client_ListNodes := \<lambda>sel. Inr (filter (\<lambda>n. sel (node_Labels n)) nodes)\<rparr>"

text \<open>
  The client of the controller, on an API server that answers a status update with \<open>rej\<close> (no error,
  or the error of a rejected update).
\<close>

definition api :: "error option \<Rightarrow> ctl \<Rightarrow> ext" where
  "api rej s =
     (cluster_view (ctl_cluster s) (ctl_nodes s))
       \<lparr>client_GetLB := \<lambda>n. if n = lb_key (ctl_lb s) then Inr (ctl_lb s) else Inl (Errorf ''not found''),
        client_GetSecret := \<lambda>n. case ctl_secrets s n of None \<Rightarrow> Inl (Errorf ''not found'') | Some sec \<Rightarrow> Inr sec,
        client_ListLB := Inr [ctl_lb s], client_StatusUpdate := \<lambda>_. rej\<rparr>"

definition enqueue :: "NamespacedName list \<Rightarrow> NamespacedName list \<Rightarrow> NamespacedName list" where
  "enqueue reqs q = fold add_key reqs q"

text \<open>An event, in the state after the change it reports.\<close>

definition observe :: "LoadBalancerConfigReconciler \<Rightarrow> watch_event \<Rightarrow> ctl \<Rightarrow> ctl" where
  "observe r ev s = s\<lparr>ctl_queue := enqueue (SetupWithManager (api None s) r ev) (ctl_queue s)\<rparr>"

text \<open>An update of the stored resource and the event it causes; one that changes nothing is no event.\<close>

definition store_lb :: "LoadBalancerConfigReconciler \<Rightarrow> LoadBalancerConfig \<Rightarrow> ctl \<Rightarrow> ctl" where
  "store_lb r c s =
     (if c = ctl_lb s then s else observe r (LBEvent (UpdateEvent (ctl_lb s) c)) (s\<lparr>ctl_lb := c\<rparr>))"

text \<open>The history: a change of the input, a reconciliation that was recorded, and one that was not.\<close>

definition overtake :: "ctl \<Rightarrow> ctl" where
  "overtake s = s\<lparr>ctl_hist := (if ctl_hist s = Recorded then Recorded else Overtaken)\<rparr>"

definition files_same :: "LoadBalancerConfigReconciler \<Rightarrow> files \<Rightarrow> files \<Rightarrow> bool" where
  "files_same r fs fs' =
     list_all (\<lambda>f. fs' (configfilePath r f) = fs (configfilePath r f) \<and> fs' (digestfilePath r f) = fs (digestfilePath r f))
       managed_files"

definition recorded :: "error option \<Rightarrow> world \<Rightarrow> ctl \<Rightarrow> ctl" where
  "recorded e w s =
     s\<lparr>ctl_world := w, ctl_hist := (if e = None \<and> ctl_hist s = Unrecorded then Recorded else ctl_hist s)\<rparr>"

definition unrecorded :: "LoadBalancerConfigReconciler \<Rightarrow> world \<Rightarrow> ctl \<Rightarrow> ctl" where
  "unrecorded r w s =
     s\<lparr>ctl_world := w,
       ctl_hist := (if ctl_hist s = Recorded \<and> \<not> files_same r (w_fs (ctl_world s)) (w_fs w) then Unrecorded else ctl_hist s)\<rparr>"

definition requeue :: "NamespacedName \<Rightarrow> ctl \<Rightarrow> ctl" where
  "requeue req s = s\<lparr>ctl_queue := add_key req (ctl_queue s)\<rparr>"

text \<open>
  One turn of the worker: it takes the first request and reconciles it, and the status updates sent by
  the reconciliation reach the API server, which accepts them unless it answers with an error.
  Nothing happens when the queue is empty.
\<close>

definition worker ::
  "host \<Rightarrow> (NodeService list \<Rightarrow> NodeService list) \<Rightarrow> LoadBalancerConfigReconciler \<Rightarrow> error option \<Rightarrow> ctl \<Rightarrow> ctl" where
  "worker h keys r rej s =
     (case ctl_queue s of
        [] \<Rightarrow> s
      | req # q \<Rightarrow>
         (let s0 = s\<lparr>ctl_queue := q, ctl_seen := ctl_nodes s\<rparr> in
          case Reconcile (api rej s) h keys r req (ctl_world s) of
            (Panic p, w) \<Rightarrow> requeue req (unrecorded r w s0)
          | (Ret e, w) \<Rightarrow>
             (let sent = drop (length (w_updates (ctl_world s))) (w_updates w);
                  s1 = (if rej = None \<and> sent \<noteq> []
                        then fold (\<lambda>u t. store_lb r ((ctl_lb t)\<lparr>Status := Status u\<rparr>) t) sent (recorded e w s0)
                        else unrecorded r w s0) in
              if e = None then s1 else requeue req s1)))"

text \<open>
  The steps, in any order: a turn of the worker with any answer of the API server; an edit of the
  specification or the metadata (not of the name); a status update of the other load balancer, which
  leaves the entry of this host alone; nodes that appear, change (not their names) or disappear; secrets
  that are written or deleted; a restart of the process, which begins with the initial list.
\<close>

inductive ctl_step ::
  "host \<Rightarrow> (NodeService list \<Rightarrow> NodeService list) \<Rightarrow> LoadBalancerConfigReconciler \<Rightarrow> ctl \<Rightarrow> ctl \<Rightarrow> bool"
  for h keys r where
  work: "ctl_step h keys r s (worker h keys r rej s)"
| edit: "lb_key ((ctl_lb s)\<lparr>Meta := m\<rparr>) = lb_key (ctl_lb s) \<Longrightarrow>
    ctl_step h keys r s (store_lb r ((ctl_lb s)\<lparr>Meta := m, Spec := sp\<rparr>) (overtake s))"
| peer: "node_ptr ((ctl_lb s)\<lparr>Status := st\<rparr>) (Hostname r) = node_ptr (ctl_lb s) (Hostname r) \<Longrightarrow>
    ctl_step h keys r s (store_lb r ((ctl_lb s)\<lparr>Status := st\<rparr>) s)"
| node_created: "ctl_step h keys r s
    (observe r (NodeEvent (CreateEvent n False)) (overtake (s\<lparr>ctl_nodes := ctl_nodes s @ [n]\<rparr>)))"
| node_updated: "i < length (ctl_nodes s) \<Longrightarrow> node_Name n = node_Name (ctl_nodes s ! i) \<Longrightarrow> ctl_step h keys r s
    (observe r (NodeEvent (UpdateEvent (ctl_nodes s ! i) n)) (overtake (s\<lparr>ctl_nodes := (ctl_nodes s)[i := n]\<rparr>)))"
| node_deleted: "i < length (ctl_nodes s) \<Longrightarrow> ctl_step h keys r s
    (observe r (NodeEvent (DeleteEvent (ctl_nodes s ! i)))
       (overtake (s\<lparr>ctl_nodes := take i (ctl_nodes s) @ drop (Suc i) (ctl_nodes s)\<rparr>)))"
| secret_written: "ctl_step h keys r s
    (observe r (SecretEvent (case ctl_secrets s (secret_key sec) of
                               None \<Rightarrow> CreateEvent sec False | Some old \<Rightarrow> UpdateEvent old sec))
       (overtake (s\<lparr>ctl_secrets := (ctl_secrets s)(secret_key sec \<mapsto> sec)\<rparr>)))"
| secret_deleted: "ctl_secrets s (secret_key sec) = Some sec \<Longrightarrow> ctl_step h keys r s
    (observe r (SecretEvent (DeleteEvent sec)) (overtake (s\<lparr>ctl_secrets := (ctl_secrets s)(secret_key sec := None)\<rparr>)))"
| restart: "ctl_step h keys r s (observe r (LBEvent (CreateEvent (ctl_lb s) True)) (s\<lparr>ctl_queue := []\<rparr>))"

text \<open>
  The start of the process: the resource is in the watched namespace and arrives with the initial
  list of the watch. Its recorded hashes are truthful, for instance because nothing is recorded for
  this host yet.
\<close>

definition ctl_start :: "LoadBalancerConfigReconciler \<Rightarrow> ctl \<Rightarrow> bool" where
  "ctl_start r s =
     (WatchNamespace r \<noteq> [] \<and> Namespace (Meta (ctl_lb s)) = WatchNamespace r \<and>
      Combine_spec (ctl_cluster s) \<and> Keys_spec (ctl_cluster s) \<and>
      ctl_queue s = SetupWithManager (api None s) r (LBEvent (CreateEvent (ctl_lb s) True)) \<and>
      ctl_hist s = Recorded \<and> (\<forall>f \<in> set managed_files. truthful r f ((ctl_world s)\<lparr>w_lb := ctl_lb s\<rparr>)))"

inductive ctl_reach ::
  "host \<Rightarrow> (NodeService list \<Rightarrow> NodeService list) \<Rightarrow> LoadBalancerConfigReconciler \<Rightarrow> ctl \<Rightarrow> bool"
  for h keys r where
  start: "ctl_start r s \<Longrightarrow> ctl_reach h keys r s"
| step: "ctl_reach h keys r s \<Longrightarrow> ctl_step h keys r s s' \<Longrightarrow> ctl_reach h keys r s'"

text \<open>
  Every file holds what is rendered from the stored specification, the stored secret and the nodes
  that the last turn of the worker saw.
\<close>

definition applied :: "host \<Rightarrow> LoadBalancerConfigReconciler \<Rightarrow> ctl \<Rightarrow> bool" where
  "applied h r s =
     (\<exists>sec. ctl_secrets s (creds_key (ctl_lb s)) = Some sec \<and>
       (\<forall>st \<in> set (lb_stages (cluster_view (ctl_cluster s) (ctl_seen s)) h r sec None).
          \<exists>d. stage_render st (ctl_lb s) = Ret (Inr d) \<and> holds_data r (stage_file st) d (ctl_world s)))"

text \<open>Since then no node has come, gone or changed its labels.\<close>

definition nodes_kept :: "ctl \<Rightarrow> bool" where
  "nodes_kept s = list_all2 (\<lambda>a b. node_Name a = node_Name b \<and> node_Labels a = node_Labels b) (ctl_seen s) (ctl_nodes s)"

abbreviation stored_world :: "ctl \<Rightarrow> world" where
  "stored_world s \<equiv> (ctl_world s)\<lparr>w_lb := ctl_lb s\<rparr>"

text \<open>The recorded hashes fit what a reconciliation would write now.\<close>

definition fitting :: "host \<Rightarrow> LoadBalancerConfigReconciler \<Rightarrow> ctl \<Rightarrow> bool" where
  "fitting h r s =
     (\<forall>sec. ctl_secrets s (creds_key (ctl_lb s)) = Some sec \<longrightarrow>
        stages_fit (lb_stages (cluster_view (ctl_cluster s) (ctl_nodes s)) h r sec None) r (stored_world s))"

definition ctl_base :: "LoadBalancerConfigReconciler \<Rightarrow> ctl \<Rightarrow> bool" where
  "ctl_base r s =
     (WatchNamespace r \<noteq> [] \<and> Namespace (Meta (ctl_lb s)) = WatchNamespace r \<and>
      Combine_spec (ctl_cluster s) \<and> Keys_spec (ctl_cluster s) \<and>
      (ctl_queue s = [lb_key (ctl_lb s)] \<or>
       ctl_queue s = [] \<and> node_ptr (ctl_lb s) (Hostname r) \<noteq> None \<and> nodes_kept s))"

definition hist_inv :: "host \<Rightarrow> LoadBalancerConfigReconciler \<Rightarrow> ctl \<Rightarrow> bool" where
  "hist_inv h r s =
     (case ctl_hist s of
        Recorded \<Rightarrow> (\<forall>f \<in> set managed_files. truthful r f (stored_world s)) \<and> (ctl_queue s = [] \<longrightarrow> applied h r s)
      | Unrecorded \<Rightarrow> ctl_queue s \<noteq> [] \<and> fitting h r s
      | Overtaken \<Rightarrow> True)"

definition ctl_inv :: "host \<Rightarrow> LoadBalancerConfigReconciler \<Rightarrow> ctl \<Rightarrow> bool" where
  "ctl_inv h r s = (ctl_base r s \<and> hist_inv h r s)"

section \<open>Lemmas: the client\<close>

lemma cluster_view_sel [simp]:
  "Combine_spec (cluster_view x ns) = Combine_spec x" "Keys_spec (cluster_view x ns) = Keys_spec x"
  by (simp_all add: cluster_view_def Combine_spec_def Keys_spec_def)

lemma api_sel [simp]:
  "client_GetSecret (api rej s) n = (case ctl_secrets s n of None \<Rightarrow> Inl (Errorf ''not found'') | Some sec \<Rightarrow> Inr sec)"
  "client_GetLB (api rej s) (lb_key (ctl_lb s)) = Inr (ctl_lb s)" "client_ListLB (api rej s) = Inr [ctl_lb s]"
  "client_StatusUpdate (api rej s) u = rej"
  "Combine_spec (api rej s) = Combine_spec (ctl_cluster s)" "Keys_spec (api rej s) = Keys_spec (ctl_cluster s)"
  by (simp_all add: api_def cluster_view_def Combine_spec_def Keys_spec_def)

lemma api_inputs: "same_inputs (api rej s) (cluster_view (ctl_cluster s) (ctl_nodes s))"
  by (simp add: api_def same_inputs_def)

lemmas api_inputs_simps [simp] = inputs_cong [OF api_inputs]

lemma host_status_api: "host_status (api rej s) h r ns = host_status (cluster_view (ctl_cluster s) (ctl_nodes s)) h r ns"
  by (simp add: host_status_def ext_cong [OF api_inputs])

section \<open>Lemmas: events\<close>

lemma enqueue_own:
  "q = [] \<or> q = [k] \<Longrightarrow> enqueue [k] q = [k]" "enqueue [] q = q"
  by (auto simp: enqueue_def add_key_def)

lemma SetupWithManager_own:
  assumes "WatchNamespace r \<noteq> []" "Namespace (Meta c) = WatchNamespace r"
  shows "SetupWithManager x r (LBEvent (UpdateEvent a c)) = [lb_key c]"
    "SetupWithManager x r (LBEvent (CreateEvent c i)) = [lb_key c]"
  using assms by (simp_all add: SetupWithManager_def Filter_def)

text \<open>Which events of nodes and secrets queue the resource.\<close>

lemma SetupWithManager_node:
  "SetupWithManager (api rej s) r (NodeEvent (CreateEvent n False)) = [lb_key (ctl_lb s)]"
  "SetupWithManager (api rej s) r (NodeEvent (DeleteEvent n)) = [lb_key (ctl_lb s)]"
  "SetupWithManager (api rej s) r (NodeEvent (UpdateEvent a b)) =
     (if node_Labels a = node_Labels b then [] else [lb_key (ctl_lb s)])"
  using node_handler.create [of "api rej s"] node_handler.delete [of "api rej s"] node_handler.update [of "api rej s"]
  by (simp_all add: SetupWithManager_def Filter_def node_queueAllLBConfigs_def)

lemma SetupWithManager_secret:
  assumes "e \<in> {CreateEvent sec False, UpdateEvent old sec, DeleteEvent sec}"
  shows "SetupWithManager (api rej s) r (SecretEvent e) =
     (if WatchNamespace r \<noteq> [] \<and> sec_Namespace sec = WatchNamespace r then [lb_key (ctl_lb s)] else [])"
  using assms secret_events_requeue_all [of "api rej s" r e] by auto

section \<open>Lemmas: the invariant\<close>

lemma pending_inv:
  assumes "ctl_base r s" "ctl_queue s = [lb_key (ctl_lb s)]"
    and "ctl_hist s = Recorded \<Longrightarrow> \<forall>f \<in> set managed_files. truthful r f (stored_world s)"
    and "ctl_hist s = Unrecorded \<Longrightarrow> fitting h r s"
  shows "ctl_inv h r s"
  using assms by (auto simp: ctl_inv_def hist_inv_def split: history.split)

lemma truthful_fitting: "\<forall>f \<in> set managed_files. truthful r f (stored_world s) \<Longrightarrow> fitting h r s"
  by (simp add: fitting_def truthful_stages_fit)

lemma ctl_start_inv: "ctl_start r s \<Longrightarrow> ctl_inv h r s"
  by (rule pending_inv) (auto simp: ctl_start_def ctl_base_def SetupWithManager_own)

lemma overtake_inv:
  assumes "ctl_inv h r s"
  shows "ctl_inv h r (overtake s)" "ctl_hist (overtake s) \<noteq> Unrecorded"
  using assms
  by (auto simp: ctl_inv_def ctl_base_def hist_inv_def overtake_def applied_def nodes_kept_def split: history.splits)

lemma store_lb_inv:
  assumes "ctl_inv h r s" "lb_key c = lb_key (ctl_lb s)" "node_ptr c (Hostname r) = node_ptr (ctl_lb s) (Hostname r)"
    and "ctl_hist s \<noteq> Unrecorded \<or> Spec c = Spec (ctl_lb s)"
  shows "ctl_inv h r (store_lb r c s)"
proof (cases "c = ctl_lb s")
  case True
  then show ?thesis using assms(1) by (simp add: store_lb_def)
next
  case False
  have own: "WatchNamespace r \<noteq> []" "Namespace (Meta c) = WatchNamespace r"
    using assms(1,2) by (auto simp: ctl_inv_def ctl_base_def)
  have "enqueue [lb_key c] (ctl_queue s) = [lb_key c]"
    using assms(1,2) by (intro enqueue_own) (auto simp: ctl_inv_def ctl_base_def)
  then have s': "store_lb r c s = s\<lparr>ctl_lb := c, ctl_queue := [lb_key c]\<rparr>"
    using False SetupWithManager_own(1) [OF own] by (simp add: store_lb_def observe_def)
  have hash: "hash_in_status r f ((ctl_world s)\<lparr>w_lb := c\<rparr>) = hash_in_status r f (stored_world s)" for f
    by (rule hash_in_status_lb) (simp add: assms(3))
  show ?thesis
    unfolding s'
  proof (rule pending_inv)
    show "ctl_base r (s\<lparr>ctl_lb := c, ctl_queue := [lb_key c]\<rparr>)"
      using assms(1) own by (simp add: ctl_inv_def ctl_base_def)
    show "\<forall>f \<in> set managed_files. truthful r f (stored_world (s\<lparr>ctl_lb := c, ctl_queue := [lb_key c]\<rparr>))"
      if "ctl_hist (s\<lparr>ctl_lb := c, ctl_queue := [lb_key c]\<rparr>) = Recorded"
      using that assms(1) hash content_frame(1) [of r _ "(ctl_world s)\<lparr>w_lb := c\<rparr>" "stored_world s"]
      by (simp add: ctl_inv_def hist_inv_def)
    show "fitting h r (s\<lparr>ctl_lb := c, ctl_queue := [lb_key c]\<rparr>)"
      if "ctl_hist (s\<lparr>ctl_lb := c, ctl_queue := [lb_key c]\<rparr>) = Unrecorded"
    proof -
      have "Spec c = Spec (ctl_lb s)" "Namespace (Meta c) = Namespace (Meta (ctl_lb s))" "fitting h r s"
        using that assms(1,2,4) by (simp_all add: ctl_inv_def hist_inv_def)
      then show ?thesis
        using hash stages_fit_cong [of "(ctl_world s)\<lparr>w_lb := c\<rparr>" "stored_world s"] by (simp add: fitting_def)
    qed
  qed simp
qed

text \<open>A change of nodes or secrets: its event queues the resource, or the files stay up to date.\<close>

lemma observe_inv:
  assumes "ctl_inv h r s" and s': "s' = overtake (s\<lparr>ctl_nodes := ns, ctl_secrets := secs\<rparr>)"
    and "SetupWithManager (api None s') r ev = [lb_key (ctl_lb s)] \<or>
      SetupWithManager (api None s') r ev = [] \<and> (nodes_kept s \<longrightarrow> nodes_kept s') \<and>
      secs (creds_key (ctl_lb s)) = ctl_secrets s (creds_key (ctl_lb s))"
  shows "ctl_inv h r (observe r ev s')"
  using assms(3)
proof
  assume ev: "SetupWithManager (api None s') r ev = [lb_key (ctl_lb s)]"
  have "enqueue [lb_key (ctl_lb s)] (ctl_queue s) = [lb_key (ctl_lb s)]"
    using assms(1) by (intro enqueue_own) (auto simp: ctl_inv_def ctl_base_def)
  then show ?thesis
    using ev assms(1)
    by (intro pending_inv)
      (auto simp: observe_def s' overtake_def ctl_inv_def ctl_base_def hist_inv_def split: history.splits if_splits)
next
  assume ev: "SetupWithManager (api None s') r ev = [] \<and> (nodes_kept s \<longrightarrow> nodes_kept s') \<and>
      secs (creds_key (ctl_lb s)) = ctl_secrets s (creds_key (ctl_lb s))"
  then have "observe r ev s' = s'"
    by (simp add: observe_def enqueue_own)
  moreover have "ctl_base r s'"
    using assms(1) ev by (auto simp: s' overtake_def ctl_inv_def ctl_base_def)
  moreover have "hist_inv h r s'"
    using assms(1) ev by (auto simp: s' overtake_def ctl_inv_def hist_inv_def applied_def split: history.splits)
  ultimately show ?thesis
    by (simp add: ctl_inv_def)
qed

section \<open>Lemmas: one turn of the worker\<close>

lemma worker_idle [simp]: "ctl_queue s = [] \<Longrightarrow> worker h keys r rej s = s"
  by (simp add: worker_def)

lemma files_same_stored:
  assumes "files_same r fs fs'" "f \<in> set managed_files"
  shows "stored r f t fs' = stored r f t fs"
  using assms by (simp add: files_same_def list_all_iff stored_def)

lemma files_same_content:
  assumes "files_same r (w_fs w) (w_fs w')" "f \<in> set managed_files"
  shows "truthful r f (w'\<lparr>w_lb := c\<rparr>) = truthful r f (w\<lparr>w_lb := c\<rparr>)"
    "hash_fits r f d (w'\<lparr>w_lb := c\<rparr>) = hash_fits r f d (w\<lparr>w_lb := c\<rparr>)"
  using files_same_stored [OF assms] by (intro content_frame, simp, simp add: hash_in_status_def)+

text \<open>A turn whose result is not stored leaves the resource queued, and the hashes still fit.\<close>

lemma unrecorded_inv:
  assumes "ctl_inv h r s" "\<forall>f \<in> set managed_files. healthy h r f" "ctl_queue s = [lb_key (ctl_lb s)]"
    and "Reconcile (api rej s) h keys r (lb_key (ctl_lb s)) (ctl_world s) = (out, w)"
  shows "ctl_inv h r ((unrecorded r w s)\<lparr>ctl_seen := ctl_nodes s\<rparr>)"
proof (rule pending_inv)
  let ?s = "(unrecorded r w s)\<lparr>ctl_seen := ctl_nodes s\<rparr>"
  show "ctl_base r ?s" "ctl_queue ?s = [lb_key (ctl_lb ?s)]"
    using assms(1,3) by (simp_all add: unrecorded_def ctl_inv_def ctl_base_def)
  show "\<forall>f \<in> set managed_files. truthful r f (stored_world ?s)" if "ctl_hist ?s = Recorded"
    using that assms(1) files_same_content(1) [of r "ctl_world s" w]
    by (auto simp: unrecorded_def ctl_inv_def hist_inv_def split: if_splits)
  show "fitting h r ?s" if hist: "ctl_hist ?s = Unrecorded"
  proof -
    have fit: "fitting h r s"
      using hist assms(1) truthful_fitting [of r s h]
      by (auto simp: unrecorded_def ctl_inv_def hist_inv_def split: if_splits)
    have "stages_fit (lb_stages (cluster_view (ctl_cluster s) (ctl_nodes s)) h r sec None) r (w\<lparr>w_lb := ctl_lb s\<rparr>)"
      if "ctl_secrets s (creds_key (ctl_lb s)) = Some sec" for sec
      using Reconcile_fits [OF api_sel(2) _ assms(2) _ assms(4)] that fit by (simp add: fitting_def)
    then show ?thesis
      by (simp add: fitting_def unrecorded_def)
  qed
qed

lemma worker_result:
  assumes "ctl_inv h r s" "ctl_queue s = [lb_key (ctl_lb s)]" "ctl_secrets s (creds_key (ctl_lb s)) = Some sec"
    and R: "Reconcile (api None s) h keys r (lb_key (ctl_lb s)) (ctl_world s) = (Ret e, w)"
  shows "worker h keys r None s = (recorded e w s)\<lparr>ctl_lb := w_lb w, ctl_seen := ctl_nodes s,
    ctl_queue := (if e = None \<and> w_lb w = ctl_lb s then [] else [lb_key (ctl_lb s)])\<rparr>"
proof -
  have own: "WatchNamespace r \<noteq> []" "Namespace (Meta (ctl_lb s)) = WatchNamespace r"
    and sec: "client_GetSecret (api None s) (creds_key (ctl_lb s)) = Inr sec"
    using assms(1,3) by (simp_all add: ctl_inv_def ctl_base_def)
  have sent: "w_updates w = w_updates (ctl_world s) @ [w_lb w]" "Spec (w_lb w) = Spec (ctl_lb s)" "Meta (w_lb w) = Meta (ctl_lb s)"
    using Reconcile_sent [OF api_sel(2) sec R] by auto
  have new: "(ctl_lb s)\<lparr>Status := Status (w_lb w)\<rparr> = w_lb w" "Namespace (Meta (w_lb w)) = WatchNamespace r"
    using sent(2,3) own(2) by simp_all
  have store: "store_lb r (w_lb w) (recorded e w (s\<lparr>ctl_queue := [], ctl_seen := ctl_nodes s\<rparr>)) =
      (recorded e w s)\<lparr>ctl_lb := w_lb w, ctl_seen := ctl_nodes s,
         ctl_queue := (if w_lb w = ctl_lb s then [] else [lb_key (ctl_lb s)])\<rparr>"
    using SetupWithManager_own(1) [OF own(1) new(2)] sent(3) own(2)
    by (simp add: store_lb_def observe_def recorded_def enqueue_own)
  show ?thesis
    using assms(2) R sent(1) new(1) store
    by (cases e) (simp_all add: worker_def Let_def recorded_def requeue_def add_key_def)
qed

text \<open>The two ways a turn ends: its result is not stored, or it is.\<close>

lemma worker_cases:
  assumes "ctl_inv h r s" "ctl_queue s = [lb_key (ctl_lb s)]"
  obtains (unstored) out w where
    "Reconcile (api rej s) h keys r (lb_key (ctl_lb s)) (ctl_world s) = (out, w)"
    "worker h keys r rej s = (unrecorded r w s)\<lparr>ctl_seen := ctl_nodes s\<rparr>"
  | (result) sec e w where "rej = None" "ctl_secrets s (creds_key (ctl_lb s)) = Some sec"
    "Reconcile (api None s) h keys r (lb_key (ctl_lb s)) (ctl_world s) = (Ret e, w)"
    "worker h keys r rej s = (recorded e w s)\<lparr>ctl_lb := w_lb w, ctl_seen := ctl_nodes s,
       ctl_queue := (if e = None \<and> w_lb w = ctl_lb s then [] else [lb_key (ctl_lb s)])\<rparr>"
proof -
  have C: "Combine_spec (api rej s)"
    using assms(1) by (simp add: ctl_inv_def ctl_base_def)
  obtain out w where R: "Reconcile (api rej s) h keys r (lb_key (ctl_lb s)) (ctl_world s) = (out, w)" by fastforce
  have again: "requeue (lb_key (ctl_lb s)) (unrecorded r w (s\<lparr>ctl_queue := [], ctl_seen := ctl_nodes s\<rparr>)) =
      (unrecorded r w s)\<lparr>ctl_seen := ctl_nodes s\<rparr>"
    using assms(2) by (cases s) (simp add: requeue_def unrecorded_def add_key_def)
  consider (panic) p where "out = Panic p" | (nosecret) e where "out = Ret (Some e)" "w_updates w = w_updates (ctl_world s)"
    | (returned) sec e where "out = Ret e" "ctl_secrets s (creds_key (ctl_lb s)) = Some sec"
    using R by (cases out; cases "ctl_secrets s (creds_key (ctl_lb s))") (auto simp: Reconcile_def)
  then show ?thesis
  proof cases
    case panic
    then show ?thesis using R assms(2) again by (intro unstored) (simp_all add: worker_def)
  next
    case nosecret
    then show ?thesis using R assms(2) again by (intro unstored) (simp_all add: worker_def)
  next
    case returned
    then have sec: "client_GetSecret (api rej s) (creds_key (ctl_lb s)) = Inr sec" by simp
    obtain err where e: "e = multierr_Combine (api rej s) [err, rej]"
      using Reconcile_sent [OF api_sel(2) sec R [unfolded returned(1)]] by auto
    show ?thesis
    proof (cases rej)
      case None
      then show ?thesis
        using result [OF None returned(2)] worker_result [OF assms returned(2)] R returned(1) by simp
    next
      case (Some er)
      then have "e \<noteq> None" using e Combine_two [OF C, of err rej] by simp
      then show ?thesis using R assms(2) again returned(1) Some by (intro unstored) (auto simp: worker_def)
    qed
  qed
qed

lemma recorded_inv:
  assumes "ctl_inv h r s" "\<forall>f \<in> set managed_files. healthy h r f" "ctl_queue s = [lb_key (ctl_lb s)]"
    and "ctl_secrets s (creds_key (ctl_lb s)) = Some sec"
    and R: "Reconcile (api None s) h keys r (lb_key (ctl_lb s)) (ctl_world s) = (Ret e, w)"
  defines "s' \<equiv> (recorded e w s)\<lparr>ctl_lb := w_lb w, ctl_seen := ctl_nodes s,
       ctl_queue := (if e = None \<and> w_lb w = ctl_lb s then [] else [lb_key (ctl_lb s)])\<rparr>"
  shows "ctl_inv h r s'"
proof -
  let ?x = "api None s" and ?st = "lb_stages (cluster_view (ctl_cluster s) (ctl_nodes s)) h r sec None"
  have C: "Combine_spec ?x" and rd: "\<forall>f \<in> set managed_files. readable h r f"
    and sec: "client_GetSecret ?x (creds_key (ctl_lb s)) = Inr sec"
    using assms(1,2,4) healthy_readable by (auto simp: ctl_inv_def ctl_base_def)
  obtain upd err w1 where r1: "ReconcileLBConfig ?x h r sec None (stored_world s) = (Ret (upd, err), w1)" "w_fs w = w_fs w1"
    "\<forall>f. hash_in_status r f w = hash_in_status r f w1" "host_known r (ctl_lb s)"
    and "w_updates w = w_updates (ctl_world s) @ [w_lb w]"
    and same: "Spec (w_lb w) = Spec (ctl_lb s)" "Meta (w_lb w) = Meta (ctl_lb s)" "registered r w"
    and "e = multierr_Combine ?x [err, client_StatusUpdate ?x (w_lb w)]"
    using api_sel(2) sec R by (rule Reconcile_sent)
  have "ctl_base r s'"
    using assms(1) same
    by (simp add: s'_def recorded_def ctl_inv_def ctl_base_def registered_def nodes_kept_def list.rel_refl)
  moreover have "hist_inv h r s'"
  proof -
    have fit: "stages_fit ?st r (stored_world s)" if "ctl_hist s \<noteq> Overtaken"
      using that assms(1,4) truthful_fitting [of r s h]
      by (cases "ctl_hist s") (auto simp: ctl_inv_def hist_inv_def fitting_def)
    have done1: "\<forall>f \<in> set managed_files. truthful r f w" "w_lb w = ctl_lb s \<Longrightarrow> applied h r s'"
      if "ctl_hist s \<noteq> Overtaken" "e = None"
      using reconciled_stages [OF C rd _ api_sel(2) r1(4) sec R [unfolded that(2)]] fit [OF that(1)] assms(4)
      by (simp_all add: applied_def s'_def recorded_def)
    have keep: "\<forall>f \<in> set managed_files. truthful r f w" if "ctl_hist s = Recorded"
      using ReconcileLBConfig_truthful [OF _ _ r1(1)] r1(2-4) that assms(1,2) content_frame(1) [of r _ w w1]
      by (simp add: ctl_inv_def hist_inv_def)
    have "fitting h r s'" if "ctl_hist s = Unrecorded"
    proof -
      have "stages_fit ?st r w1"
        using ReconcileLBConfig_files(2) [OF _ assms(2) _ r1(1)] r1(4) fit that by simp
      moreover have "Spec (w_lb w) = Spec (w_lb w1)"
        using ReconcileLBConfig_frame [OF r1(1)] same(1) by simp
      ultimately have "stages_fit ?st r w"
        using stages_fit_cong [OF _ r1(2) r1(3) [rule_format]] by simp
      then show ?thesis using same assms(4) by (simp add: fitting_def s'_def recorded_def)
    qed
    then show ?thesis
      using done1 keep by (cases "ctl_hist s"; cases e) (auto simp: hist_inv_def s'_def recorded_def)
  qed
  ultimately show ?thesis
    by (simp add: ctl_inv_def)
qed

lemma worker_inv:
  assumes "ctl_inv h r s" "\<forall>f \<in> set managed_files. healthy h r f"
  shows "ctl_inv h r (worker h keys r rej s)"
proof (cases "ctl_queue s = []")
  case True
  then show ?thesis using assms(1) by simp
next
  case False
  then have q: "ctl_queue s = [lb_key (ctl_lb s)]"
    using assms(1) by (auto simp: ctl_inv_def ctl_base_def)
  show ?thesis
    using assms(1) q
  proof (cases rule: worker_cases [where rej = rej and keys = keys])
    case (unstored out w)
    then show ?thesis using unrecorded_inv [OF assms q] by simp
  next
    case (result sec e w)
    then show ?thesis using recorded_inv [OF assms q] by simp
  qed
qed

text \<open>The events of nodes and secrets, one by one.\<close>

lemma node_events_inv:
  assumes "ctl_inv h r s"
  shows "ctl_inv h r (observe r (NodeEvent (CreateEvent n False)) (overtake (s\<lparr>ctl_nodes := ns\<rparr>)))"
    "ctl_inv h r (observe r (NodeEvent (DeleteEvent n)) (overtake (s\<lparr>ctl_nodes := ns\<rparr>)))"
    "i < length (ctl_nodes s) \<Longrightarrow> node_Name n = node_Name (ctl_nodes s ! i) \<Longrightarrow>
      ctl_inv h r (observe r (NodeEvent (UpdateEvent (ctl_nodes s ! i) n)) (overtake (s\<lparr>ctl_nodes := (ctl_nodes s)[i := n]\<rparr>)))"
proof -
  note ev = observe_inv [OF assms, where secs = "ctl_secrets s", simplified, OF refl]
  show "ctl_inv h r (observe r (NodeEvent (CreateEvent n False)) (overtake (s\<lparr>ctl_nodes := ns\<rparr>)))"
    "ctl_inv h r (observe r (NodeEvent (DeleteEvent n)) (overtake (s\<lparr>ctl_nodes := ns\<rparr>)))"
    by (rule ev; simp add: SetupWithManager_node overtake_def)+
  assume i: "i < length (ctl_nodes s)" "node_Name n = node_Name (ctl_nodes s ! i)"
  have "nodes_kept s \<Longrightarrow> node_Labels (ctl_nodes s ! i) = node_Labels n \<Longrightarrow>
      nodes_kept (overtake (s\<lparr>ctl_nodes := (ctl_nodes s)[i := n]\<rparr>))"
    using i by (auto simp: nodes_kept_def overtake_def list_all2_conv_all_nth nth_list_update)
  then show "ctl_inv h r (observe r (NodeEvent (UpdateEvent (ctl_nodes s ! i) n)) (overtake (s\<lparr>ctl_nodes := (ctl_nodes s)[i := n]\<rparr>)))"
    using ev SetupWithManager_node(3) by (simp add: overtake_def)
qed

lemma secret_events_inv:
  assumes "ctl_inv h r s" "e \<in> {CreateEvent sec False, UpdateEvent old sec, DeleteEvent sec}"
  shows "ctl_inv h r (observe r (SecretEvent e) (overtake (s\<lparr>ctl_secrets := (ctl_secrets s)(secret_key sec := v)\<rparr>)))"
proof -
  have "WatchNamespace r \<noteq> []" "Namespace (Meta (ctl_lb s)) = WatchNamespace r"
    using assms(1) by (simp_all add: ctl_inv_def ctl_base_def)
  then show ?thesis
    using observe_inv [OF assms(1), where ns = "ctl_nodes s", simplified, OF refl] SetupWithManager_secret [OF assms(2)]
    by (auto simp: overtake_def nodes_kept_def)
qed

lemma ctl_step_inv:
  assumes "ctl_step h keys r s s'" "\<forall>f \<in> set managed_files. healthy h r f" "ctl_inv h r s"
  shows "ctl_inv h r s'"
  using assms(1)
proof cases
  case (work rej)
  then show ?thesis using worker_inv [OF assms(3,2)] by simp
next
  case (edit m sp)
  then show ?thesis
    using overtake_inv [OF assms(3)] by (auto intro!: store_lb_inv simp: node_ptr_def overtake_def)
next
  case (peer st)
  then show ?thesis using assms(3) by (auto intro!: store_lb_inv)
next
  case (secret_written sec)
  then show ?thesis using secret_events_inv [OF assms(3)] by (simp split: option.split)
next
  case (secret_deleted sec)
  then show ?thesis using secret_events_inv [OF assms(3)] by simp
next
  case restart
  have "WatchNamespace r \<noteq> []" "Namespace (Meta (ctl_lb s)) = WatchNamespace r"
    using assms(3) by (simp_all add: ctl_inv_def ctl_base_def)
  then show ?thesis
    using assms(3) restart SetupWithManager_own(2)
    by (intro pending_inv)
      (auto simp: observe_def enqueue_own ctl_inv_def ctl_base_def hist_inv_def fitting_def split: history.splits)
qed (use node_events_inv [OF assms(3)] in simp_all)

lemma ctl_reach_inv:
  assumes "ctl_reach h keys r s" "\<forall>f \<in> set managed_files. healthy h r f"
  shows "ctl_inv h r s"
  using assms(1)
proof induction
  case (start s)
  then show ?case by (rule ctl_start_inv)
next
  case (step s s')
  then show ?case using ctl_step_inv [OF step(2) assms(2)] by blast
qed

section \<open>Lemmas: settling\<close>

lemma worker_frame:
  assumes "ctl_inv h r s"
  shows "ctl_cluster (worker h keys r rej s) = ctl_cluster s" "ctl_nodes (worker h keys r rej s) = ctl_nodes s"
    "ctl_secrets (worker h keys r rej s) = ctl_secrets s"
    "ctl_seen (worker h keys r rej s) = (if ctl_queue s = [] then ctl_seen s else ctl_nodes s)"
    "ctl_hist s \<noteq> Overtaken \<Longrightarrow> ctl_hist (worker h keys r rej s) \<noteq> Overtaken"
proof -
  have "ctl_cluster (worker h keys r rej s) = ctl_cluster s \<and> ctl_nodes (worker h keys r rej s) = ctl_nodes s \<and>
    ctl_secrets (worker h keys r rej s) = ctl_secrets s \<and>
    ctl_seen (worker h keys r rej s) = (if ctl_queue s = [] then ctl_seen s else ctl_nodes s) \<and>
    (ctl_hist s \<noteq> Overtaken \<longrightarrow> ctl_hist (worker h keys r rej s) \<noteq> Overtaken)"
  proof (cases "ctl_queue s = []")
    case False
    then have q: "ctl_queue s = [lb_key (ctl_lb s)]"
      using assms by (auto simp: ctl_inv_def ctl_base_def)
    from assms this show ?thesis
      by (cases rule: worker_cases [where rej = rej and keys = keys]) (simp_all add: q unrecorded_def recorded_def)
  qed simp
  then show "ctl_cluster (worker h keys r rej s) = ctl_cluster s" "ctl_nodes (worker h keys r rej s) = ctl_nodes s"
    "ctl_secrets (worker h keys r rej s) = ctl_secrets s"
    "ctl_seen (worker h keys r rej s) = (if ctl_queue s = [] then ctl_seen s else ctl_nodes s)"
    "ctl_hist s \<noteq> Overtaken \<Longrightarrow> ctl_hist (worker h keys r rej s) \<noteq> Overtaken"
    by simp_all
qed

lemma turns_inv:
  assumes "ctl_inv h r s" "\<forall>f \<in> set managed_files. healthy h r f"
  shows "ctl_inv h r ((worker h keys r rej ^^ n) s)"
    "ctl_hist s \<noteq> Overtaken \<Longrightarrow> ctl_hist ((worker h keys r rej ^^ n) s) \<noteq> Overtaken"
    "ctl_nodes ((worker h keys r rej ^^ n) s) = ctl_nodes s"
    "ctl_seen ((worker h keys r rej ^^ n) s) = (if n = 0 \<or> ctl_queue s = [] then ctl_seen s else ctl_nodes s)"
proof (induction n)
  case 0
  { case 1 show ?case using assms(1) by simp }
  { case 2 then show ?case by simp }
  { case 3 show ?case by simp }
  { case 4 show ?case by simp }
next
  case (Suc n)
  let ?s = "(worker h keys r rej ^^ n) s"
  { case 1 show ?case using worker_inv [OF Suc(1) assms(2)] by simp }
  { case 2 then show ?case using worker_frame(5) [OF Suc(1)] Suc(2) by simp }
  { case 3 show ?case using worker_frame(2) [OF Suc(1)] Suc(3) by simp }
  { case 4 
    have "ctl_queue s = [] \<Longrightarrow> (worker h keys r rej ^^ n) s = s"
      by (induction n) simp_all
    then show ?case using worker_frame(4) [OF Suc(1), of keys rej] Suc(3,4) by (cases n) simp_all }
qed

text \<open>
  The state after a reconciliation without an error: the files are synchronised with the stored
  status. From there a turn of the worker only refreshes the entry of this host, and the second
  such turn finds nothing to refresh.
\<close>

definition ctl_synced :: "host \<Rightarrow> LoadBalancerConfigReconciler \<Rightarrow> Secret \<Rightarrow> ctl \<Rightarrow> bool" where
  "ctl_synced h r sec s =
     (ctl_secrets s (creds_key (ctl_lb s)) = Some sec \<and> network_ok (cluster_view (ctl_cluster s) (ctl_nodes s)) h r \<and>
      (\<forall>st \<in> set (lb_stages (cluster_view (ctl_cluster s) (ctl_nodes s)) h r sec None).
         \<exists>d. rendered st (ctl_lb s) = Some d \<and> synced r (stage_file st) d (stored_world s)))"

lemma worker_synced:
  assumes "ctl_inv h r s" "\<forall>f \<in> set managed_files. healthy h r f" "keys [] = []" "ctl_synced h r sec s"
    and "ctl_queue s = [lb_key (ctl_lb s)]" "node_ptr (ctl_lb s) (Hostname r) = Some ns"
  defines "c' \<equiv> set_node (Hostname r)
    ((host_status (cluster_view (ctl_cluster s) (ctl_nodes s)) h r ns)\<lparr>NodeStatus := NodeStatusReady\<rparr>) (ctl_lb s)"
  defines "w' \<equiv> (ctl_world s)\<lparr>w_lb := c', w_updates := w_updates (ctl_world s) @ [c']\<rparr>"
  shows "worker h keys r None s = (recorded None w' s)\<lparr>ctl_lb := c', ctl_seen := ctl_nodes s,
    ctl_queue := (if c' = ctl_lb s then [] else [lb_key (ctl_lb s)])\<rparr>"
proof -
  let ?x = "api None s"
  have sy: "ctl_secrets s (creds_key (ctl_lb s)) = Some sec" "network_ok (cluster_view (ctl_cluster s) (ctl_nodes s)) h r"
    "\<forall>st \<in> set (lb_stages (cluster_view (ctl_cluster s) (ctl_nodes s)) h r sec None).
       \<exists>d. rendered st (ctl_lb s) = Some d \<and> synced r (stage_file st) d (stored_world s)"
    using assms(4) by (simp_all add: ctl_synced_def)
  have inv: "Combine_spec ?x" "host_known r (w_lb (stored_world s))"
    using assms(1,6) by (simp_all add: ctl_inv_def ctl_base_def host_known_def)
  obtain w1 where init: "InitializeNodeStatus ?x h r (stored_world s) = (Ret None, w1)"
    using network_ok_init [OF sy(2) inv(2)] by auto
  have rd: "\<forall>f \<in> set managed_files. readable h r f"
    using assms(2) healthy_readable by blast
  have "Reconcile ?x h keys r (lb_key (ctl_lb s)) (ctl_world s) = (Ret None, w')"
    using Reconcile_synced [where keys = keys, OF inv(1) rd _ assms(3) api_sel(2) assms(6) _ init] sy(1,3)
    by (simp add: host_status_api c'_def w'_def)
  from worker_result [OF assms(1,5) sy(1) this] show ?thesis
    by (simp add: w'_def)
qed

lemma worker_settles:
  assumes "ctl_inv h r s" "\<forall>f \<in> set managed_files. healthy h r f" "keys [] = []" "ctl_synced h r sec s"
    and "node_ptr (ctl_lb s) (Hostname r) = Some ns"
  shows "ctl_queue (worker h keys r None (worker h keys r None s)) = []"
proof (cases "ctl_queue s = []")
  case True
  then show ?thesis by simp
next
  case False
  then have q: "ctl_queue s = [lb_key (ctl_lb s)]"
    using assms(1) by (auto simp: ctl_inv_def ctl_base_def)
  define ns' where "ns' = (host_status (cluster_view (ctl_cluster s) (ctl_nodes s)) h r ns)\<lparr>NodeStatus := NodeStatusReady\<rparr>"
  define s' where "s' = worker h keys r None s"
  note s' = worker_synced [where keys = keys, OF assms(1-4) q assms(5), folded ns'_def s'_def]
  have ptr: "node_ptr (ctl_lb s') (Hostname r) = Some ns'" "ctl_cluster s' = ctl_cluster s" "ctl_nodes s' = ctl_nodes s"
    and frame: "Spec (ctl_lb s') = Spec (ctl_lb s)" "Meta (ctl_lb s') = Meta (ctl_lb s)" "ctl_secrets s' = ctl_secrets s"
    "w_fs (ctl_world s') = w_fs (ctl_world s)"
    using node_ptr_nodes [OF assms(5)] by (simp_all add: s' node_ptr_set_node recorded_def)
  have "hash_in_status r f (stored_world s') = hash_in_status r f (stored_world s)" for f
    using ptr(1) assms(5) by (simp add: hash_in_status_def ns'_def host_status_def)
  then have sy: "ctl_synced h r sec s'"
    using assms(4) frame spec_onlyD [OF spec_only_lb_stages _ frame(1)] ptr(2,3) by (simp add: ctl_synced_def synced_def)
  have inv: "ctl_inv h r s'"
    using worker_inv [OF assms(1,2)] by (simp add: s'_def)
  show ?thesis
  proof (cases "ctl_queue s' = []")
    case True
    then show ?thesis by (simp add: s'_def)
  next
    case False
    then have q': "ctl_queue s' = [lb_key (ctl_lb s')]"
      using inv by (auto simp: ctl_inv_def ctl_base_def)
    have "(host_status (cluster_view (ctl_cluster s') (ctl_nodes s')) h r ns')\<lparr>NodeStatus := NodeStatusReady\<rparr> = ns'"
      by (simp add: ptr(2,3) ns'_def host_status_def)
    then show ?thesis
      using worker_synced [where keys = keys, OF inv assms(2,3) sy q' ptr(1)] set_node_same [OF ptr(1)] by (simp add: s'_def [symmetric])
  qed
qed

lemma known_host_settles:
  assumes "ctl_inv h r s" "\<forall>f \<in> set managed_files. healthy h r f" "keys [] = []"
    and "ctl_secrets s (creds_key (ctl_lb s)) = Some sec"
    and "valid_input (cluster_view (ctl_cluster s) (ctl_nodes s)) h r sec (ctl_lb s)" "host_known r (ctl_lb s)"
  shows "ctl_queue ((worker h keys r None ^^ 3) s) = []"
proof (cases "ctl_queue s = []")
  case True
  then show ?thesis by (simp add: numeral_3_eq_3)
next
  case False
  then have q: "ctl_queue s = [lb_key (ctl_lb s)]"
    using assms(1) by (auto simp: ctl_inv_def ctl_base_def)
  let ?x = "api None s"
  have specs: "Combine_spec ?x" "Keys_spec ?x"
    using assms(1) by (simp_all add: ctl_inv_def ctl_base_def)
  have rd: "\<forall>f \<in> set managed_files. readable h r f"
    using assms(2) healthy_readable by blast
  have valid: "valid_input ?x h r sec (ctl_lb s)" "network_ok (cluster_view (ctl_cluster s) (ctl_nodes s)) h r"
    and sec: "client_GetSecret ?x (creds_key (ctl_lb s)) = Inr sec"
    using assms(4,5) by (simp_all, simp add: valid_input_def)
  obtain w' where R: "Reconcile ?x h keys r (lb_key (ctl_lb s)) (ctl_world s) = (Ret None, w')"
    using Reconcile_valid [where keys = keys, OF specs valid(1) assms(6,2) api_sel(4,2) sec] .
  define s' where "s' = worker h keys r None s"
  note s' = worker_result [OF assms(1) q assms(4) R, folded s'_def]
  have inv: "ctl_inv h r s'"
    using worker_inv [OF assms(1,2)] by (simp add: s'_def)
  obtain ns where "node_ptr (ctl_lb s') (Hostname r) = Some ns" "ctl_synced h r sec s'"
    using specs(1) rd api_sel(2) assms(6) sec R
  proof (rule Reconcile_success)
    fix ns assume "node_ptr (w_lb w') (Hostname r) = Some ns" "Spec (w_lb w') = Spec (ctl_lb s)" "Meta (w_lb w') = Meta (ctl_lb s)"
      "\<forall>st \<in> set (lb_stages ?x h r sec None). \<exists>d. rendered st (w_lb w') = Some d \<and> synced r (stage_file st) d w'"
    then show thesis
      using that [of ns] s' assms(4) valid(2) by (simp add: ctl_synced_def recorded_def)
  qed
  from worker_settles [where keys = keys, OF inv assms(2,3) this(2,1)] show ?thesis
    by (simp add: s'_def numeral_3_eq_3)
qed

text \<open>A host that is missing from the status stays where it is.\<close>

lemma unknown_host_stuck:
  assumes "ctl_inv h r s" "\<forall>f \<in> set managed_files. healthy h r f" "\<not> host_known r (ctl_lb s)"
  shows "ctl_lb ((worker h keys r rej ^^ n) s) = ctl_lb s \<and>
    ctl_queue ((worker h keys r rej ^^ n) s) = [lb_key (ctl_lb s)] \<and>
    w_fs (ctl_world ((worker h keys r rej ^^ n) s)) = w_fs (ctl_world s)"
proof (induction n)
  case 0
  then show ?case using assms(1,3) by (auto simp: ctl_inv_def ctl_base_def host_known_def)
next
  case (Suc n)
  let ?s = "(worker h keys r rej ^^ n) s"
  have inv: "ctl_inv h r ?s" and q: "ctl_queue ?s = [lb_key (ctl_lb ?s)]" and k: "\<not> host_known r (ctl_lb ?s)"
    using turns_inv(1) [OF assms(1,2)] Suc assms(3) by simp_all
  from inv q show ?case
  proof (cases rule: worker_cases [where rej = rej and keys = keys])
    case (unstored out w)
    have "w_fs w = w_fs (ctl_world ?s)"
    proof (cases "ctl_secrets ?s (creds_key (ctl_lb ?s))")
      case None
      then show ?thesis using unstored(1) by (auto simp: Reconcile_def)
    next
      case (Some sec)
      then obtain out1 w1 where "ReconcileLBConfig (api rej ?s) h r sec None (stored_world ?s) = (out1, w1)" "w_fs w = w_fs w1"
        using Reconcile_runs [OF api_sel(2) _ unstored(1), of sec] by auto
      then show ?thesis
        using ReconcileLBConfig_unknown(1) [of r "stored_world ?s"] k by simp
    qed
    then show ?thesis using Suc unstored(2) by (simp add: unrecorded_def)
  next
    case (result sec e w)
    have "client_GetSecret (api None ?s) (creds_key (ctl_lb ?s)) = Inr sec"
      using result(2) by simp
    from Reconcile_sent [OF api_sel(2) this result(3)] k show ?thesis by metis
  qed
qed

lemma worker_reach: "ctl_reach h keys r s \<Longrightarrow> ctl_reach h keys r ((worker h keys r rej ^^ n) s)"
  by (induction n) (auto intro: ctl_reach.step ctl_step.work)

lemma settled_applied:
  assumes "ctl_inv h r s" "ctl_queue s = []" "ctl_hist s \<noteq> Overtaken"
  shows "applied h r s \<and> nodes_kept s"
  using assms by (auto simp: ctl_inv_def ctl_base_def hist_inv_def split: history.splits)

section \<open>Properties\<close>

text \<open>
  C3: No change is lost. On a host without file-system faults, in every state that the controller
  can reach, however turns of the worker (with accepted and rejected status updates), edits, status
  updates of the other load balancer, changes of nodes and secrets and restarts interleave, the resource
  is waiting in the work queue, or every managed file holds what the renderers make of the stored
  specification, the stored credentials and the nodes that the last turn saw, and since then no node
  has come, gone or changed its labels. Two limits of the code show in the statement. A node update
  that keeps the labels is ignored, so the files may hold an address that a node no longer has. And the
  history must not be \<open>Overtaken\<close>: when a reconciliation that changed files could not record their
  hashes and the input changes before a retry succeeds, a change can be lost (see
  \<open>rejected_update_loses_revert\<close>).
\<close>

theorem pending_or_applied:
  assumes "ctl_reach h keys r s" "\<forall>f \<in> set managed_files. healthy h r f" "ctl_hist s \<noteq> Overtaken"
  shows "ctl_queue s = [(Namespace (Meta (ctl_lb s)), Name (Meta (ctl_lb s)))] \<or>
    ctl_queue s = [] \<and>
    list_all2 (\<lambda>a b. node_Name a = node_Name b \<and> node_Labels a = node_Labels b) (ctl_seen s) (ctl_nodes s) \<and>
    (\<exists>sec. ctl_secrets s (Namespace (Meta (ctl_lb s)), CloudCredentials (Spec (ctl_lb s))) = Some sec \<and>
      (\<forall>st \<in> set (lb_stages (cluster_view (ctl_cluster s) (ctl_seen s)) h r sec None).
        \<exists>d. stage_render st (ctl_lb s) = Ret (Inr d) \<and> holds_data r (stage_file st) d (ctl_world s)))"
proof -
  note inv = ctl_reach_inv [OF assms(1,2)]
  show ?thesis
    using inv settled_applied [OF inv _ assms(3)] unfolding ctl_inv_def ctl_base_def applied_def nodes_kept_def by blast
qed

text \<open>
  C4: The controller comes to rest, provided that the status knows this host or no host. Its own
  status update queues the resource again, but while the API server accepts updates and nothing else
  happens, from every reachable state with a valid specification (and a history that is not
  \<open>Overtaken\<close>) at most three turns of the worker empty the queue; all files are applied then, for the
  current nodes if a request was waiting, and further turns change nothing. Otherwise, when the
  other load balancer has registered first, the worker never comes to rest and never writes a file,
  however valid the specification is.
\<close>

theorem controller_settles:
  assumes "ctl_reach h keys r s" "\<forall>f \<in> set managed_files. healthy h r f" "ctl_hist s \<noteq> Overtaken" "keys [] = []"
    and "ctl_secrets s (Namespace (Meta (ctl_lb s)), CloudCredentials (Spec (ctl_lb s))) = Some sec"
    and "valid_input (cluster_view (ctl_cluster s) (ctl_nodes s)) h r sec (ctl_lb s)"
  shows "if host_known r (ctl_lb s)
    then \<exists>s'. (\<forall>n \<ge> 3. (worker h keys r None ^^ n) s = s') \<and> ctl_queue s' = [] \<and> applied h r s' \<and>
      (ctl_queue s \<noteq> [] \<longrightarrow> ctl_seen s' = ctl_nodes s)
    else \<forall>n. ctl_queue ((worker h keys r None ^^ n) s) = [(Namespace (Meta (ctl_lb s)), Name (Meta (ctl_lb s)))] \<and>
      w_fs (ctl_world ((worker h keys r None ^^ n) s)) = w_fs (ctl_world s)"
proof -
  note inv = ctl_reach_inv [OF assms(1,2)]
  let ?s = "(worker h keys r None ^^ 3) s"
  have "(\<forall>n \<ge> 3. (worker h keys r None ^^ n) s = ?s) \<and> ctl_queue ?s = [] \<and> applied h r ?s \<and>
      (ctl_queue s \<noteq> [] \<longrightarrow> ctl_seen ?s = ctl_nodes s)" if "host_known r (ctl_lb s)"
  proof -
    have idle: "ctl_queue ?s = []"
      using known_host_settles [where keys = keys, OF inv assms(2,4-6) that] .
    moreover have "(worker h keys r None ^^ n) s = ?s" if "n \<ge> 3" for n
      using that by (induction rule: dec_induct) (simp_all add: idle)
    moreover note turns = turns_inv [OF inv assms(2), where keys = keys and rej = None and n = 3]
    have "ctl_queue s \<noteq> [] \<Longrightarrow> ctl_seen ?s = ctl_nodes s"
      using turns(4) by simp
    ultimately show ?thesis
      using settled_applied [OF turns(1) idle turns(2) [OF assms(3)]] by blast
  qed
  note known = this
  show ?thesis
  proof (cases "host_known r (ctl_lb s)")
    case True
    show ?thesis unfolding if_P [OF True] using known [OF True] by blast
  next
    case False
    show ?thesis
      unfolding if_not_P [OF False] using unknown_host_stuck [OF inv assms(2) False, where keys = keys and rej = None] by blast
  qed
qed

text \<open>
  C34: Two resources on one host shadow each other. After a first resource and then a second one were
  reconciled, reconciling the first one again, with the status it has stored, reports it as ready
  and changes nothing: the files keep the texts of the second resource, and no later reconciliation
  of the first will bring its own back. The recorded hashes are compared with the data to be
  written, never with the data in the files.
\<close>

theorem second_resource_shadows_first:
  assumes "Combine_spec x" "\<forall>f \<in> set managed_files. readable h r f" "\<And>c. client_StatusUpdate x c = None" "keys [] = []"
    and "client_GetLB x reqA = Inr a" "host_known r a"
    and "client_GetSecret x (Namespace (Meta a), CloudCredentials (Spec a)) = Inr secA"
    and "client_GetLB x reqB = Inr b" "host_known r b"
    and "client_GetSecret x (Namespace (Meta b), CloudCredentials (Spec b)) = Inr secB"
    and "Reconcile x h keys r reqA w = (Ret None, wA)" "Reconcile x h keys r reqB wA = (Ret None, wB)"
    and "\<forall>f \<in> set managed_files. truthful r f (wA\<lparr>w_lb := b\<rparr>)"
  shows "\<exists>w'. Reconcile (x\<lparr>client_GetLB := \<lambda>_. Inr (w_lb wA)\<rparr>) h keys r reqA wB = (Ret None, w') \<and>
    w_fs w' = w_fs wB \<and> w_cmds w' = w_cmds wB \<and>
    map_option NodeStatus (node_ptr (w_lb w') (Hostname r)) = Some NodeStatusReady \<and>
    (\<forall>st \<in> set (lb_stages x h r secB None). \<exists>d. stage_render st b = Ret (Inr d) \<and> holds_data r (stage_file st) d w')"
proof -
  obtain ns w1 where ns: "node_ptr (w_lb wA) (Hostname r) = Some ns" "Spec (w_lb wA) = Spec a" "Meta (w_lb wA) = Meta a"
    and init: "InitializeNodeStatus x h r (w\<lparr>w_lb := a\<rparr>) = (Ret None, w1)"
    and syncA: "\<forall>s \<in> set (lb_stages x h r secA None). \<exists>d. rendered s (w_lb wA) = Some d \<and> synced r (stage_file s) d wA"
    using assms(1,2,5-7,11) by (rule Reconcile_success)
  have "\<forall>s \<in> set (lb_stages x h r secB None). \<exists>d. synced r (stage_file s) d wB"
    using assms(1,2,8-10,12) by (rule Reconcile_success) blast
  note stored = synced_stored [OF this]
  have "client_GetSecret x (creds_key (w_lb wA)) = Inr secA"
    using assms(7) ns by simp
  from stale_status [where keys = keys, OF assms(1-4) this ns(1) refl init syncA stored] obtain c' where R: "Reconcile (x\<lparr>client_GetLB := \<lambda>_. Inr (w_lb wA)\<rparr>) h keys r reqA wB =
      (Ret None, wB\<lparr>w_lb := c', w_updates := w_updates wB @ [c']\<rparr>)"
    "map_option NodeStatus (node_ptr c' (Hostname r)) = Some NodeStatusReady"
    by blast
  have "\<forall>st \<in> set (lb_stages x h r secB None). \<exists>d. stage_render st b = Ret (Inr d) \<and> holds_data r (stage_file st) d wB"
    using reconciled_stage [OF assms(1) _ assms(8-10,12)] assms(2,13) by blast
  then show ?thesis
    using R holds_data_fs [of "wB\<lparr>w_lb := c', w_updates := w_updates wB @ [c']\<rparr>" wB] by simp
qed

text \<open>
  How a change is lost once the history is \<open>Overtaken\<close>. A resource has been applied; its specification
  is edited, the reconciliation of the edited resource writes the files, and its status update is
  rejected; the edit is reverted before a retry. Then the reconciliation of the resource as it is stored
  reports the host as ready and changes nothing: the files keep the texts of the edit.
\<close>

theorem rejected_update_loses_revert:
  assumes "Combine_spec x" "\<forall>f \<in> set managed_files. readable h r f" "\<And>c. client_StatusUpdate x c = None" "keys [] = []"
    and "client_GetLB x req = Inr a" "host_known r a"
    and "client_GetSecret x (Namespace (Meta a), CloudCredentials (Spec a)) = Inr secA"
    and "Reconcile x h keys r req w = (Ret None, wA)" "\<forall>f \<in> set managed_files. truthful r f wA"
    and "b = (w_lb wA)\<lparr>Spec := sp\<rparr>" "y = x\<lparr>client_GetLB := \<lambda>_. Inr b, client_StatusUpdate := \<lambda>_. Some e\<rparr>"
    and "ReconcileLBConfig y h r secB None (wA\<lparr>w_lb := b\<rparr>) = (Ret (upd, None), w1)"
    and "Reconcile y h keys r req wA = (Ret (Some e'), wB)"
    and "client_GetSecret x (Namespace (Meta b), CloudCredentials (Spec b)) = Inr secB"
  shows "\<exists>w'. Reconcile (x\<lparr>client_GetLB := \<lambda>_. Inr (w_lb wA)\<rparr>) h keys r req wB = (Ret None, w') \<and> w_fs w' = w_fs wB \<and>
    map_option NodeStatus (node_ptr (w_lb w') (Hostname r)) = Some NodeStatusReady \<and>
    (\<forall>st \<in> set (lb_stages x h r secB None). \<exists>d. stage_render st b = Ret (Inr d) \<and> holds_data r (stage_file st) d w')"
proof -
  obtain ns w2 where ns: "node_ptr (w_lb wA) (Hostname r) = Some ns" "Spec (w_lb wA) = Spec a" "Meta (w_lb wA) = Meta a"
    and init: "InitializeNodeStatus x h r (w\<lparr>w_lb := a\<rparr>) = (Ret None, w2)"
    and syncA: "\<forall>s \<in> set (lb_stages x h r secA None). \<exists>d. rendered s (w_lb wA) = Some d \<and> synced r (stage_file s) d wA"
    using assms(1,2,5-8) by (rule Reconcile_success)
  have y: "Combine_spec y" "client_GetLB y req = Inr b" "client_GetSecret y (creds_key b) = Inr secB" "same_inputs y x"
    using assms(1,14) by (simp_all add: assms(11) Combine_spec_def same_inputs_def)
  have known: "host_known r b"
    using ns(1) by (simp add: assms(10) host_known_def node_ptr_def)
  have "hash_in_status r f (wA\<lparr>w_lb := b\<rparr>) = hash_in_status r f wA" for f
    by (rule hash_in_status_lb) (simp add: assms(10) node_ptr_def)
  then have "\<forall>f \<in> set managed_files. truthful r f (wA\<lparr>w_lb := b\<rparr>)"
    using assms(9) content_frame(1) [of r _ "wA\<lparr>w_lb := b\<rparr>" wA] by simp
  from ReconcileLBConfig_ok(2,3) [OF y(1) assms(2) _ assms(12)] truthful_stages_fit [OF this]
  have okB: "\<forall>s \<in> set (lb_stages x h r secB None). \<exists>d. synced r (stage_file s) d w1"
    "\<forall>s \<in> set (lb_stages x h r secB None). \<exists>d. stage_render s b = Ret (Inr d) \<and> holds_data r (stage_file s) d w1"
    using known by (auto simp: rendered_eq lb_stages_cong [OF y(4)])
  have fs: "w_fs wB = w_fs w1"
    using Reconcile_runs [OF y(2,3) assms(13)] assms(12) by auto
  then have stored: "\<forall>f \<in> set managed_files. \<exists>t. stored r f t (w_fs wB)"
    using synced_stored [OF okB(1)] by simp
  have "client_GetSecret x (creds_key (w_lb wA)) = Inr secA"
    using assms(7) ns by simp
  from stale_status [where keys = keys, OF assms(1-4) this ns(1) refl init syncA stored] obtain c' where
    R: "Reconcile (x\<lparr>client_GetLB := \<lambda>_. Inr (w_lb wA)\<rparr>) h keys r req wB =
      (Ret None, wB\<lparr>w_lb := c', w_updates := w_updates wB @ [c']\<rparr>)"
    "map_option NodeStatus (node_ptr c' (Hostname r)) = Some NodeStatusReady"
    by blast
  then show ?thesis
    using okB(2) fs holds_data_fs [of "wB\<lparr>w_lb := c', w_updates := w_updates wB @ [c']\<rparr>" w1] by simp
qed

section \<open>Witnesses\<close>

definition sample_ctl :: ctl where
  "sample_ctl =
     \<lparr>ctl_cluster = sample_ext, ctl_nodes = sample_nodes, ctl_secrets = [(''default'', ''cloudscale-token'') \<mapsto> sample_secret],
      ctl_lb = sample_lbconfig, ctl_queue = [(''default'', ''test-lb'')], ctl_world = empty_world, ctl_seen = [], ctl_hist = Recorded\<rparr>"

text \<open>The same cluster, where the other load balancer has registered first.\<close>

definition peer_first_ctl :: ctl where
  "peer_first_ctl =
     sample_ctl\<lparr>ctl_lb := sample_lbconfig\<lparr>Status := \<lparr>Nodes = Some [''lb0'' \<mapsto> Some zeroNodeStatus], Conditions = []\<rparr>\<rparr>\<rparr>"

lemma sample_start: "ctl_start sample_reconciler sample_ctl" "ctl_start sample_reconciler peer_first_ctl"
proof -
  have own: "WatchNamespace sample_reconciler \<noteq> []" "Namespace (Meta sample_lbconfig) = WatchNamespace sample_reconciler"
    "lb_key sample_lbconfig = (''default'', ''test-lb'')"
    by (simp_all add: sample_reconciler_def sample_lbconfig_def)
  then have q: "SetupWithManager x sample_reconciler (LBEvent (CreateEvent sample_lbconfig True)) = [(''default'', ''test-lb'')]" for x
    using SetupWithManager_own(2) by simp
  show "ctl_start sample_reconciler sample_ctl"
    using own q by (simp add: ctl_start_def sample_ctl_def sample_specs empty_world_truthful)
  let ?c = "ctl_lb peer_first_ctl"
  have "Namespace (Meta ?c) = WatchNamespace sample_reconciler" "lb_key ?c = (''default'', ''test-lb'')"
    using own by (simp_all add: peer_first_ctl_def)
  moreover from this have "SetupWithManager x sample_reconciler (LBEvent (CreateEvent ?c True)) = [(''default'', ''test-lb'')]" for x
    using SetupWithManager_own(2) [OF own(1), of ?c] by simp
  moreover have "truthful r f (empty_world\<lparr>w_lb := c\<rparr>)" for r f c
    by (simp add: truthful_def stored_def)
  ultimately show "ctl_start sample_reconciler peer_first_ctl"
    using own(1) by (simp add: ctl_start_def peer_first_ctl_def sample_ctl_def sample_specs)
qed

lemmas sample_host_healthy = sample_host_facts(1) [of "\<lambda>_. None", unfolded sample_host_update]

lemma sample_view_valid:
  "valid_input (cluster_view sample_ext sample_nodes) sample_host sample_reconciler sample_secret sample_lbconfig"
proof -
  have "backends_ok (cluster_view sample_ext sample_nodes) sample_lbconfig"
    "network_ok (cluster_view sample_ext sample_nodes) sample_host sample_reconciler"
    by code_simp+
  then show ?thesis
    by (simp add: valid_input_def sample_input_ok)
qed

lemma valid_input_spec: "Spec c = Spec c' \<Longrightarrow> valid_input x h r sec c = valid_input x h r sec c'"
  by (simp add: valid_input_def credentials_ok_def addresses_ok_def backends_ok_def)

lemma sample_ctl_valid:
  "ctl_secrets sample_ctl (creds_key (ctl_lb sample_ctl)) = Some sample_secret"
  "valid_input (cluster_view (ctl_cluster sample_ctl) (ctl_nodes sample_ctl)) sample_host sample_reconciler sample_secret (ctl_lb sample_ctl)"
  "ctl_secrets peer_first_ctl (creds_key (ctl_lb peer_first_ctl)) = Some sample_secret"
  "valid_input (cluster_view (ctl_cluster peer_first_ctl) (ctl_nodes peer_first_ctl)) sample_host sample_reconciler sample_secret
     (ctl_lb peer_first_ctl)"
  using sample_view_valid valid_input_spec [of "ctl_lb peer_first_ctl" sample_lbconfig]
  by (simp_all add: peer_first_ctl_def sample_ctl_def) (simp_all add: sample_lbconfig_def sample_spec_def)

lemma sample_ctl_known: "host_known sample_reconciler (ctl_lb sample_ctl)" "\<not> host_known sample_reconciler (ctl_lb peer_first_ctl)"
  using sample_known
  by (simp_all add: sample_ctl_def peer_first_ctl_def host_known_def node_ptr_def sample_reconciler_def)

lemma sample_recorded: "ctl_hist sample_ctl \<noteq> Overtaken" "ctl_hist peer_first_ctl \<noteq> Overtaken"
  by (simp_all add: sample_ctl_def peer_first_ctl_def)

lemma rejected_turn_keeps_lb:
  assumes "ctl_inv h r s"
  shows "ctl_lb (worker h keys r (Some e) s) = ctl_lb s"
proof (cases "ctl_queue s = []")
  case False
  then have "ctl_queue s = [lb_key (ctl_lb s)]"
    using assms by (auto simp: ctl_inv_def ctl_base_def)
  with assms show ?thesis
    by (cases rule: worker_cases [where rej = "Some e" and keys = keys]) (simp_all add: unrecorded_def)
qed simp

text \<open>The sample, with a first turn whose status update is rejected and three turns after it.\<close>

theorem pending_or_applied_witness:
  "\<exists>s. ctl_reach sample_host rev sample_reconciler s \<and> ctl_queue s = [] \<and>
     list_all2 (\<lambda>a b. node_Name a = node_Name b \<and> node_Labels a = node_Labels b) (ctl_seen s) (ctl_nodes s) \<and>
     (\<exists>sec. ctl_secrets s (Namespace (Meta (ctl_lb s)), CloudCredentials (Spec (ctl_lb s))) = Some sec \<and>
       (\<forall>st \<in> set (lb_stages (cluster_view (ctl_cluster s) (ctl_seen s)) sample_host sample_reconciler sec None).
         \<exists>d. stage_render st (ctl_lb s) = Ret (Inr d) \<and> holds_data sample_reconciler (stage_file st) d (ctl_world s)))"
proof -
  let ?s1 = "worker sample_host rev sample_reconciler (Some (Errorf ''conflict'')) sample_ctl"
  let ?s = "(worker sample_host rev sample_reconciler None ^^ 3) ?s1"
  note inv0 = ctl_start_inv [OF sample_start(1), of sample_host]
  note inv = worker_inv [OF inv0 sample_host_healthy, of rev "Some (Errorf ''conflict'')"]
  note frame = worker_frame [OF inv0, of rev "Some (Errorf ''conflict'')"] rejected_turn_keeps_lb [OF inv0, of rev "Errorf ''conflict''"]
  have r: "ctl_reach sample_host rev sample_reconciler ?s"
    using sample_start(1) by (intro worker_reach ctl_reach.step [OF ctl_reach.start ctl_step.work])
  have "ctl_queue ?s = []"
    using known_host_settles [where keys = rev, OF inv sample_host_healthy] sample_ctl_valid(1,2) sample_ctl_known(1)
    by (simp add: frame(1-3,6))
  with pending_or_applied [OF r sample_host_healthy turns_inv(2) [OF inv sample_host_healthy frame(5) [OF sample_recorded(1)]]] r
  show ?thesis
    by (intro exI [of _ ?s]) (simp del: funpow.simps)
qed

theorem controller_settles_witness:
  "(\<exists>s'. (\<forall>n \<ge> 3. (worker sample_host rev sample_reconciler None ^^ n) sample_ctl = s') \<and> ctl_queue s' = [] \<and>
      applied sample_host sample_reconciler s') \<and>
   (\<forall>n. ctl_queue ((worker sample_host rev sample_reconciler None ^^ n) peer_first_ctl) \<noteq> [])"
proof -
  note start = ctl_reach.start [OF sample_start(1)] ctl_reach.start [OF sample_start(2)]
  from controller_settles [where keys = rev, OF start(1) sample_host_healthy sample_recorded(1) _ sample_ctl_valid(1,2)]
  have "\<exists>s'. (\<forall>n \<ge> 3. (worker sample_host rev sample_reconciler None ^^ n) sample_ctl = s') \<and> ctl_queue s' = [] \<and>
      applied sample_host sample_reconciler s'"
    using sample_ctl_known(1) by auto
  moreover from controller_settles [where keys = rev, OF start(2) sample_host_healthy sample_recorded(2) _ sample_ctl_valid(3,4)]
  have "\<forall>n. ctl_queue ((worker sample_host rev sample_reconciler None ^^ n) peer_first_ctl) \<noteq> []"
    using sample_ctl_known(2) by auto
  ultimately show ?thesis by blast
qed

text \<open>A second resource, for another distribution.\<close>

definition other_lbconfig :: LoadBalancerConfig where
  "other_lbconfig =
     sample_lbconfig\<lparr>Meta := (Meta sample_lbconfig)\<lparr>Name := ''other-lb''\<rparr>, Spec := sample_spec\<lparr>Distribution := ''talos''\<rparr>\<rparr>"

definition two_ext :: ext where
  "two_ext = sample_ext\<lparr>client_GetLB := \<lambda>n. if snd n = ''other-lb'' then Inr other_lbconfig else Inr sample_lbconfig\<rparr>"

lemma two_ext_facts:
  "Combine_spec two_ext" "Keys_spec two_ext" "client_StatusUpdate two_ext c = None"
  "client_GetLB two_ext (''default'', ''test-lb'') = Inr sample_lbconfig"
  "client_GetLB two_ext (''default'', ''other-lb'') = Inr other_lbconfig"
  "client_GetSecret two_ext n = Inr sample_secret" "host_known sample_reconciler other_lbconfig"
  using sample_specs sample_known
  by (simp_all add: two_ext_def Combine_spec_def Keys_spec_def sample_client other_lbconfig_def host_known_def node_ptr_def)
    (simp_all add: sample_ext_def)

lemma two_ext_valid:
  "valid_input two_ext sample_host sample_reconciler sample_secret sample_lbconfig"
  "valid_input two_ext sample_host sample_reconciler sample_secret other_lbconfig"
proof -
  have v: "valid_input sample_ext sample_host sample_reconciler sample_secret sample_lbconfig"
    using sample_valid [of "\<lambda>_. None", unfolded sample_host_update] .
  then show "valid_input two_ext sample_host sample_reconciler sample_secret sample_lbconfig"
    by (simp add: two_ext_def valid_input_cong [OF same_inputs_update(1)])
  from v have "valid_input sample_ext sample_host sample_reconciler sample_secret other_lbconfig"
    by (simp add: valid_input_def other_lbconfig_def credentials_ok_def addresses_ok_def backends_ok_def sample_lbconfig_def)
  then show "valid_input two_ext sample_host sample_reconciler sample_secret other_lbconfig"
    by (simp add: two_ext_def valid_input_cong [OF same_inputs_update(1)])
qed

theorem second_resource_shadows_first_witness:
  "\<exists>wA wB w'. Reconcile two_ext sample_host rev sample_reconciler (''default'', ''test-lb'') empty_world = (Ret None, wA) \<and>
     Reconcile two_ext sample_host rev sample_reconciler (''default'', ''other-lb'') wA = (Ret None, wB) \<and>
     Reconcile (two_ext\<lparr>client_GetLB := \<lambda>_. Inr (w_lb wA)\<rparr>) sample_host rev sample_reconciler (''default'', ''test-lb'') wB =
       (Ret None, w') \<and> w_fs w' = w_fs wB"
proof -
  obtain wA where A: "Reconcile two_ext sample_host rev sample_reconciler (''default'', ''test-lb'') empty_world = (Ret None, wA)"
    using Reconcile_valid [where keys = rev, OF two_ext_facts(1,2) two_ext_valid(1) sample_known sample_host_healthy two_ext_facts(3,4,6)] .
  obtain wB where B: "Reconcile two_ext sample_host rev sample_reconciler (''default'', ''other-lb'') wA = (Ret None, wB)"
    using Reconcile_valid [where keys = rev, OF two_ext_facts(1,2) two_ext_valid(2) two_ext_facts(7) sample_host_healthy two_ext_facts(3,5,6)] .
  have rd: "\<forall>f \<in> set managed_files. readable sample_host sample_reconciler f"
    using sample_host_healthy healthy_readable by blast
  have fresh: "\<forall>f \<in> set managed_files. truthful sample_reconciler f (wA\<lparr>w_lb := other_lbconfig\<rparr>)"
    by (simp add: truthful_def hash_in_status_def node_ptr_def other_lbconfig_def sample_lbconfig_def)
  show ?thesis
    using second_resource_shadows_first [where keys = rev, OF two_ext_facts(1) rd two_ext_facts(3) _ two_ext_facts(4) sample_known
        two_ext_facts(6,5,7,6) A B fresh] A B by auto
qed

end
