(* ===== verification/StoreSpec.thy ===== *)
theory StoreSpec
  imports ReconcilerCorrect
begin

text \<open>
  The abstract specification of the file store and of a reconciliation, and the proof that the code
  refines it. Abstractly the store maps every managed file to the digest of the data it holds; a put
  reports whether that digest changes and sets it. A reconciliation is the sequence of the puts of
  its files, and the services to reload are those of the files whose digest changed.
\<close>

section \<open>The specification\<close>

definition spec_put :: "'f \<Rightarrow> 'e \<Rightarrow> ('f \<rightharpoonup> 'e) \<Rightarrow> bool \<times> ('f \<rightharpoonup> 'e)" where
  "spec_put f e A = (A f \<noteq> Some e, A(f \<mapsto> e))"

primrec spec_puts :: "('f \<times> 'e) list \<Rightarrow> ('f \<rightharpoonup> 'e) \<Rightarrow> bool list \<times> ('f \<rightharpoonup> 'e)" where
  "spec_puts [] A = ([], A)"
| "spec_puts (p # ps) A =
     (let (c, A') = spec_put (fst p) (snd p) A; (cs, A'') = spec_puts ps A' in (c # cs, A''))"

text \<open>A pass over files with their services: the services to reload and the store afterwards.\<close>

definition spec_pass :: "('s \<times> 'f \<times> 'e) list \<Rightarrow> ('f \<rightharpoonup> 'e) \<Rightarrow> 's set \<times> ('f \<rightharpoonup> 'e)" where
  "spec_pass ps A =
     (let (cs, A') = spec_puts (map snd ps) A in (set (map (fst \<circ> fst) (filter snd (zip ps cs))), A'))"

text \<open>With different files the puts do not interfere, so a pass has a closed form.\<close>

lemma spec_puts_distinct:
  "distinct (map fst ps) \<Longrightarrow> spec_puts ps A = (map (\<lambda>p. A (fst p) \<noteq> Some (snd p)) ps, A ++ map_of ps)"
proof (induction ps arbitrary: A)
  case (Cons p ps)
  then have p: "fst p \<notin> fst ` set ps" "distinct (map fst ps)"
    by simp_all
  have A: "A(fst p \<mapsto> snd p) ++ map_of ps = A ++ map_of (p # ps)"
    using p(1) by (cases p) (simp add: map_add_upd_left dom_map_of_conv_image_fst)
  have "map (\<lambda>q. (A(fst p \<mapsto> snd p)) (fst q) \<noteq> Some (snd q)) ps = map (\<lambda>q. A (fst q) \<noteq> Some (snd q)) ps"
    using p(1) by (auto simp: image_iff)
  with A have "spec_puts ps (A(fst p \<mapsto> snd p)) = (map (\<lambda>q. A (fst q) \<noteq> Some (snd q)) ps, A ++ map_of (p # ps))"
    unfolding Cons.IH [OF p(2), of "A(fst p \<mapsto> snd p)"] by (simp only:)
  then show ?case
    by (simp only: spec_puts.simps spec_put_def Let_def prod.case list.map)
qed simp

lemma spec_pass_distinct:
  assumes "distinct (map (fst \<circ> snd) ps)"
  shows "spec_pass ps A = (set (map fst (filter (\<lambda>p. A (fst (snd p)) \<noteq> Some (snd (snd p))) ps)), A ++ map_of (map snd ps))"
proof -
  have "map (fst \<circ> fst) (filter snd (zip ps (map (\<lambda>p. A (fst p) \<noteq> Some (snd p)) (map snd ps)))) =
      map fst (filter (\<lambda>p. A (fst (snd p)) \<noteq> Some (snd (snd p))) ps)"
    by (induction ps) simp_all
  moreover have "distinct (map fst (map snd ps))"
    using assms by simp
  note spec_puts_distinct [OF this, of A]
  ultimately show ?thesis
    by (simp only: spec_pass_def Let_def prod.case)
qed

section \<open>The contract of a store that refines the specification\<close>

locale refined_store = config_store put ok ready sync
  for put :: "'f \<Rightarrow> 'm \<Rightarrow> 'd \<Rightarrow> ('s, bool \<times> error option) run"
    and ok :: "'f \<Rightarrow> bool" and ready :: "'s \<Rightarrow> bool" and sync :: "'f \<Rightarrow> 'd \<Rightarrow> 's \<Rightarrow> bool" +
  fixes abs :: "'s \<Rightarrow> ('f \<rightharpoonup> 'e)" and digest :: "'d \<Rightarrow> 'e"
  assumes put_abs: "ready s \<Longrightarrow> ok f \<Longrightarrow> put f m d s = (Ret (c, None), s') \<Longrightarrow>
    (c, abs s') = spec_put f (digest d) (abs s)"
begin

lemma put_all_abs:
  assumes "ready s" "\<forall>i \<in> set is. ok (fst i)" "put_all put is s = (rs, s')" "\<forall>res \<in> set rs. snd res = None"
  shows "(map fst rs, abs s') = spec_puts (map (\<lambda>i. (fst i, digest (snd (snd i)))) is) (abs s)"
  using assms
proof (induction "is" arbitrary: s rs)
  case (Cons i "is")
  obtain c er s1 where p: "put (fst i) (fst (snd i)) (snd (snd i)) s = (Ret (c, er), s1)" "ready s1"
    using put_ready [OF Cons.prems(1)] by blast
  then obtain rs1 where rs1: "put_all put is s1 = (rs1, s')" "rs = (c, er) # rs1"
    using Cons.prems(3) by (auto split: prod.splits)
  then have "er = None" using Cons.prems(4) by simp
  then have "spec_put (fst i) (digest (snd (snd i))) (abs s) = (c, abs s1)"
    using put_abs [OF Cons.prems(1) _ p(1) [unfolded \<open>er = None\<close>]] Cons.prems(2) by simp
  moreover have "spec_puts (map (\<lambda>i. (fst i, digest (snd (snd i)))) is) (abs s1) = (map fst rs1, abs s')"
    using Cons.IH [OF p(2) _ rs1(1)] Cons.prems(2,4) rs1(2) by simp
  ultimately show ?case
    using rs1(2) by (simp add: Let_def split: prod.splits)
qed simp

end

section \<open>The file store refines the specification\<close>

text \<open>What a file holds, as the controller can tell: the recorded hash, while the file is unmodified.\<close>

definition file_state :: "LoadBalancerConfigReconciler \<Rightarrow> world \<Rightarrow> string \<rightharpoonup> string" where
  "file_state r w f =
     (if f \<in> set managed_files \<and> (\<exists>txt. stored r f txt (w_fs w)) then hash_in_status r f w else None)"

lemma file_state_synced: "f \<in> set managed_files \<Longrightarrow> file_state r w f = Some (sha256_hex d) \<longleftrightarrow> synced r f d w"
  by (auto simp: file_state_def synced_def)

lemma CompareAndWrite_abs:
  assumes "registered r w" "readable h r f" "CompareAndWrite h r f m d w = (Ret (c, None), w')"
  shows "(c, file_state r w') = spec_put f (sha256_hex d) (file_state r w)"
proof -
  have f: "f \<in> set managed_files"
    using assms(2) by (simp add: readable_def)
  have now: "file_state r w' f = Some (sha256_hex d)"
    using store.put_sync [OF assms] file_state_synced [OF f] by blast
  have other: "file_state r w' g = file_state r w g" if "g \<noteq> f" for g
    using assms(1)
  proof (cases rule: CompareAndWrite_cases [where h = h and f = f and d = d and m = m])
    case unchanged
    then show ?thesis using assms(3) by simp
  next
    case (written ns)
    then show ?thesis
      using assms(3) that f WriteConfig_other(1) [of f g r] by (auto simp: file_state_def hash_after_write)
  qed
  have "c = (file_state r w f \<noteq> Some (sha256_hex d))"
    using assms(1)
  proof (cases rule: CompareAndWrite_cases [where h = h and f = f and d = d and m = m])
    case unchanged
    then have "synced r f d w"
      using stored_readable [OF assms(2), of "w_fs w"] by (simp add: synced_def)
    then show ?thesis
      using unchanged(3) assms(3) file_state_synced [OF f] by auto
  next
    case (written ns)
    then have "c" using assms(3) by simp
    then have "\<not> synced r f d w"
      using store.put_same [OF assms(1,2), of d m] assms(3) by auto
    then show ?thesis
      using \<open>c\<close> file_state_synced [OF f] by auto
  qed
  then show ?thesis
    using now other by (auto simp: spec_put_def)
qed

interpretation refined: refined_store "CompareAndWrite h r" "readable h r" "registered r" "synced r" "file_state r" sha256_hex for h r
  by unfold_locales (rule CompareAndWrite_abs)

section \<open>A reconciliation refines a pass\<close>

lemma record_all_services:
  assumes "length rs = length ss" "\<forall>res \<in> set rs. snd res = None"
  shows "set (fst (record_all ss rs acc)) =
    set (fst acc) \<union> set (map (stage_svc \<circ> fst) (filter (fst \<circ> snd) (zip ss rs)))"
  using assms
proof (induction ss arbitrary: rs acc)
  case (Cons s ss)
  then obtain res rs1 where rs: "rs = res # rs1" "length rs1 = length ss"
    by (cases rs) auto
  then have "record_all (s # ss) rs acc = record_all ss rs1 (record_result (stage_svc s) res acc)"
    by (simp add: record_all_def)
  then show ?case
    using Cons.IH [OF rs(2), of "record_result (stage_svc s) res acc"] Cons.prems(2) rs(1)
    by (simp add: record_result_services)
qed (simp add: record_all_def)

text \<open>The files of a reconciliation with the digests of what is rendered for them.\<close>

definition pass_items :: "stage list \<Rightarrow> LoadBalancerConfig \<Rightarrow> (NodeService \<times> string \<times> string) list" where
  "pass_items ss c = map (\<lambda>s. (stage_svc s, stage_file s, sha256_hex (the (rendered s c)))) ss"

lemma run_stages_abs:
  assumes "registered r w" "spec_only ss" "\<forall>s \<in> set ss. readable h r (stage_file s)"
    and "run_stages h r ss ([], []) w = (Ret (upd, []), w')"
  shows "(set upd, file_state r w') = spec_pass (pass_items ss (w_lb w)) (file_state r w)"
proof -
  obtain rs where p: "put_all (CompareAndWrite h r) (map (item (w_lb w)) ss) w = (rs, w')" "\<forall>res \<in> set rs. snd res = None"
    and ren: "\<forall>s \<in> set ss. \<exists>d. rendered s (w_lb w) = Some d"
    using run_stages_ok [OF assms(1,2,4)] .
  have len: "length rs = length ss"
    using store.put_all_length [OF assms(1) p(1)] by simp
  have upd: "upd = fst (record_all ss rs ([], []))"
    using run_stages_put_all [OF assms(1,2) ren p(1), of "([], [])"] assms(4) by (simp add: prod_eq_iff)
  have "map (\<lambda>i. (fst i, sha256_hex (snd (snd i)))) (map (item (w_lb w)) ss) = map snd (pass_items ss (w_lb w))"
    by (simp add: pass_items_def item_def comp_def)
  moreover have "\<forall>i \<in> set (map (item (w_lb w)) ss). readable h r (fst i)"
    using assms(3) by (simp add: item_def)
  ultimately have spec: "spec_puts (map snd (pass_items ss (w_lb w))) (file_state r w) = (map fst rs, file_state r w')"
    using refined.put_all_abs [OF assms(1) _ p] by metis
  have "map (stage_svc \<circ> fst) (filter (fst \<circ> snd) (zip ss rs)) =
      map (fst \<circ> fst) (filter snd (zip (pass_items ss (w_lb w)) (map fst rs)))"
    using len by (induction rs ss rule: list_induct2) (simp_all add: pass_items_def)
  then show ?thesis
    using record_all_services [OF len p(2), of "([], [])"] upd spec by (simp add: spec_pass_def)
qed

lemma lb_stages_distinct_items: "distinct (map (fst \<circ> snd) (pass_items (lb_stages x h r sec loc) c))"
  using lb_stages_distinct [of x h r sec loc] by (simp add: pass_items_def comp_def)

lemma InitializeNodeStatus_file_state:
  assumes "InitializeNodeStatus x h r w = (Ret None, w1)"
  shows "file_state r w1 = file_state r w"
proof
  have "w_fs w1 = w_fs w"
    using InitializeNodeStatus_frame [OF assms] by simp
  then show "file_state r w1 f = file_state r w f" for f
    using InitializeNodeStatus_hash [OF assms, of f] by (auto simp: file_state_def)
qed

lemma ReconcileLBConfig_abs:
  assumes "Combine_spec x" "\<forall>f \<in> set managed_files. readable h r f" "host_known r (w_lb w)"
    and "ReconcileLBConfig x h r sec loc w = (Ret (upd, None), w')"
  shows "(set upd, file_state r w') = spec_pass (pass_items (lb_stages x h r sec loc) (w_lb w)) (file_state r w)"
proof -
  obtain w1 where w1: "InitializeNodeStatus x h r w = (Ret None, w1)"
    "run_stages h r (lb_stages x h r sec loc) ([], []) w1 = (Ret (upd, []), w')"
    using assms(4) by (cases rule: ReconcileLBConfig_cases) (auto dest!: sym [of None] simp: Combine_None [OF assms(1)])
  have i: "registered r w1" "Spec (w_lb w1) = Spec (w_lb w)"
    using InitializeNodeStatus_frame [OF w1(1)] assms(3) by simp_all
  have "pass_items (lb_stages x h r sec loc) (w_lb w1) = pass_items (lb_stages x h r sec loc) (w_lb w)"
    unfolding pass_items_def by (rule map_cong [OF refl]) (metis spec_onlyD [OF spec_only_lb_stages _ i(2)])
  then show ?thesis
    using run_stages_abs [OF i(1) spec_only_lb_stages lb_stages_readable [OF assms(2)] w1(2)]
      InitializeNodeStatus_file_state [OF w1(1)] by simp
qed

section \<open>Properties\<close>

text \<open>
  C5: The reconciliation refines its specification. Seen through \<open>file_state\<close>, which maps a managed
  file to the digest it is known to hold, the reconciliation of a valid configuration on a host
  without faults is the pass of the specification over the eleven files with the digests of what is
  rendered: the store afterwards and the services marked for a reload are those of the pass.
\<close>

theorem reconcile_refines_pass:
  assumes "Combine_spec x" "Keys_spec x" "valid_input x h r sec (w_lb w)" "host_known r (w_lb w)"
    and "\<forall>f \<in> set managed_files. healthy h r f"
  shows "\<exists>upd w'. ReconcileLBConfig x h r sec loc w = (Ret (upd, None), w') \<and>
    (set upd, file_state r w') =
      spec_pass (map (\<lambda>s. (stage_svc s, stage_file s, sha256_hex (the (rendered s (w_lb w))))) (lb_stages x h r sec loc))
        (file_state r w)"
proof -
  obtain upd w' where R: "ReconcileLBConfig x h r sec loc w = (Ret (upd, None), w')"
    using ReconcileLBConfig_valid [OF assms] by blast
  have "\<forall>f \<in> set managed_files. readable h r f"
    using assms(5) by (simp add: readable_def healthy_def)
  from ReconcileLBConfig_abs [OF assms(1) this assms(4) R] R show ?thesis
    by (auto simp: pass_items_def)
qed

text \<open>
  C6: Exactly the right services are reloaded. A reconciliation on the real root directory that returns
  no error runs the reload command of a service if and only if one of the service's files was
  missing, modified on disk, or recorded with another hash than the rendered text has, and it runs
  no other command.
\<close>

theorem reload_exactly_changed:
  assumes "Combine_spec x" "\<And>us. set (keys us) = set us" "ConfigRoot r = ''/''"
    and "\<forall>f \<in> set managed_files. readable h r f"
    and "client_GetLB x req = Inr c" "host_known r c"
    and "client_GetSecret x (Namespace (Meta c), CloudCredentials (Spec c)) = Inr sec"
    and "Reconcile x h keys r req w = (Ret None, w')"
  shows "\<exists>new. w_cmds w' = w_cmds w @ new \<and>
    set new = {reload_argv (stage_svc s) | s. s \<in> set (lb_stages x h r sec None) \<and>
      (\<forall>d. rendered s c = Some d \<longrightarrow> \<not> synced r (stage_file s) d (w\<lparr>w_lb := c\<rparr>))}"
proof -
  obtain upd err w1 errors cmds where
    r1: "ReconcileLBConfig x h r sec None (w\<lparr>w_lb := c\<rparr>) = (Ret (upd, err), w1)"
    and l: "reload_loop h r (keys upd) (case err of Some e \<Rightarrow> [e] | None \<Rightarrow> []) (w_cmds w1) = (errors, cmds)"
    and w': "w_cmds w' = cmds" and err: "None = multierr_Combine x [err, client_StatusUpdate x (w_lb w')]"
    using assms(5,7,8) by (rule Reconcile_returned)
  from err have e: "err = None"
    using Combine_two [OF assms(1), of err] by metis
  note r1 = r1 [unfolded e]
  let ?w = "w\<lparr>w_lb := c\<rparr>"
  let ?ss = "lb_stages x h r sec None"
  have ren: "\<exists>d. rendered s c = Some d" if "s \<in> set ?ss" for s
    using that ReconcileLBConfig_ok(2) [OF assms(1,4) _ r1] assms(6) by auto
  have managed: "stage_file s \<in> set managed_files" if "s \<in> set ?ss" for s
    using that by (rule lb_stages_managed)
  let ?changed = "\<lambda>s. \<forall>d. rendered s c = Some d \<longrightarrow> \<not> synced r (stage_file s) d ?w"
  have "file_state r ?w (stage_file s) \<noteq> Some (sha256_hex (the (rendered s c))) \<longleftrightarrow> ?changed s" if "s \<in> set ?ss" for s
    using ren [OF that] file_state_synced [OF managed [OF that]] by auto
  then have "filter (\<lambda>s. file_state r ?w (stage_file s) \<noteq> Some (sha256_hex (the (rendered s c)))) ?ss = filter ?changed ?ss"
    by (rule filter_cong [OF refl])
  then have "set upd = set (map stage_svc (filter ?changed ?ss))"
    using ReconcileLBConfig_abs [OF assms(1,4) _ r1] assms(6)
      spec_pass_distinct [OF lb_stages_distinct_items [of x h r sec None c], of "file_state r ?w"]
    by (simp add: pass_items_def filter_map comp_def)
  then have upd: "reload_argv ` set upd = {reload_argv (stage_svc s) | s. s \<in> set ?ss \<and> ?changed s}"
    by (simp only: set_map set_filter image_image setcompr_eq_image)
  have "w_cmds w' = w_cmds w @ concat (map (snd \<circ> Reload h) (keys upd))"
    using l w' reload_loop_on [OF assms(3), of h "keys upd"] ReconcileLBConfig_frame [OF r1] by simp
  moreover have "set (concat (map (snd \<circ> Reload h) (keys upd))) = reload_argv ` set upd"
  proof -
    have "snd (Reload h svc) = [reload_argv svc]" if "svc \<in> set (keys upd)" for svc
      using that ReconcileLBConfig_changed(1) [OF r1 assms(1)] assms(2) by (auto intro: Reload_known(1))
    then have "map (snd \<circ> Reload h) (keys upd) = map (\<lambda>svc. [reload_argv svc]) (keys upd)"
      by simp
    then show ?thesis
      using assms(2) by auto
  qed
  ultimately show ?thesis
    unfolding upd by blast
qed

section \<open>Witnesses\<close>

theorem reconcile_refines_pass_witness:
  "\<exists>upd w'. ReconcileLBConfig sample_ext sample_host sample_reconciler sample_secret None empty_world = (Ret (upd, None), w') \<and>
     (set upd, file_state sample_reconciler w') =
       spec_pass (map (\<lambda>s. (stage_svc s, stage_file s, sha256_hex (the (rendered s sample_lbconfig))))
           (lb_stages sample_ext sample_host sample_reconciler sample_secret None)) (file_state sample_reconciler empty_world)"
  using reconcile_refines_pass [OF sample_specs, of sample_host sample_reconciler sample_secret empty_world None]
    sample_valid [of "\<lambda>_. None"] sample_known sample_host_facts(1) [of "\<lambda>_. None"]
  unfolding sample_host_update by simp

text \<open>On an empty disk the first reconciliation runs the reload commands of all services.\<close>

theorem reload_exactly_changed_witness:
  "\<exists>w'. Reconcile sample_ext sample_host rev sample_reconciler (''default'', ''test-lb'') empty_world = (Ret None, w') \<and>
     set (w_cmds w') = {reload_argv (stage_svc s) | s. s \<in> set (lb_stages sample_ext sample_host sample_reconciler sample_secret None)}"
proof -
  obtain w' where r: "Reconcile sample_ext sample_host rev sample_reconciler (''default'', ''test-lb'') empty_world = (Ret None, w')"
    using sample_Reconcile .
  have root: "ConfigRoot sample_reconciler = ''/''"
    by (simp add: sample_reconciler_def)
  have "\<not> synced sample_reconciler f d empty_world" for f d
    by (simp add: synced_def stored_def)
  then show ?thesis
    using reload_exactly_changed [where keys = rev, OF sample_Combine _ root sample_host_facts(2) [of "\<lambda>_. None", unfolded sample_host_update]
        sample_client(1) sample_known sample_client(2) r] r
    by (auto simp: empty_world_def)
qed

end
