(* ===== verification/Schema.thy ===== *)
theory Schema
  imports ReconcilerCorrect
begin

text \<open>
  The schema of the resource, from the markers in \<^verbatim>\<open>api/v1alpha1/loadbalancerconfig_types.go\<close>: the
  enumerations, the lists keyed by address and the minimal length. The API server checks it on
  every write, so a status update that violates it would be rejected. The schema of the library type
  \<^verbatim>\<open>Condition\<close> and entries that are null are left out; the controller changes neither.
\<close>

section \<open>Definitions\<close>

definition VirtualAddress_schema :: "VirtualAddress \<Rightarrow> bool" where
  "VirtualAddress_schema v = (va_Type v = AddressTypePublic \<or> va_Type v = AddressTypePrivate)"

definition VIPs_schema :: "LoadBalancerConfigVIPs \<Rightarrow> bool" where
  "VIPs_schema v =
     (1 \<le> length (vips_API v) \<and> distinct (map va_Address (vips_API v)) \<and> distinct (map va_Address (vips_Ingress v)) \<and>
      list_all VirtualAddress_schema (vips_API v) \<and> list_all VirtualAddress_schema (vips_Ingress v) \<and>
      (case vips_NAT v of None \<Rightarrow> True | Some a \<Rightarrow> VirtualAddress_schema a))"

definition Spec_schema :: "LoadBalancerConfigSpec \<Rightarrow> bool" where
  "Spec_schema s =
     (Cloud s \<in> {''cloudscale'', ''exoscale''} \<and> Distribution s \<in> {''openshift'', ''talos''} \<and> VIPs_schema (VirtualAddresses s))"

definition NodeStatus_schema :: "LoadBalancerNodeStatus \<Rightarrow> bool" where
  "NodeStatus_schema ns = (NodeStatus ns \<in> {NodeStatusConfiguring, NodeStatusReady, NodeStatusFailed})"

definition Config_schema :: "LoadBalancerConfig \<Rightarrow> bool" where
  "Config_schema c = (Spec_schema (Spec c) \<and> (\<forall>h ns. node_ptr c h = Some ns \<longrightarrow> NodeStatus_schema ns))"

section \<open>Properties\<close>

text \<open>
  C12: The status updates are well-typed. Whatever goes wrong in a reconciliation that returns (no
  cluster interface, unreadable files, failed reloads), if the resource satisfied the schema, the
  one update it submits satisfies it too: the status of this host is one of the three allowed
  values, also for the entry that was created with the zero value, and everything else is as it was.
\<close>

theorem status_update_satisfies_schema:
  assumes "client_GetLB x req = Inr c" "Config_schema c"
    and "client_GetSecret x (Namespace (Meta c), CloudCredentials (Spec c)) = Inr sec"
    and "Reconcile x h keys r req w = (Ret e, w')"
  shows "\<exists>u. w_updates w' = w_updates w @ [u] \<and> Config_schema u"
proof -
  obtain upd err w1 ns errors where r1: "ReconcileLBConfig x h r sec None (w\<lparr>w_lb := c\<rparr>) = (Ret (upd, err), w1)"
    and ns: "node_ptr (w_lb w1) (Hostname r) = Some ns"
    and w': "w_lb w' = set_node (Hostname r) (ns\<lparr>NodeStatus := final_status errors\<rparr>) (w_lb w1)" "w_updates w' = w_updates w1 @ [w_lb w']"
    using assms(1,3,4) by (rule Reconcile_returned)
  note frame = ReconcileLBConfig_frame [OF r1, simplified]
  have "NodeStatus_schema n" if "node_ptr (w_lb w') g = Some n" for g n
  proof (cases "g = Hostname r")
    case True
    then show ?thesis
      using that node_ptr_nodes [OF ns] by (auto simp: w'(1) node_ptr_set_node NodeStatus_schema_def final_status_def)
  next
    case False
    then have "node_ptr c g = Some n"
      using that frame by (simp add: w'(1) node_ptr_set_node)
    then show ?thesis
      using assms(2) by (simp add: Config_schema_def)
  qed
  moreover have "Spec (w_lb w') = Spec c"
    using frame by (simp add: w'(1))
  ultimately show ?thesis
    using w'(2) frame assms(2) by (simp add: Config_schema_def)
qed

section \<open>Witnesses\<close>

lemma sample_schema: "Config_schema sample_lbconfig"
  by (simp add: Config_schema_def Spec_schema_def VIPs_schema_def VirtualAddress_schema_def sample_lbconfig_def sample_spec_def
      sample_vips_def AddressTypePublic_def AddressTypePrivate_def node_ptr_def)

text \<open>The first status of the host, on a load balancer whose cluster network has no route.\<close>

theorem status_update_satisfies_schema_witness:
  "\<exists>e w' u. Reconcile (sample_ext\<lparr>routetable_Get := \<lambda>_. Inr []\<rparr>) sample_host rev sample_reconciler (''default'', ''test-lb'') empty_world =
     (Ret e, w') \<and> w_updates w' = [u] \<and> Config_schema u"
proof -
  let ?x = "sample_ext\<lparr>routetable_Get := \<lambda>_. Inr []\<rparr>"
  have x: "client_GetLB ?x (''default'', ''test-lb'') = Inr sample_lbconfig"
    "client_GetSecret ?x (Namespace (Meta sample_lbconfig), CloudCredentials (Spec sample_lbconfig)) = Inr sample_secret"
    using sample_client by simp_all
  have "IngressBackend (Spec sample_lbconfig) \<noteq> None" "vips_NAT (VirtualAddresses (Spec sample_lbconfig)) \<noteq> None"
    by code_simp+
  from reconcile_returns [OF x(1) sample_known x(2) this, where h = sample_host and keys = rev and w = empty_world]
  obtain e w' where r: "Reconcile ?x sample_host rev sample_reconciler (''default'', ''test-lb'') empty_world = (Ret e, w')"
    by blast
  show ?thesis
    using status_update_satisfies_schema [OF x(1) sample_schema x(2) r] r by (auto simp: empty_world_def)
qed

end
