(* ===== verification/DeepCopy.thy ===== *)
theory DeepCopy
  imports Samples
begin

text \<open>
  \<^verbatim>\<open>api/v1alpha1/zz_generated.deepcopy.go\<close>: the deep copies that the Kubernetes client makes of every
  resource it hands out. The claim of this code is about aliasing, so it is modelled on an explicit
  heap: a list of cells addressed by position, where allocation appends a cell. Structs that are
  embedded by value are records; slices, maps and pointers are references (\<open>None\<close> is nil). The copies
  of the library types (\<^verbatim>\<open>ObjectMeta\<close>, \<^verbatim>\<open>ListMeta\<close>, \<^verbatim>\<open>LabelSelector\<close>, \<^verbatim>\<open>Condition\<close>) are parameters; such
  a struct is represented by one cell for the region it owns on the heap. The value that a resource
  denotes does not tell a nil slice from an empty one, as the records of the API types do not; that a
  copy keeps nil is \<open>copy_opt_nil\<close>. The locale \<open>deep_copier\<close> is the contract of a copy.
\<close>

section \<open>Heap\<close>

type_synonym ref = nat

record hVIPs =
  hAPI :: "ref option"
  hIngress :: "ref option"
  hNAT :: "ref option"

record hBackend =
  hNodeSelector :: ref

record hSpec =
  hCloud :: string
  hCloudCredentials :: string
  hDistribution :: string
  hVirtualAddresses :: hVIPs
  hAPIBackend :: hBackend
  hIngressBackend :: "ref option"
  hFirewallRules :: "ref option"

record hNodeStatus =
  hPublicIP :: string
  hPrivateIP :: string
  hVrrpIP :: string
  hConfigHashes :: "ref option"
  hState :: string

record hStatus =
  hNodes :: "ref option"
  hConditions :: "ref option"

text \<open>\<^verbatim>\<open>TypeMeta\<close> holds two strings, the kind and the API version.\<close>

record hConfig =
  hTypeMeta :: "string \<times> string"
  hObjectMeta :: ref
  hSpecF :: hSpec
  hStatusF :: hStatus

record hConfigList =
  hlTypeMeta :: "string \<times> string"
  hlListMeta :: ref
  hlItems :: "ref option"

text \<open>
  A Go map is the list of its entries, in the order in which a range loop visits them. \<open>Zeroed\<close> is
  what \<^verbatim>\<open>new\<close> returns before the first store.
\<close>

datatype cell =
    Zeroed
  | is_VAs: VAs "VirtualAddress list"
  | is_VA: VA VirtualAddress
  | is_Strs: Strs "string list"
  | is_Hashes: Hashes "(string \<times> string) list"
  | BackendC hBackend
  | NodesC "(string \<times> ref option) list"
  | NodeC hNodeStatus
  | CondsC "ref list"
  | VIPsC hVIPs
  | SpecC hSpec
  | StatusC hStatus
  | ConfigC hConfig
  | ConfigsC "hConfig list"
  | ListC hConfigList
  | is_MetaC: MetaC ObjectMeta
  | is_ListMetaC: ListMetaC string
  | is_SelC: SelC LabelSelector
  | is_CondC: CondC Condition

type_synonym heap = "cell list"

type_synonym 'v hp = "heap \<Rightarrow> ('v \<times> heap) option"

definition hret :: "'v \<Rightarrow> 'v hp" where
  "hret v = (\<lambda>h. Some (v, h))"

definition hbind :: "'v hp \<Rightarrow> ('v \<Rightarrow> 'u hp) \<Rightarrow> 'u hp" where
  "hbind m f = (\<lambda>h. case m h of None \<Rightarrow> None | Some (v, h') \<Rightarrow> f v h')"

definition hfail :: "'v hp" where
  "hfail = (\<lambda>h. None)"

definition alloc :: "cell \<Rightarrow> ref hp" where
  "alloc c = (\<lambda>h. Some (length h, h @ [c]))"

definition load :: "ref \<Rightarrow> cell hp" where
  "load a = (\<lambda>h. if a < length h then Some (h ! a, h) else None)"

definition store :: "ref \<Rightarrow> cell \<Rightarrow> unit hp" where
  "store a c = (\<lambda>h. if a < length h then Some ((), h[a := c]) else None)"

lemmas hp_defs = hret_def hbind_def hfail_def alloc_def load_def store_def

section \<open>The generated functions\<close>

text \<open>\<^verbatim>\<open>if in.F != nil { ... }\<close>: a nil reference stays nil.\<close>

definition copy_opt :: "(ref \<Rightarrow> ref hp) \<Rightarrow> ref option \<Rightarrow> ref option hp" where
  "copy_opt cp p = (case p of None \<Rightarrow> hret None | Some a \<Rightarrow> hbind (cp a) (\<lambda>b. hret (Some b)))"

text \<open>
  References to plain values: \<^verbatim>\<open>make\<close> and \<^verbatim>\<open>copy\<close> for a slice, \<^verbatim>\<open>new\<close> and \<^verbatim>\<open>**out = **in\<close> for a
  pointer, \<^verbatim>\<open>make\<close> and a loop of stores for a map. The cell must be of the type of the field.
\<close>

definition copy_plain :: "(cell \<Rightarrow> bool) \<Rightarrow> ref \<Rightarrow> ref hp" where
  "copy_plain is_kind a = hbind (load a) (\<lambda>c. if is_kind c then alloc c else hfail)"

text \<open>
  \<^verbatim>\<open>out := new(T); in.DeepCopyInto(out)\<close> for a pointer that is not nil. \<open>un\<close> reads a struct of the type
  from a cell, \<open>mk\<close> makes the cell.
\<close>

definition copy_new :: "(cell \<Rightarrow> 'v option) \<Rightarrow> ('v \<Rightarrow> cell) \<Rightarrow> ('v \<Rightarrow> 'v hp) \<Rightarrow> ref \<Rightarrow> ref hp" where
  "copy_new un mk cp a =
     hbind (alloc Zeroed) (\<lambda>out.
     hbind (load a) (\<lambda>c.
       case un c of
         None \<Rightarrow> hfail
       | Some v \<Rightarrow> hbind (cp v) (\<lambda>v'. hbind (store out (mk v')) (\<lambda>_. hret out))))"

text \<open>The loop over the elements of a slice of structs.\<close>

primrec copy_each :: "('v \<Rightarrow> 'v hp) \<Rightarrow> 'v list \<Rightarrow> 'v list hp" where
  "copy_each cp [] = hret []"
| "copy_each cp (v # vs) = hbind (cp v) (\<lambda>v'. hbind (copy_each cp vs) (\<lambda>vs'. hret (v' # vs')))"

text \<open>\<^verbatim>\<open>make([]T, len(*in))\<close> and the loop: the array is allocated before its elements are copied.\<close>

definition copy_slice :: "(cell \<Rightarrow> 'v list option) \<Rightarrow> ('v list \<Rightarrow> cell) \<Rightarrow> ('v \<Rightarrow> 'v hp) \<Rightarrow> ref \<Rightarrow> ref hp" where
  "copy_slice un mk cp = copy_new un mk (copy_each cp)"

text \<open>Readers of the cells.\<close>

fun un_Backend :: "cell \<Rightarrow> hBackend option" where
  "un_Backend (BackendC v) = Some v" | "un_Backend _ = None"

fun un_Nodes :: "cell \<Rightarrow> (string \<times> ref option) list option" where
  "un_Nodes (NodesC v) = Some v" | "un_Nodes _ = None"

fun un_Node :: "cell \<Rightarrow> hNodeStatus option" where
  "un_Node (NodeC v) = Some v" | "un_Node _ = None"

fun un_Conds :: "cell \<Rightarrow> ref list option" where
  "un_Conds (CondsC v) = Some v" | "un_Conds _ = None"

fun un_VIPs :: "cell \<Rightarrow> hVIPs option" where
  "un_VIPs (VIPsC v) = Some v" | "un_VIPs _ = None"

fun un_Spec :: "cell \<Rightarrow> hSpec option" where
  "un_Spec (SpecC v) = Some v" | "un_Spec _ = None"

fun un_Status :: "cell \<Rightarrow> hStatus option" where
  "un_Status (StatusC v) = Some v" | "un_Status _ = None"

fun un_Config :: "cell \<Rightarrow> hConfig option" where
  "un_Config (ConfigC v) = Some v" | "un_Config _ = None"

fun un_Configs :: "cell \<Rightarrow> hConfig list option" where
  "un_Configs (ConfigsC v) = Some v" | "un_Configs _ = None"

fun un_List :: "cell \<Rightarrow> hConfigList option" where
  "un_List (ListC v) = Some v" | "un_List _ = None"

text \<open>The copies of the library types.\<close>

record foreign =
  ObjectMeta_DeepCopyInto :: "ref \<Rightarrow> ref hp"
  ListMeta_DeepCopyInto :: "ref \<Rightarrow> ref hp"
  LabelSelector_DeepCopyInto :: "ref \<Rightarrow> ref hp"
  Condition_DeepCopyInto :: "ref \<Rightarrow> ref hp"

text \<open>
  The functions start with \<^verbatim>\<open>*out = *in\<close>, which copies every field; the fields that are references
  are then replaced, in the order of the code. Each function yields what is stored in \<^verbatim>\<open>*out\<close>.
\<close>

definition VirtualAddress_DeepCopyInto :: "VirtualAddress \<Rightarrow> VirtualAddress hp" where
  "VirtualAddress_DeepCopyInto v = hret v"

definition VirtualAddress_DeepCopy :: "ref option \<Rightarrow> ref option hp" where
  "VirtualAddress_DeepCopy =
     copy_opt (copy_new (\<lambda>c. case c of VA v \<Rightarrow> Some v | _ \<Rightarrow> None) VA VirtualAddress_DeepCopyInto)"

definition VIPs_DeepCopyInto :: "hVIPs \<Rightarrow> hVIPs hp" where
  "VIPs_DeepCopyInto v =
     hbind (copy_opt (copy_plain is_VAs) (hAPI v)) (\<lambda>api.
     hbind (copy_opt (copy_plain is_VAs) (hIngress v)) (\<lambda>ingress.
     hbind (copy_opt (copy_plain is_VA) (hNAT v)) (\<lambda>nat.
       hret (v\<lparr>hAPI := api, hIngress := ingress, hNAT := nat\<rparr>))))"

definition VIPs_DeepCopy :: "ref option \<Rightarrow> ref option hp" where
  "VIPs_DeepCopy = copy_opt (copy_new un_VIPs VIPsC VIPs_DeepCopyInto)"

definition Backend_DeepCopyInto :: "foreign \<Rightarrow> hBackend \<Rightarrow> hBackend hp" where
  "Backend_DeepCopyInto k v =
     hbind (LabelSelector_DeepCopyInto k (hNodeSelector v)) (\<lambda>sel. hret (v\<lparr>hNodeSelector := sel\<rparr>))"

definition Backend_DeepCopy :: "foreign \<Rightarrow> ref option \<Rightarrow> ref option hp" where
  "Backend_DeepCopy k = copy_opt (copy_new un_Backend BackendC (Backend_DeepCopyInto k))"

definition Spec_DeepCopyInto :: "foreign \<Rightarrow> hSpec \<Rightarrow> hSpec hp" where
  "Spec_DeepCopyInto k v =
     hbind (VIPs_DeepCopyInto (hVirtualAddresses v)) (\<lambda>vips.
     hbind (Backend_DeepCopyInto k (hAPIBackend v)) (\<lambda>apiBackend.
     hbind (copy_opt (copy_new un_Backend BackendC (Backend_DeepCopyInto k)) (hIngressBackend v)) (\<lambda>ingressBackend.
     hbind (copy_opt (copy_plain is_Strs) (hFirewallRules v)) (\<lambda>rules.
       hret (v\<lparr>hVirtualAddresses := vips, hAPIBackend := apiBackend, hIngressBackend := ingressBackend,
               hFirewallRules := rules\<rparr>)))))"

definition Spec_DeepCopy :: "foreign \<Rightarrow> ref option \<Rightarrow> ref option hp" where
  "Spec_DeepCopy k = copy_opt (copy_new un_Spec SpecC (Spec_DeepCopyInto k))"

definition NodeStatus_DeepCopyInto :: "hNodeStatus \<Rightarrow> hNodeStatus hp" where
  "NodeStatus_DeepCopyInto v =
     hbind (copy_opt (copy_plain is_Hashes) (hConfigHashes v)) (\<lambda>hashes. hret (v\<lparr>hConfigHashes := hashes\<rparr>))"

definition NodeStatus_DeepCopy :: "ref option \<Rightarrow> ref option hp" where
  "NodeStatus_DeepCopy = copy_opt (copy_new un_Node NodeC NodeStatus_DeepCopyInto)"

text \<open>One round of the loop over the nodes; a nil entry stays nil.\<close>

definition copy_entry :: "string \<times> ref option \<Rightarrow> (string \<times> ref option) hp" where
  "copy_entry kv =
     hbind (copy_opt (copy_new un_Node NodeC NodeStatus_DeepCopyInto) (snd kv)) (\<lambda>outVal. hret (fst kv, outVal))"

definition Status_DeepCopyInto :: "foreign \<Rightarrow> hStatus \<Rightarrow> hStatus hp" where
  "Status_DeepCopyInto k v =
     hbind (copy_opt (copy_slice un_Nodes NodesC copy_entry) (hNodes v)) (\<lambda>nodes.
     hbind (copy_opt (copy_slice un_Conds CondsC (Condition_DeepCopyInto k)) (hConditions v)) (\<lambda>conditions.
       hret (v\<lparr>hNodes := nodes, hConditions := conditions\<rparr>)))"

definition Status_DeepCopy :: "foreign \<Rightarrow> ref option \<Rightarrow> ref option hp" where
  "Status_DeepCopy k = copy_opt (copy_new un_Status StatusC (Status_DeepCopyInto k))"

definition Config_DeepCopyInto :: "foreign \<Rightarrow> hConfig \<Rightarrow> hConfig hp" where
  "Config_DeepCopyInto k v =
     hbind (ObjectMeta_DeepCopyInto k (hObjectMeta v)) (\<lambda>om.
     hbind (Spec_DeepCopyInto k (hSpecF v)) (\<lambda>spec.
     hbind (Status_DeepCopyInto k (hStatusF v)) (\<lambda>status.
       hret (v\<lparr>hObjectMeta := om, hSpecF := spec, hStatusF := status\<rparr>))))"

definition Config_DeepCopy :: "foreign \<Rightarrow> ref option \<Rightarrow> ref option hp" where
  "Config_DeepCopy k = copy_opt (copy_new un_Config ConfigC (Config_DeepCopyInto k))"

text \<open>\<^verbatim>\<open>DeepCopyObject\<close> hands a nil result on as a nil interface.\<close>

definition Config_DeepCopyObject :: "foreign \<Rightarrow> ref option \<Rightarrow> ref option hp" where
  "Config_DeepCopyObject k p =
     hbind (Config_DeepCopy k p) (\<lambda>c. case c of Some a \<Rightarrow> hret (Some a) | None \<Rightarrow> hret None)"

definition List_DeepCopyInto :: "foreign \<Rightarrow> hConfigList \<Rightarrow> hConfigList hp" where
  "List_DeepCopyInto k v =
     hbind (ListMeta_DeepCopyInto k (hlListMeta v)) (\<lambda>lm.
     hbind (copy_opt (copy_slice un_Configs ConfigsC (Config_DeepCopyInto k)) (hlItems v)) (\<lambda>items.
       hret (v\<lparr>hlListMeta := lm, hlItems := items\<rparr>)))"

definition List_DeepCopy :: "foreign \<Rightarrow> ref option \<Rightarrow> ref option hp" where
  "List_DeepCopy k = copy_opt (copy_new un_List ListC (List_DeepCopyInto k))"

definition List_DeepCopyObject :: "foreign \<Rightarrow> ref option \<Rightarrow> ref option hp" where
  "List_DeepCopyObject k p =
     hbind (List_DeepCopy k p) (\<lambda>c. case c of Some a \<Rightarrow> hret (Some a) | None \<Rightarrow> hret None)"

section \<open>The contract of a copy\<close>

text \<open>
  \<open>den h v\<close> is the value that \<open>v\<close> denotes on the heap \<open>h\<close>, if the cells it refers to exist and have
  the right types; \<open>foot h v\<close> are the cells it is read from. A copy succeeds on every well-typed
  value, only adds cells, denotes the same value and owns none of the old cells.
\<close>

locale deep_copier =
  fixes cp :: "'v \<Rightarrow> 'v hp" and den :: "heap \<Rightarrow> 'v \<Rightarrow> 'a option" and foot :: "heap \<Rightarrow> 'v \<Rightarrow> ref set"
  assumes copy: "den h v = Some a \<Longrightarrow>
      \<exists>v' e. cp v h = Some (v', h @ e) \<and> den (h @ e) v' = Some a \<and> foot (h @ e) v' \<subseteq> {length h..}"
    and bounded: "den h v = Some a \<Longrightarrow> foot h v \<subseteq> {..<length h}"
    and local: "den h v = Some a \<Longrightarrow> (\<forall>x \<in> foot h v. x < length h' \<and> h' ! x = h ! x) \<Longrightarrow>
      den h' v = Some a \<and> foot h' v = foot h v"
begin

lemma grow:
  assumes "den h v = Some a"
  shows "den (h @ e) v = Some a" "foot (h @ e) v = foot h v"
proof -
  have "\<forall>x \<in> foot h v. x < length (h @ e) \<and> (h @ e) ! x = h ! x"
    using bounded [OF assms] by (auto simp: nth_append)
  from local [OF assms this] show "den (h @ e) v = Some a" "foot (h @ e) v = foot h v"
    by auto
qed

lemma elsewhere:
  assumes "den h v = Some a" "x \<notin> foot h v"
  shows "den (h[x := c]) v = Some a" "foot (h[x := c]) v = foot h v"
proof -
  have "\<forall>y \<in> foot h v. y < length (h[x := c]) \<and> h[x := c] ! y = h ! y"
  proof
    fix y assume "y \<in> foot h v"
    then have "y < length h" "x \<noteq> y"
      using bounded [OF assms(1)] assms(2) by auto
    then show "y < length (h[x := c]) \<and> h[x := c] ! y = h ! y" by simp
  qed
  from local [OF assms(1) this] show "den (h[x := c]) v = Some a" "foot (h[x := c]) v = foot h v"
    by auto
qed

text \<open>
  Whatever is stored later in the cells of the copy, or in new cells, the original denotes what it
  did; and whatever is stored in the cells of the original, the copy denotes what it did.
\<close>

lemma isolated:
  assumes "den h v = Some a" "cp v h = Some (v', h')"
  shows "den h' v' = Some a" "take (length h) h' = h" "foot h' v' \<inter> foot h v = {}"
    "length h' \<le> length h2 \<Longrightarrow> \<forall>x < length h'. x \<notin> foot h' v' \<longrightarrow> h2 ! x = h' ! x \<Longrightarrow> den h2 v = Some a"
    "length h' \<le> length h2 \<Longrightarrow> \<forall>x < length h'. x \<notin> foot h v \<longrightarrow> h2 ! x = h' ! x \<Longrightarrow> den h2 v' = Some a"
proof -
  obtain e where e: "h' = h @ e" and d': "den h' v' = Some a" and f': "foot h' v' \<subseteq> {length h..}"
    using copy [OF assms(1)] assms(2) by auto
  have b: "foot h v \<subseteq> {..<length h}"
    by (rule bounded [OF assms(1)])
  show "den h' v' = Some a" "take (length h) h' = h"
    using e d' by simp_all
  show disj: "foot h' v' \<inter> foot h v = {}"
    using f' b by fastforce
  show "den h2 v = Some a" if "length h' \<le> length h2" "\<forall>x < length h'. x \<notin> foot h' v' \<longrightarrow> h2 ! x = h' ! x"
  proof -
    have "x < length h2 \<and> h2 ! x = h ! x" if "x \<in> foot h v" for x
    proof -
      have "x < length h" "x \<notin> foot h' v'"
        using that b disj by auto
      then show ?thesis
        using \<open>length h' \<le> length h2\<close> \<open>\<forall>x < length h'. x \<notin> foot h' v' \<longrightarrow> h2 ! x = h' ! x\<close> e by (simp add: nth_append)
    qed
    then show ?thesis using local [OF assms(1), of h2] by blast
  qed
  show "den h2 v' = Some a" if "length h' \<le> length h2" "\<forall>x < length h'. x \<notin> foot h v \<longrightarrow> h2 ! x = h' ! x"
  proof -
    have "x < length h2 \<and> h2 ! x = h' ! x" if "x \<in> foot h' v'" for x
      using that bounded [OF d'] disj \<open>length h' \<le> length h2\<close> \<open>\<forall>x < length h'. x \<notin> foot h v \<longrightarrow> h2 ! x = h' ! x\<close>
      by auto
    then show ?thesis using local [OF d', of h2] by blast
  qed
qed

end

section \<open>Values and cells\<close>

definition den_opt :: "(heap \<Rightarrow> ref \<Rightarrow> 'a option) \<Rightarrow> heap \<Rightarrow> ref option \<Rightarrow> 'a option option" where
  "den_opt den h p = (case p of None \<Rightarrow> Some None | Some a \<Rightarrow> map_option Some (den h a))"

definition foot_opt :: "(heap \<Rightarrow> ref \<Rightarrow> ref set) \<Rightarrow> heap \<Rightarrow> ref option \<Rightarrow> ref set" where
  "foot_opt foot h p = (case p of None \<Rightarrow> {} | Some a \<Rightarrow> foot h a)"

definition den_plain :: "(cell \<Rightarrow> 'a option) \<Rightarrow> heap \<Rightarrow> ref \<Rightarrow> 'a option" where
  "den_plain un h a = (if a < length h then un (h ! a) else None)"

definition foot_plain :: "heap \<Rightarrow> ref \<Rightarrow> ref set" where
  "foot_plain h a = {a}"

definition den_new :: "(cell \<Rightarrow> 'v option) \<Rightarrow> (heap \<Rightarrow> 'v \<Rightarrow> 'a option) \<Rightarrow> heap \<Rightarrow> ref \<Rightarrow> 'a option" where
  "den_new un den h a = (if a < length h then Option.bind (un (h ! a)) (den h) else None)"

definition foot_new :: "(cell \<Rightarrow> 'v option) \<Rightarrow> (heap \<Rightarrow> 'v \<Rightarrow> ref set) \<Rightarrow> heap \<Rightarrow> ref \<Rightarrow> ref set" where
  "foot_new un foot h a = insert a (case un (h ! a) of None \<Rightarrow> {} | Some v \<Rightarrow> foot h v)"

primrec den_each :: "(heap \<Rightarrow> 'v \<Rightarrow> 'a option) \<Rightarrow> heap \<Rightarrow> 'v list \<Rightarrow> 'a list option" where
  "den_each den h [] = Some []"
| "den_each den h (v # vs) = Option.bind (den h v) (\<lambda>a. map_option (Cons a) (den_each den h vs))"

primrec foot_each :: "(heap \<Rightarrow> 'v \<Rightarrow> ref set) \<Rightarrow> heap \<Rightarrow> 'v list \<Rightarrow> ref set" where
  "foot_each foot h [] = {}"
| "foot_each foot h (v # vs) = foot h v \<union> foot_each foot h vs"

definition copy_pair :: "('v \<Rightarrow> 'v hp) \<Rightarrow> ('u \<Rightarrow> 'u hp) \<Rightarrow> 'v \<times> 'u \<Rightarrow> ('v \<times> 'u) hp" where
  "copy_pair cp cq p = hbind (cp (fst p)) (\<lambda>v. hbind (cq (snd p)) (\<lambda>u. hret (v, u)))"

definition den_pair ::
  "(heap \<Rightarrow> 'v \<Rightarrow> 'a option) \<Rightarrow> (heap \<Rightarrow> 'u \<Rightarrow> 'b option) \<Rightarrow> heap \<Rightarrow> 'v \<times> 'u \<Rightarrow> ('a \<times> 'b) option" where
  "den_pair den dem h p = Option.bind (den h (fst p)) (\<lambda>a. map_option (Pair a) (dem h (snd p)))"

definition foot_pair ::
  "(heap \<Rightarrow> 'v \<Rightarrow> ref set) \<Rightarrow> (heap \<Rightarrow> 'u \<Rightarrow> ref set) \<Rightarrow> heap \<Rightarrow> 'v \<times> 'u \<Rightarrow> ref set" where
  "foot_pair foot fout h p = foot h (fst p) \<union> fout h (snd p)"

section \<open>Copies from copies\<close>

lemma deep_copier_plain:
  assumes "\<And>c a. un c = Some a \<Longrightarrow> is_kind c"
  shows "deep_copier (copy_plain is_kind) (den_plain un) foot_plain"
proof
  fix h v a assume d: "den_plain un h v = Some a"
  then show "\<exists>v' e. copy_plain is_kind v h = Some (v', h @ e) \<and> den_plain un (h @ e) v' = Some a \<and>
      foot_plain (h @ e) v' \<subseteq> {length h..}"
    using assms by (auto simp: copy_plain_def den_plain_def foot_plain_def hp_defs split: if_splits)
  show "foot_plain h v \<subseteq> {..<length h}"
    using d by (auto simp: den_plain_def foot_plain_def split: if_splits)
  show "den_plain un h' v = Some a \<and> foot_plain h' v = foot_plain h v"
    if "\<forall>x \<in> foot_plain h v. x < length h' \<and> h' ! x = h ! x" for h'
    using d that by (auto simp: den_plain_def foot_plain_def split: if_splits)
qed

lemma deep_copier_opt:
  assumes "deep_copier cp den foot"
  shows "deep_copier (copy_opt cp) (den_opt den) (foot_opt foot)"
proof
  fix h v a assume d: "den_opt den h v = Some a"
  show "\<exists>v' e. copy_opt cp v h = Some (v', h @ e) \<and> den_opt den (h @ e) v' = Some a \<and>
      foot_opt foot (h @ e) v' \<subseteq> {length h..}"
  proof (cases v)
    case None
    then show ?thesis using d by (auto simp: copy_opt_def den_opt_def foot_opt_def hret_def intro!: exI [of _ "[]"])
  next
    case (Some p)
    then obtain b where b: "den h p = Some b" "a = Some b"
      using d by (auto simp: den_opt_def)
    obtain q e where "cp p h = Some (q, h @ e)" "den (h @ e) q = Some b" "foot (h @ e) q \<subseteq> {length h..}"
      using deep_copier.copy [OF assms b(1)] by blast
    then show ?thesis
      by (intro exI [of _ "Some q"] exI [of _ e]) (simp add: Some b(2) copy_opt_def den_opt_def foot_opt_def hp_defs)
  qed
  show "foot_opt foot h v \<subseteq> {..<length h}"
    using d deep_copier.bounded [OF assms] by (auto simp: den_opt_def foot_opt_def split: option.splits)
  show "den_opt den h' v = Some a \<and> foot_opt foot h' v = foot_opt foot h v"
    if "\<forall>x \<in> foot_opt foot h v. x < length h' \<and> h' ! x = h ! x" for h'
    using d that deep_copier.local [OF assms, of h _ _ h'] by (auto simp: den_opt_def foot_opt_def split: option.splits)
qed

lemma deep_copier_new:
  assumes "deep_copier cp den foot" "\<And>v. un (mk v) = Some v"
  shows "deep_copier (copy_new un mk cp) (den_new un den) (foot_new un foot)"
proof
  fix h p a assume d: "den_new un den h p = Some a"
  then obtain v where v: "p < length h" "un (h ! p) = Some v" "den h v = Some a"
    by (auto simp: den_new_def bind_eq_Some_conv split: if_splits)
  note fv = deep_copier.bounded [OF assms(1) v(3)]
  show "foot_new un foot h p \<subseteq> {..<length h}"
    using v fv by (simp add: foot_new_def)
  show "den_new un den h' p = Some a \<and> foot_new un foot h' p = foot_new un foot h p"
    if "\<forall>x \<in> foot_new un foot h p. x < length h' \<and> h' ! x = h ! x" for h'
    using that v deep_copier.local [OF assms(1) v(3), of h'] by (simp add: den_new_def foot_new_def)
  obtain v' e where c: "cp v (h @ [Zeroed]) = Some (v', (h @ [Zeroed]) @ e)" "den ((h @ [Zeroed]) @ e) v' = Some a"
    "foot ((h @ [Zeroed]) @ e) v' \<subseteq> {length (h @ [Zeroed])..}"
    using deep_copier.copy [OF assms(1) deep_copier.grow(1) [OF assms(1) v(3)], of "[Zeroed]"] by blast
  let ?h = "h @ mk v' # e"
  have upd: "((h @ [Zeroed]) @ e)[length h := mk v'] = ?h"
    by simp
  have "length h \<notin> foot ((h @ [Zeroed]) @ e) v'"
    using c(3) by auto
  from deep_copier.elsewhere [OF assms(1) c(2) this, of "mk v'", unfolded upd]
  have "den ?h v' = Some a" "foot ?h v' \<subseteq> {length h..}"
    using c(3) by auto
  then have "den_new un den ?h (length h) = Some a" "foot_new un foot ?h (length h) \<subseteq> {length h..}"
    by (simp_all add: den_new_def foot_new_def assms(2))
  moreover have "copy_new un mk cp p h = Some (length h, ?h)"
    using v c(1) by (simp add: copy_new_def hp_defs nth_append)
  ultimately show "\<exists>q e. copy_new un mk cp p h = Some (q, h @ e) \<and> den_new un den (h @ e) q = Some a \<and>
      foot_new un foot (h @ e) q \<subseteq> {length h..}"
    by blast
qed

text \<open>Two copies after one another: the second does not disturb the first.\<close>

lemma deep_copier_pair:
  assumes "deep_copier cp den foot" "deep_copier cq dem fout"
  shows "deep_copier (copy_pair cp cq) (den_pair den dem) (foot_pair foot fout)"
proof
  fix h p c assume "den_pair den dem h p = Some c"
  then obtain a b where d: "den h (fst p) = Some a" "dem h (snd p) = Some b" "c = (a, b)"
    by (auto simp: den_pair_def bind_eq_Some_conv)
  show "foot_pair foot fout h p \<subseteq> {..<length h}"
    using deep_copier.bounded [OF assms(1) d(1)] deep_copier.bounded [OF assms(2) d(2)] by (simp add: foot_pair_def)
  show "den_pair den dem h' p = Some c \<and> foot_pair foot fout h' p = foot_pair foot fout h p"
    if "\<forall>x \<in> foot_pair foot fout h p. x < length h' \<and> h' ! x = h ! x" for h'
    using that deep_copier.local [OF assms(1) d(1), of h'] deep_copier.local [OF assms(2) d(2), of h'] d(3)
    by (simp add: den_pair_def foot_pair_def)
  obtain v e where v: "cp (fst p) h = Some (v, h @ e)" "den (h @ e) v = Some a" "foot (h @ e) v \<subseteq> {length h..}"
    using deep_copier.copy [OF assms(1) d(1)] by blast
  obtain u f where u: "cq (snd p) (h @ e) = Some (u, (h @ e) @ f)" "dem ((h @ e) @ f) u = Some b"
    "fout ((h @ e) @ f) u \<subseteq> {length (h @ e)..}"
    using deep_copier.copy [OF assms(2) deep_copier.grow(1) [OF assms(2) d(2)], of e] by blast
  have "den ((h @ e) @ f) v = Some a" "foot ((h @ e) @ f) v \<subseteq> {length h..}"
    using deep_copier.grow [OF assms(1) v(2), of f] v(3) by auto
  moreover have "fout ((h @ e) @ f) u \<subseteq> {length h..}"
    using u(3) by auto
  ultimately show "\<exists>q e. copy_pair cp cq p h = Some (q, h @ e) \<and> den_pair den dem (h @ e) q = Some c \<and>
      foot_pair foot fout (h @ e) q \<subseteq> {length h..}"
    using v(1) u(1,2) d(3)
    by (intro exI [of _ "(v, u)"] exI [of _ "e @ f"]) (simp add: copy_pair_def den_pair_def foot_pair_def hp_defs)
qed

text \<open>
  A struct whose references are \<open>get v\<close>: they are copied and put back, and the plain fields, from
  which \<open>mk v\<close> builds the value, stay.
\<close>

lemma deep_copier_struct:
  assumes "deep_copier cp den foot" "\<And>t v. get (put t v) = t" "\<And>t v. mk (put t v) = mk v"
  shows "deep_copier (\<lambda>v. hbind (cp (get v)) (\<lambda>t. hret (put t v))) (\<lambda>h v. map_option (mk v) (den h (get v)))
    (\<lambda>h v. foot h (get v))"
proof
  fix h v c assume "map_option (mk v) (den h (get v)) = Some c"
  then obtain a where d: "den h (get v) = Some a" "c = mk v a"
    by auto
  show "foot h (get v) \<subseteq> {..<length h}"
    by (rule deep_copier.bounded [OF assms(1) d(1)])
  show "map_option (mk v) (den h' (get v)) = Some c \<and> foot h' (get v) = foot h (get v)"
    if "\<forall>x \<in> foot h (get v). x < length h' \<and> h' ! x = h ! x" for h'
    using deep_copier.local [OF assms(1) d(1) that] d(2) by simp
  obtain t e where "cp (get v) h = Some (t, h @ e)" "den (h @ e) t = Some a" "foot (h @ e) t \<subseteq> {length h..}"
    using deep_copier.copy [OF assms(1) d(1)] by blast
  then show "\<exists>v' e. hbind (cp (get v)) (\<lambda>t. hret (put t v)) h = Some (v', h @ e) \<and>
      map_option (mk v') (den (h @ e) (get v')) = Some c \<and> foot (h @ e) (get v') \<subseteq> {length h..}"
    by (intro exI [of _ "put t v"] exI [of _ e]) (simp add: hp_defs assms(2,3) d(2))
qed

text \<open>The elements of a slice are copied one after the other.\<close>

lemma deep_copier_each:
  assumes "deep_copier cp den foot"
  shows "deep_copier (copy_each cp) (den_each den) (foot_each foot)"
proof
  fix h vs as assume d: "den_each den h vs = Some as"
  show "foot_each foot h vs \<subseteq> {..<length h}"
    using d by (induction vs arbitrary: as) (auto simp: bind_eq_Some_conv dest!: deep_copier.bounded [OF assms])
  show "den_each den h' vs = Some as \<and> foot_each foot h' vs = foot_each foot h vs"
    if "\<forall>x \<in> foot_each foot h vs. x < length h' \<and> h' ! x = h ! x" for h'
    using d that
  proof (induction vs arbitrary: as)
    case (Cons v vs)
    then obtain a as' where a: "den h v = Some a" "den_each den h vs = Some as'" "as = a # as'"
      by (auto simp: bind_eq_Some_conv)
    have "den h' v = Some a \<and> foot h' v = foot h v"
      using Cons.prems(2) by (intro deep_copier.local [OF assms a(1)]) simp
    moreover have "den_each den h' vs = Some as' \<and> foot_each foot h' vs = foot_each foot h vs"
      using Cons.prems(2) by (intro Cons.IH [OF a(2)]) simp
    ultimately show ?case
      using a(3) by simp
  qed simp
  show "\<exists>vs' e. copy_each cp vs h = Some (vs', h @ e) \<and> den_each den (h @ e) vs' = Some as \<and>
      foot_each foot (h @ e) vs' \<subseteq> {length h..}"
    using d
  proof (induction vs arbitrary: h as)
    case Nil
    then show ?case by (auto simp: hret_def intro!: exI [of _ "[]"])
  next
    case (Cons v vs)
    then obtain a as' where a: "den h v = Some a" "den_each den h vs = Some as'" "as = a # as'"
      by (auto simp: bind_eq_Some_conv)
    obtain v' e where v: "cp v h = Some (v', h @ e)" "den (h @ e) v' = Some a" "foot (h @ e) v' \<subseteq> {length h..}"
      using deep_copier.copy [OF assms a(1)] by blast
    have "den_each den (h @ e) vs = Some as'"
      using a(2) by (induction vs arbitrary: as') (auto simp: bind_eq_Some_conv deep_copier.grow(1) [OF assms])
    then obtain vs' f where f: "copy_each cp vs (h @ e) = Some (vs', (h @ e) @ f)" "den_each den ((h @ e) @ f) vs' = Some as'"
      "foot_each foot ((h @ e) @ f) vs' \<subseteq> {length (h @ e)..}"
      using Cons.IH by blast
    have "den ((h @ e) @ f) v' = Some a" "foot ((h @ e) @ f) v' \<subseteq> {length h..}"
      using deep_copier.grow [OF assms v(2), of f] v(3) by auto
    moreover have "foot_each foot ((h @ e) @ f) vs' \<subseteq> {length h..}"
      using f(3) by auto
    ultimately show ?case
      using v(1) f(1,2) a(3) by (intro exI [of _ "v' # vs'"] exI [of _ "e @ f"]) (simp add: hp_defs)
  qed
qed

section \<open>What the resources denote\<close>

fun un_VAs :: "cell \<Rightarrow> VirtualAddress list option" where
  "un_VAs (VAs v) = Some v" | "un_VAs _ = None"

fun un_VA :: "cell \<Rightarrow> VirtualAddress option" where
  "un_VA (VA v) = Some v" | "un_VA _ = None"

fun un_Strs :: "cell \<Rightarrow> string list option" where
  "un_Strs (Strs v) = Some v" | "un_Strs _ = None"

fun un_Hashes :: "cell \<Rightarrow> (string \<times> string) list option" where
  "un_Hashes (Hashes v) = Some v" | "un_Hashes _ = None"

fun un_Meta :: "cell \<Rightarrow> ObjectMeta option" where
  "un_Meta (MetaC v) = Some v" | "un_Meta _ = None"

fun un_ListMeta :: "cell \<Rightarrow> string option" where
  "un_ListMeta (ListMetaC v) = Some v" | "un_ListMeta _ = None"

fun un_Sel :: "cell \<Rightarrow> LabelSelector option" where
  "un_Sel (SelC v) = Some v" | "un_Sel _ = None"

fun un_Cond :: "cell \<Rightarrow> Condition option" where
  "un_Cond (CondC v) = Some v" | "un_Cond _ = None"

text \<open>The documented behaviour of the copies of the library types.\<close>

definition foreign_spec :: "foreign \<Rightarrow> bool" where
  "foreign_spec k =
     (deep_copier (ObjectMeta_DeepCopyInto k) (den_plain un_Meta) foot_plain \<and>
      deep_copier (ListMeta_DeepCopyInto k) (den_plain un_ListMeta) foot_plain \<and>
      deep_copier (LabelSelector_DeepCopyInto k) (den_plain un_Sel) foot_plain \<and>
      deep_copier (Condition_DeepCopyInto k) (den_plain un_Cond) foot_plain)"

abbreviation or_empty :: "'a list option \<Rightarrow> 'a list" where
  "or_empty xs \<equiv> (case xs of None \<Rightarrow> [] | Some ys \<Rightarrow> ys)"

definition den_VIPs :: "heap \<Rightarrow> hVIPs \<Rightarrow> LoadBalancerConfigVIPs option" where
  "den_VIPs h v =
     map_option (\<lambda>(api, ingress, nat). \<lparr>vips_API = or_empty api, vips_Ingress = or_empty ingress, vips_NAT = nat\<rparr>)
       (den_pair (den_opt (den_plain un_VAs)) (den_pair (den_opt (den_plain un_VAs)) (den_opt (den_plain un_VA))) h
         (hAPI v, hIngress v, hNAT v))"

definition foot_VIPs :: "heap \<Rightarrow> hVIPs \<Rightarrow> ref set" where
  "foot_VIPs h v = foot_pair (foot_opt foot_plain) (foot_pair (foot_opt foot_plain) (foot_opt foot_plain)) h
     (hAPI v, hIngress v, hNAT v)"

definition den_Backend :: "heap \<Rightarrow> hBackend \<Rightarrow> LoadBalancerConfigBackend option" where
  "den_Backend h v = map_option (\<lambda>s. \<lparr>NodeSelector = s\<rparr>) (den_plain un_Sel h (hNodeSelector v))"

definition foot_Backend :: "heap \<Rightarrow> hBackend \<Rightarrow> ref set" where
  "foot_Backend h v = foot_plain h (hNodeSelector v)"

definition den_Spec :: "heap \<Rightarrow> hSpec \<Rightarrow> LoadBalancerConfigSpec option" where
  "den_Spec h v =
     map_option (\<lambda>(vips, ab, ib, rules).
         \<lparr>Cloud = hCloud v, CloudCredentials = hCloudCredentials v, Distribution = hDistribution v,
          VirtualAddresses = vips, APIBackend = ab, IngressBackend = ib, FirewallRules = or_empty rules\<rparr>)
       (den_pair den_VIPs (den_pair den_Backend (den_pair (den_opt (den_new un_Backend den_Backend))
           (den_opt (den_plain un_Strs)))) h
         (hVirtualAddresses v, hAPIBackend v, hIngressBackend v, hFirewallRules v))"

definition foot_Spec :: "heap \<Rightarrow> hSpec \<Rightarrow> ref set" where
  "foot_Spec h v =
     foot_pair foot_VIPs (foot_pair foot_Backend (foot_pair (foot_opt (foot_new un_Backend foot_Backend))
         (foot_opt foot_plain))) h
       (hVirtualAddresses v, hAPIBackend v, hIngressBackend v, hFirewallRules v)"

definition den_Node :: "heap \<Rightarrow> hNodeStatus \<Rightarrow> LoadBalancerNodeStatus option" where
  "den_Node h v =
     map_option (\<lambda>m. \<lparr>PublicIP = hPublicIP v, PrivateIP = hPrivateIP v, VrrpIP = hVrrpIP v,
         ConfigHashes = map_option map_of m, NodeStatus = hState v\<rparr>)
       (den_opt (den_plain un_Hashes) h (hConfigHashes v))"

definition foot_Node :: "heap \<Rightarrow> hNodeStatus \<Rightarrow> ref set" where
  "foot_Node h v = foot_opt foot_plain h (hConfigHashes v)"

definition den_entry :: "heap \<Rightarrow> string \<times> ref option \<Rightarrow> (string \<times> LoadBalancerNodeStatus option) option" where
  "den_entry h kv = map_option (Pair (fst kv)) (den_opt (den_new un_Node den_Node) h (snd kv))"

definition foot_entry :: "heap \<Rightarrow> string \<times> ref option \<Rightarrow> ref set" where
  "foot_entry h kv = foot_opt (foot_new un_Node foot_Node) h (snd kv)"

definition den_Status :: "heap \<Rightarrow> hStatus \<Rightarrow> LoadBalancerConfigStatus option" where
  "den_Status h v =
     map_option (\<lambda>(nodes, conds). \<lparr>Nodes = map_option map_of nodes, Conditions = or_empty conds\<rparr>)
       (den_pair (den_opt (den_new un_Nodes (den_each den_entry)))
           (den_opt (den_new un_Conds (den_each (den_plain un_Cond)))) h
         (hNodes v, hConditions v))"

definition foot_Status :: "heap \<Rightarrow> hStatus \<Rightarrow> ref set" where
  "foot_Status h v =
     foot_pair (foot_opt (foot_new un_Nodes (foot_each foot_entry))) (foot_opt (foot_new un_Conds (foot_each foot_plain))) h
       (hNodes v, hConditions v)"

definition den_Config :: "heap \<Rightarrow> hConfig \<Rightarrow> ((string \<times> string) \<times> LoadBalancerConfig) option" where
  "den_Config h v =
     map_option (\<lambda>(m, sp, st). (hTypeMeta v, \<lparr>Meta = m, Spec = sp, Status = st\<rparr>))
       (den_pair (den_plain un_Meta) (den_pair den_Spec den_Status) h (hObjectMeta v, hSpecF v, hStatusF v))"

definition foot_Config :: "heap \<Rightarrow> hConfig \<Rightarrow> ref set" where
  "foot_Config h v = foot_pair foot_plain (foot_pair foot_Spec foot_Status) h (hObjectMeta v, hSpecF v, hStatusF v)"

definition den_List :: "heap \<Rightarrow> hConfigList \<Rightarrow> ((string \<times> string) \<times> string \<times> ((string \<times> string) \<times> LoadBalancerConfig) list option) option" where
  "den_List h v =
     map_option (Pair (hlTypeMeta v))
       (den_pair (den_plain un_ListMeta) (den_opt (den_new un_Configs (den_each den_Config))) h (hlListMeta v, hlItems v))"

definition foot_List :: "heap \<Rightarrow> hConfigList \<Rightarrow> ref set" where
  "foot_List h v = foot_pair foot_plain (foot_opt (foot_new un_Configs (foot_each foot_Config))) h (hlListMeta v, hlItems v)"

section \<open>The generated functions are copies\<close>

lemma plain_copies:
  "deep_copier (copy_plain is_VAs) (den_plain un_VAs) foot_plain"
  "deep_copier (copy_plain is_VA) (den_plain un_VA) foot_plain"
  "deep_copier (copy_plain is_Strs) (den_plain un_Strs) foot_plain"
  "deep_copier (copy_plain is_Hashes) (den_plain un_Hashes) foot_plain"
  by (rule deep_copier_plain; auto elim!: un_VAs.elims un_VA.elims un_Strs.elims un_Hashes.elims)+

lemma hbind_assoc: "hbind (hbind m f) g = hbind m (\<lambda>v. hbind (f v) g)"
  by (auto simp: hbind_def split: option.splits)

lemma hbind_hret: "hbind (hret v) f = f v"
  by (simp add: hbind_def hret_def)

lemmas copy_norm = copy_pair_def hbind_assoc hbind_hret

interpretation vips: deep_copier VIPs_DeepCopyInto den_VIPs foot_VIPs
proof -
  note c = deep_copier_opt [OF plain_copies(1)]
  show "deep_copier VIPs_DeepCopyInto den_VIPs foot_VIPs"
    using deep_copier_struct [OF deep_copier_pair [OF c deep_copier_pair [OF c deep_copier_opt [OF plain_copies(2)]]],
        of "\<lambda>v. (hAPI v, hIngress v, hNAT v)" "\<lambda>t v. v\<lparr>hAPI := fst t, hIngress := fst (snd t), hNAT := snd (snd t)\<rparr>"
          "\<lambda>_ (api, ingress, nat). \<lparr>vips_API = or_empty api, vips_Ingress = or_empty ingress, vips_NAT = nat\<rparr>"]
    by (simp add: VIPs_DeepCopyInto_def [abs_def] den_VIPs_def [abs_def] foot_VIPs_def [abs_def] copy_norm)
qed

interpretation node_status: deep_copier NodeStatus_DeepCopyInto den_Node foot_Node
  using deep_copier_struct [OF deep_copier_opt [OF plain_copies(4)], of hConfigHashes "\<lambda>t v. v\<lparr>hConfigHashes := t\<rparr>"
      "\<lambda>v m. \<lparr>PublicIP = hPublicIP v, PrivateIP = hPrivateIP v, VrrpIP = hVrrpIP v,
         ConfigHashes = map_option map_of m, NodeStatus = hState v\<rparr>"]
  by (simp add: NodeStatus_DeepCopyInto_def [abs_def] den_Node_def [abs_def] foot_Node_def [abs_def])

lemma entry_copies: "deep_copier copy_entry den_entry foot_entry"
  using deep_copier_struct [OF deep_copier_opt [OF deep_copier_new [OF node_status.deep_copier_axioms, of un_Node NodeC]],
      of snd "\<lambda>t kv. (fst kv, t)" "\<lambda>kv. Pair (fst kv)"]
  by (simp add: copy_entry_def [abs_def] den_entry_def [abs_def] foot_entry_def [abs_def])

lemma backend_copies:
  assumes "foreign_spec k"
  shows "deep_copier (Backend_DeepCopyInto k) den_Backend foot_Backend"
  using deep_copier_struct [of "LabelSelector_DeepCopyInto k" "den_plain un_Sel" foot_plain hNodeSelector
      "\<lambda>t v. v\<lparr>hNodeSelector := t\<rparr>" "\<lambda>_ s. \<lparr>NodeSelector = s\<rparr>"] assms
  by (simp add: foreign_spec_def Backend_DeepCopyInto_def [abs_def] den_Backend_def [abs_def] foot_Backend_def [abs_def])

lemma spec_copies:
  assumes "foreign_spec k"
  shows "deep_copier (Spec_DeepCopyInto k) den_Spec foot_Spec"
proof -
  note b = backend_copies [OF assms]
  note c = deep_copier_pair [OF vips.deep_copier_axioms deep_copier_pair [OF b
      deep_copier_pair [OF deep_copier_opt [OF deep_copier_new [OF b, of un_Backend BackendC]] deep_copier_opt [OF plain_copies(3)]]]]
  show ?thesis
    using deep_copier_struct [OF c, of "\<lambda>v. (hVirtualAddresses v, hAPIBackend v, hIngressBackend v, hFirewallRules v)"
        "\<lambda>t v. v\<lparr>hVirtualAddresses := fst t, hAPIBackend := fst (snd t), hIngressBackend := fst (snd (snd t)),
                 hFirewallRules := snd (snd (snd t))\<rparr>"
        "\<lambda>v (vips, ab, ib, rules).
           \<lparr>Cloud = hCloud v, CloudCredentials = hCloudCredentials v, Distribution = hDistribution v,
            VirtualAddresses = vips, APIBackend = ab, IngressBackend = ib, FirewallRules = or_empty rules\<rparr>"]
    by (simp add: Spec_DeepCopyInto_def [abs_def] den_Spec_def [abs_def] foot_Spec_def [abs_def] copy_norm)
qed

lemma status_copies:
  assumes "foreign_spec k"
  shows "deep_copier (Status_DeepCopyInto k) den_Status foot_Status"
proof -
  have f: "deep_copier (Condition_DeepCopyInto k) (den_plain un_Cond) foot_plain"
    using assms by (simp add: foreign_spec_def)
  note c = deep_copier_pair [OF deep_copier_opt [OF deep_copier_new [OF deep_copier_each [OF entry_copies], of un_Nodes NodesC]]
      deep_copier_opt [OF deep_copier_new [OF deep_copier_each [OF f], of un_Conds CondsC]]]
  show ?thesis
    using deep_copier_struct [OF c, of "\<lambda>v. (hNodes v, hConditions v)"
        "\<lambda>t v. v\<lparr>hNodes := fst t, hConditions := snd t\<rparr>"
        "\<lambda>_ (nodes, conds). \<lparr>Nodes = map_option map_of nodes, Conditions = or_empty conds\<rparr>"]
    by (simp add: Status_DeepCopyInto_def [abs_def] den_Status_def [abs_def] foot_Status_def [abs_def] copy_slice_def copy_norm)
qed

lemma config_copies:
  assumes "foreign_spec k"
  shows "deep_copier (Config_DeepCopyInto k) den_Config foot_Config"
proof -
  have f: "deep_copier (ObjectMeta_DeepCopyInto k) (den_plain un_Meta) foot_plain"
    using assms by (simp add: foreign_spec_def)
  note c = deep_copier_pair [OF f deep_copier_pair [OF spec_copies [OF assms] status_copies [OF assms]]]
  show ?thesis
    using deep_copier_struct [OF c, of "\<lambda>v. (hObjectMeta v, hSpecF v, hStatusF v)"
        "\<lambda>t v. v\<lparr>hObjectMeta := fst t, hSpecF := fst (snd t), hStatusF := snd (snd t)\<rparr>"
        "\<lambda>v (m, sp, st). (hTypeMeta v, \<lparr>Meta = m, Spec = sp, Status = st\<rparr>)"]
    by (simp add: Config_DeepCopyInto_def [abs_def] den_Config_def [abs_def] foot_Config_def [abs_def] copy_norm)
qed

lemma list_copies:
  assumes "foreign_spec k"
  shows "deep_copier (List_DeepCopyInto k) den_List foot_List"
proof -
  have f: "deep_copier (ListMeta_DeepCopyInto k) (den_plain un_ListMeta) foot_plain"
    using assms by (simp add: foreign_spec_def)
  note c = deep_copier_pair [OF f deep_copier_opt [OF deep_copier_new [OF deep_copier_each [OF config_copies [OF assms]], of un_Configs ConfigsC]]]
  show ?thesis
    using deep_copier_struct [OF c, of "\<lambda>v. (hlListMeta v, hlItems v)"
        "\<lambda>t v. v\<lparr>hlListMeta := fst t, hlItems := snd t\<rparr>" "\<lambda>v. Pair (hlTypeMeta v)"]
    by (simp add: List_DeepCopyInto_def [abs_def] den_List_def [abs_def] foot_List_def [abs_def] copy_slice_def copy_norm)
qed

text \<open>A pointer to a resource, or to a list of resources.\<close>

definition config_at :: "heap \<Rightarrow> ref \<Rightarrow> ((string \<times> string) \<times> LoadBalancerConfig) option" where
  "config_at = den_new un_Config den_Config"

definition config_cells :: "heap \<Rightarrow> ref \<Rightarrow> ref set" where
  "config_cells = foot_new un_Config foot_Config"

definition list_at :: "heap \<Rightarrow> ref \<Rightarrow> ((string \<times> string) \<times> string \<times> ((string \<times> string) \<times> LoadBalancerConfig) list option) option" where
  "list_at = den_new un_List den_List"

definition list_cells :: "heap \<Rightarrow> ref \<Rightarrow> ref set" where
  "list_cells = foot_new un_List foot_List"

lemma pointer_copies:
  assumes "foreign_spec k"
  shows "deep_copier (copy_new un_Config ConfigC (Config_DeepCopyInto k)) config_at config_cells"
    "deep_copier (copy_new un_List ListC (List_DeepCopyInto k)) list_at list_cells"
  unfolding config_at_def config_cells_def list_at_def list_cells_def
  by (rule deep_copier_new; simp add: config_copies [OF assms] list_copies [OF assms])+

lemma DeepCopyObject_some:
  "Config_DeepCopyObject k (Some p) h = map_option (\<lambda>(q, h'). (Some q, h')) (copy_new un_Config ConfigC (Config_DeepCopyInto k) p h)"
  "List_DeepCopyObject k (Some p) h = map_option (\<lambda>(q, h'). (Some q, h')) (copy_new un_List ListC (List_DeepCopyInto k) p h)"
  by (auto simp: Config_DeepCopyObject_def Config_DeepCopy_def List_DeepCopyObject_def List_DeepCopy_def copy_opt_def
      hbind_def hret_def split: option.splits)

text \<open>A reference is nil in the copy exactly when it is nil in the original.\<close>

lemma copy_opt_nil: "copy_opt cp p h = Some (q, h') \<Longrightarrow> q = None \<longleftrightarrow> p = None"
  by (auto simp: copy_opt_def hbind_def hret_def split: option.splits)

lemma DeepCopyObject_nil:
  "Config_DeepCopyObject k None h = Some (None, h)" "List_DeepCopyObject k None h = Some (None, h)"
  by (simp_all add: Config_DeepCopyObject_def Config_DeepCopy_def List_DeepCopyObject_def List_DeepCopy_def copy_opt_def hp_defs)

section \<open>Properties\<close>

text \<open>
  C11: A deep copy of a resource is a resource of its own. On every heap on which a pointer denotes a
  resource the copy succeeds and changes no existing cell, the new pointer denotes the same
  resource, and the two have no cell in common: whatever is stored through one of them later (every
  cell outside the other one may change and new cells may appear), the other denotes what it did.
  So the reconciler can change the resource it was handed without changing the client's cache.
\<close>

theorem deep_copy_isolated:
  assumes "foreign_spec k" "config_at h p = Some c"
  shows "\<exists>q h'. Config_DeepCopyObject k (Some p) h = Some (Some q, h') \<and>
    take (length h) h' = h \<and> config_at h' q = Some c \<and> config_cells h' q \<inter> config_cells h p = {} \<and>
    (\<forall>h2. length h' \<le> length h2 \<longrightarrow>
       ((\<forall>x < length h'. x \<notin> config_cells h' q \<longrightarrow> h2 ! x = h' ! x) \<longrightarrow> config_at h2 p = Some c) \<and>
       ((\<forall>x < length h'. x \<notin> config_cells h p \<longrightarrow> h2 ! x = h' ! x) \<longrightarrow> config_at h2 q = Some c))"
proof -
  note dc = pointer_copies(1) [OF assms(1)]
  obtain q e where q: "copy_new un_Config ConfigC (Config_DeepCopyInto k) p h = Some (q, h @ e)"
    using deep_copier.copy [OF dc assms(2)] by blast
  note iso = deep_copier.isolated [OF dc assms(2) q]
  show ?thesis
    using q iso by (intro exI [of _ q] exI [of _ "h @ e"]) (simp add: DeepCopyObject_some)
qed

text \<open>
  The same holds for a list of resources: the copied list denotes the same resources, in the same
  order, and shares no cell with the original list or with any of its items.
\<close>

theorem deep_copy_list_isolated:
  assumes "foreign_spec k" "list_at h p = Some cs"
  shows "\<exists>q h'. List_DeepCopyObject k (Some p) h = Some (Some q, h') \<and>
    take (length h) h' = h \<and> list_at h' q = Some cs \<and> list_cells h' q \<inter> list_cells h p = {} \<and>
    (\<forall>h2. length h' \<le> length h2 \<longrightarrow>
       (\<forall>x < length h'. x \<notin> list_cells h' q \<longrightarrow> h2 ! x = h' ! x) \<longrightarrow> list_at h2 p = Some cs)"
proof -
  note dc = pointer_copies(2) [OF assms(1)]
  obtain q e where q: "copy_new un_List ListC (List_DeepCopyInto k) p h = Some (q, h @ e)"
    using deep_copier.copy [OF dc assms(2)] by blast
  note iso = deep_copier.isolated [OF dc assms(2) q]
  show ?thesis
    using q iso by (intro exI [of _ q] exI [of _ "h @ e"]) (simp add: DeepCopyObject_some)
qed

section \<open>Witnesses\<close>

text \<open>Copies of the library types that satisfy their specification, and a resource on a heap.\<close>

definition sample_foreign :: foreign where
  "sample_foreign =
     \<lparr>ObjectMeta_DeepCopyInto = copy_plain is_MetaC, ListMeta_DeepCopyInto = copy_plain is_ListMetaC,
      LabelSelector_DeepCopyInto = copy_plain is_SelC, Condition_DeepCopyInto = copy_plain is_CondC\<rparr>"

lemma sample_foreign_spec: "foreign_spec sample_foreign"
  unfolding foreign_spec_def sample_foreign_def foreign.simps
  by (intro conjI deep_copier_plain; auto elim!: un_Meta.elims un_ListMeta.elims un_Sel.elims un_Cond.elims)

definition sample_heap :: heap where
  "sample_heap =
     [ConfigC \<lparr>hTypeMeta = (''LoadBalancerConfig'', ''v1alpha1''), hObjectMeta = 1,
        hSpecF = \<lparr>hCloud = ''cloudscale'', hCloudCredentials = ''cloudscale-token'', hDistribution = ''openshift'',
          hVirtualAddresses = \<lparr>hAPI = Some 2, hIngress = None, hNAT = Some 3\<rparr>,
          hAPIBackend = \<lparr>hNodeSelector = 4\<rparr>, hIngressBackend = Some 5, hFirewallRules = None\<rparr>,
        hStatusF = \<lparr>hNodes = Some 7, hConditions = None\<rparr>\<rparr>,
      MetaC (Meta sample_lbconfig), VAs (vips_API sample_vips), VA (the (vips_NAT sample_vips)),
      SelC sample_selector, BackendC \<lparr>hNodeSelector = 6\<rparr>, SelC sample_selector,
      NodesC [(''lb1'', Some 8), (''lb2'', None)],
      NodeC \<lparr>hPublicIP = ''198.51.100.5'', hPrivateIP = ''172.18.200.5'', hVrrpIP = ''172.18.200.2'',
        hConfigHashes = Some 9, hState = ''Ready''\<rparr>,
      Hashes [(''/etc/haproxy/10_api.cfg'', ''00'')],
      ListC \<lparr>hlTypeMeta = (''LoadBalancerConfigList'', ''v1alpha1''), hlListMeta = 11, hlItems = Some 12\<rparr>,
      ListMetaC ''42'', ConfigsC []]"

lemma sample_config_at: "\<exists>c. config_at sample_heap 0 = Some c"
  by (simp add: config_at_def den_new_def sample_heap_def den_Config_def den_pair_def den_plain_def den_Spec_def den_VIPs_def
      den_opt_def den_Backend_def den_Status_def den_entry_def den_Node_def numeral_nat)

lemma sample_list_at: "list_at sample_heap 10 = Some ((''LoadBalancerConfigList'', ''v1alpha1''), ''42'', Some [])"
  by (simp add: list_at_def den_new_def sample_heap_def den_List_def den_pair_def den_plain_def den_opt_def numeral_nat)

theorem deep_copy_isolated_witness:
  "\<exists>c q h'. config_at sample_heap 0 = Some c \<and> Config_DeepCopyObject sample_foreign (Some 0) sample_heap = Some (Some q, h') \<and>
     config_at h' q = Some c \<and> config_cells h' q \<inter> config_cells sample_heap 0 = {}"
proof -
  obtain c where "config_at sample_heap 0 = Some c"
    using sample_config_at by blast
  then show ?thesis
    using deep_copy_isolated [OF sample_foreign_spec] by blast
qed

theorem deep_copy_list_isolated_witness:
  "\<exists>q h'. List_DeepCopyObject sample_foreign (Some 10) sample_heap = Some (Some q, h') \<and>
     list_at h' q = Some ((''LoadBalancerConfigList'', ''v1alpha1''), ''42'', Some [])"
  using deep_copy_list_isolated [OF sample_foreign_spec sample_list_at] by blast

end
