(* ===== verification/Spec2Isabelle.thy ===== *)
theory Spec2Isabelle
  imports MainCmd ControlLoop StoreSpec Schema DeepCopy
begin

text \<open>
  A verification development for the bootc load balancer controller: a Kubernetes controller that
  runs on each of two load balancer machines and turns a \<^verbatim>\<open>LoadBalancerConfig\<close> resource into the
  configuration files of HAProxy, Keepalived, Floaty, conntrackd, NetworkManager, sysctl and
  firewalld, reloads the services whose files changed, and reports in the status of the resource.
  Paths below are relative to \<^verbatim>\<open>src/\<close>; \<^verbatim>\<open>controller/\<close> is \<^verbatim>\<open>internal/controller/\<close>.

  \<^bold>\<open>The parts and their theories.\<close>

  \<^item> \<open>Prelude\<close>: Go errors as values (\<open>Errorf\<close>, \<open>Wrapf\<close>), results as sums, panics as outcomes, runs
    with state and panics, printing of numbers, sorting by a comparison function; the locale
    \<open>comparison\<close>. Error values keep the fixed text of a message and mostly leave out its
    formatted arguments.
  \<^item> \<open>Netip\<close>, \<open>GoPath\<close>, \<open>Template\<close>, \<open>Sha256\<close>: what the code uses of the standard packages
    \<^verbatim>\<open>net/netip\<close> (addresses as words of 32 and 128 bits), \<^verbatim>\<open>path/filepath\<close>, \<^verbatim>\<open>text/template\<close> and
    \<^verbatim>\<open>crypto/sha256\<close>. All are executable.
  \<^item> \<open>ApiTypes\<close>: \<^verbatim>\<open>api/v1alpha1/loadbalancerconfig_types.go\<close> and the reconciler's configuration as
    records; a nil pointer or nil map is \<open>None\<close>. The record \<open>ext\<close> holds the third-party functions
    (multierr, x/exp/maps, the route table, the Kubernetes client), \<open>host\<close> the operating system.
    Their documented behaviour is assumed only where a theorem names it (\<open>Combine_spec\<close>,
    \<open>Keys_spec\<close>).
  \<^item> \<open>Samples\<close>: a concrete cluster, host and resource at which the witnesses evaluate the theorems.
  \<^item> \<open>Vip\<close>: \<^verbatim>\<open>controller/vip.go\<close>. \<open>Network\<close>: \<^verbatim>\<open>controller/network.go\<close>. \<open>Keepalived\<close>:
    \<^verbatim>\<open>controller/keepalived.go\<close> and \<^verbatim>\<open>controller/conntrackd.go\<close>. \<open>NetManager\<close>:
    \<^verbatim>\<open>controller/network_manager.go\<close>. \<open>Firewalld\<close>: \<^verbatim>\<open>controller/firewalld.go\<close>. \<open>Haproxy\<close>:
    \<^verbatim>\<open>controller/haproxy.go\<close>. \<open>Templates\<close>: \<^verbatim>\<open>controller/template.go\<close> and the embedded templates.
    Each renderer is a function from its inputs to a result; the specifications write the file line
    by line and the lemmas show that parsing and executing the template yields that text.
  \<^item> \<open>WriteConfig\<close>: \<^verbatim>\<open>controller/write_config.go\<close> on an explicit file system with faults.
    \<open>ConfigStore\<close>: \<^verbatim>\<open>CompareAndWrite\<close>, its contract as the locales \<open>config_store\<close> and
    \<open>content_store\<close>, and their interpretations.
  \<^item> \<open>Service\<close>: \<^verbatim>\<open>controller/service.go\<close>. \<open>Reconciler\<close>: status initialisation,
    \<^verbatim>\<open>ReconcileLBConfig\<close> as the sequence of its eleven files, and \<^verbatim>\<open>Reconcile\<close>, from
    \<^verbatim>\<open>controller/loadbalancerconfig_controller.go\<close>; \<open>ReconcilerCorrect\<close> holds their theorems.
  \<^item> \<open>Handlers\<close>: the two event handlers, \<^verbatim>\<open>Filter\<close> and \<^verbatim>\<open>SetupWithManager\<close>, with the contract
    \<open>requeue_handler\<close>.
  \<^item> \<open>StoreSpec\<close>: the abstract specification of the file store (a map from files to digests) and of a
    reconciliation, with the locale \<open>refined_store\<close> and its interpretation on \<^verbatim>\<open>CompareAndWrite\<close>.
    \<open>ReconcilePass\<close>: what one reconciliation leaves behind, however it ends. \<open>ControlLoop\<close>: the
    controller with its work queue and the API server as a transition system, with history variables
    for the nodes last seen and for hashes that could not be recorded.
  \<^item> \<open>Schema\<close>: the validation markers of the API types. \<open>DeepCopy\<close>:
    \<^verbatim>\<open>api/v1alpha1/zz_generated.deepcopy.go\<close> on an explicit heap, with the locale \<open>deep_copier\<close>.
    \<open>Scheme\<close>: \<^verbatim>\<open>api/v1alpha1/groupversion_info.go\<close> and the two \<^verbatim>\<open>init\<close> functions.
  \<^item> \<open>RenderFile\<close>: \<^verbatim>\<open>internal/render/render.go\<close>, with the YAML package as a parameter. \<open>MainCmd\<close>:
    \<^verbatim>\<open>cmd/main.go\<close>, with the manager as a parameter.

  \<^bold>\<open>State.\<close> A reconciliation works on a \<open>world\<close>: the files (content and permissions by path), the
  resource in memory, the commands run and the status updates sent. Operations are functions from a
  world to an outcome (a value or a panic) and the world afterwards. One reconciliation is not
  interleaved with other processes; \<open>ControlLoop\<close> interleaves whole reconciliations, whose status
  updates the API server accepts or rejects, with edits of the resource, status updates of the other
  load balancer, changes of nodes and secrets and restarts, under the documented behaviour of the work
  queue and the API server. Deep copies work on a heap of cells
  instead, because their purpose is to avoid sharing.

  \<^bold>\<open>What is shown.\<close> A valid configuration is applied completely: every file holds the text rendered
  for it. A second reconciliation does nothing. The reconciliation refines an abstract pass over
  files and digests, and exactly the services with files out of date are reloaded. In every
  reachable state of the controller the resource is queued or applied for nodes with the present labels,
  unless the input changed after a result that could not be recorded; the queue drains within three
  turns when the status knows this host, and never when only the other one has registered. Status
  updates satisfy the schema. Each renderer produces the specified text, with
  every error case; the lists of addresses are complete, sorted and independent of map iteration
  order; the two load balancers mirror each other. Writing and checking files is idempotent, detects
  drift and touches nothing else. Node and credential events reach the files. Deep copies are equal
  to and separate from their originals. The theorems about panics, lost writes, unreported reload
  failures, shadowed resources and lost reverts state defects of the code as it is written. The theorems
  on the ingress file and on rendering from a file are restricted to the inputs on which the code does
  what its documentation says; what it does on the others are separate theorems
  (\<open>ingress_section_unconditional\<close>, \<open>ingress_backends_ignored\<close>).

  \<^bold>\<open>Bounds.\<close> All functions are total. The only budget is the nesting depth of parentheses in a
  template pipeline, which \<open>eval_pipeline\<close> starts at the size of the pipeline. Loops over
  text use recursion with a measure.

  \<^bold>\<open>Not modelled.\<close> Logging and printing; directories (a failing \<^verbatim>\<open>MkdirAll\<close> is a fault of the
  host, possible only while the directory has none of the two files); the delays of the rate limiter;
  in the control loop, the deletion of the resource, stale reads from the client's cache and changes of the
  order in which nodes are listed (the code does not sort the backends); the parts of
  the metadata that the controller does not read; the contents of error messages beyond their fixed
  text. SHA-256 is defined concretely and no property of it is assumed, so theorems about stored
  data speak of equal digests.
\<close>

section \<open>From an event to the file\<close>

lemma api_rendered:
  assumes "RenderHAProxyAPIConfig x c None = Inr d" "Distribution (Spec c) \<in> {''openshift'', ''talos''}"
  shows "\<exists>f bs. getHAProxyFrontends x (VirtualAddresses (Spec c)) = (f, None) \<and>
    getHAProxyBackends x (NodeSelector (APIBackend (Spec c))) = Inr bs \<and> d = api_text (Distribution (Spec c)) f bs"
  using assms
  by (auto simp: RenderHAProxyAPIConfig_def haproxyTemplateData_def wrap_result_def api_text_def haproxy_templates
      split: prod.splits option.splits sum.splits)

lemma floaty_rendered:
  assumes "RenderFloatyConfig x c sec = Inr d" "Cloud (Spec c) = ''cloudscale''"
  shows "\<exists>vips t. publicVIPs x (VirtualAddresses (Spec c)) = (vips, None) \<and> sec_Data sec ''token'' = Some t \<and>
    d = floaty_text (cloudscale_section t) vips"
  using assms by (auto simp: RenderFloatyConfig_def cloudscale_template split: prod.splits option.splits)

section \<open>Properties that span components\<close>

text \<open>
  C7: A change of a node reaches HAProxy. When the labels of a node change, every listed resource is
  requested, and a reconciliation of such a request that returns no error leaves the API file of
  HAProxy holding the configuration with exactly the backends that the selector now selects. The files
  can be read and the recorded hashes are truthful.
\<close>

theorem node_change_reaches_haproxy:
  assumes "Combine_spec x" "\<forall>f \<in> set managed_files. readable h r f \<and> truthful r f (w\<lparr>w_lb := c\<rparr>)"
    and "client_ListLB x = Inr lbs" "c \<in> set lbs" "client_GetLB x (Namespace (Meta c), Name (Meta c)) = Inr c"
    and "host_known r c" "Distribution (Spec c) \<in> {''openshift'', ''talos''}"
    and "client_GetSecret x (Namespace (Meta c), CloudCredentials (Spec c)) = Inr sec"
    and "node_Labels old \<noteq> node_Labels new"
    and "Reconcile x h keys r (Namespace (Meta c), Name (Meta c)) w = (Ret None, w')"
  shows "(Namespace (Meta c), Name (Meta c)) \<in> set (SetupWithManager x r (NodeEvent (UpdateEvent old new))) \<and>
    (\<exists>f bs. getHAProxyFrontends x (VirtualAddresses (Spec c)) = (f, None) \<and>
      getHAProxyBackends x (NodeSelector (APIBackend (Spec c))) = Inr bs \<and>
      holds_data r HAProxyAPIConfigFile (api_text (Distribution (Spec c)) f bs) w')"
proof -
  have "(Namespace (Meta c), Name (Meta c)) \<in> set (SetupWithManager x r (NodeEvent (UpdateEvent old new)))"
    using assms(3,4,9) by (simp add: SetupWithManager_def Filter_def node_Update_def node_queueAllLBConfigs_def)
  moreover obtain d where "RenderHAProxyAPIConfig x c None = Inr d" "holds_data r HAProxyAPIConfigFile d w'"
    using reconciled_stage [OF assms(1,2,5,6,8,10), of "hd (lb_stages x h r sec None)"]
    by (auto simp: lb_stages_def)
  ultimately show ?thesis
    using api_rendered [OF _ assms(7)] by blast
qed

text \<open>
  C13: Rotated credentials reach Floaty. An update of a secret in the watched namespace requests every
  listed resource, and a reconciliation of such a request that returns no error leaves the Floaty
  file holding the token that the credentials secret has now. The files can be read and the recorded
  hashes are truthful.
\<close>

theorem rotated_token_reaches_floaty:
  assumes "Combine_spec x" "\<forall>f \<in> set managed_files. readable h r f \<and> truthful r f (w\<lparr>w_lb := c\<rparr>)"
    and "client_ListLB x = Inr lbs" "c \<in> set lbs" "client_GetLB x (Namespace (Meta c), Name (Meta c)) = Inr c"
    and "host_known r c" "Cloud (Spec c) = ''cloudscale''"
    and "client_GetSecret x (Namespace (Meta c), CloudCredentials (Spec c)) = Inr sec"
    and "WatchNamespace r \<noteq> []" "sec_Namespace sec = WatchNamespace r"
    and "Reconcile x h keys r (Namespace (Meta c), Name (Meta c)) w = (Ret None, w')"
  shows "(Namespace (Meta c), Name (Meta c)) \<in> set (SetupWithManager x r (SecretEvent (UpdateEvent old sec))) \<and>
    (\<exists>vips t. publicVIPs x (VirtualAddresses (Spec c)) = (vips, None) \<and> sec_Data sec ''token'' = Some t \<and>
      holds_data r FloatyConfigFile (floaty_text (cloudscale_section t) vips) w')"
proof -
  have "(Namespace (Meta c), Name (Meta c)) \<in> set (SetupWithManager x r (SecretEvent (UpdateEvent old sec)))"
    using assms(3,4,9,10)
    by (simp add: SetupWithManager_def Filter_def credentials_Update_def credentials_queueAllLBConfigs_def)
  moreover obtain d where "RenderFloatyConfig x c sec = Inr d" "holds_data r FloatyConfigFile d w'"
    using reconciled_stage [OF assms(1,2,5,6,8,11), of "lb_stages x h r sec None ! 3"]
    by (auto simp: lb_stages_def)
  ultimately show ?thesis
    using floaty_rendered [OF _ assms(7)] by blast
qed

section \<open>Witnesses\<close>

lemma sample_managed:
  "\<forall>f \<in> set managed_files. readable sample_host sample_reconciler f \<and>
     truthful sample_reconciler f (empty_world\<lparr>w_lb := sample_lbconfig\<rparr>)"
  using sample_host_facts(2) [of "\<lambda>_. None", unfolded sample_host_update] empty_world_truthful by simp

lemma sample_listed: "client_ListLB sample_ext = Inr [sample_lbconfig]" "sample_lbconfig \<in> set [sample_lbconfig]"
  by (simp_all add: sample_ext_def)

theorem node_change_reaches_haproxy_witness:
  "\<exists>w' f. Reconcile sample_ext sample_host rev sample_reconciler (''default'', ''test-lb'') empty_world = (Ret None, w') \<and>
     holds_data sample_reconciler HAProxyAPIConfigFile
       (openshift_api_text f [\<lparr>be_Name = ''master-0'', be_Address = ''172.18.200.10''\<rparr>,
                              \<lparr>be_Name = ''master-1'', be_Address = ''172.18.200.11''\<rparr>]) w'"
proof -
  have req: "(Namespace (Meta sample_lbconfig), Name (Meta sample_lbconfig)) = (''default'', ''test-lb'')"
    and dist: "Distribution (Spec sample_lbconfig) \<in> {''openshift'', ''talos''}"
    and labels: "node_Labels (hd sample_nodes) \<noteq> node_Labels (hd sample_nodes\<lparr>node_Labels := Map.empty\<rparr>)"
    by (simp_all add: sample_lbconfig_def sample_spec_def sample_nodes_def)
  have bs: "getHAProxyBackends sample_ext (NodeSelector (APIBackend (Spec sample_lbconfig))) =
      Inr [\<lparr>be_Name = ''master-0'', be_Address = ''172.18.200.10''\<rparr>, \<lparr>be_Name = ''master-1'', be_Address = ''172.18.200.11''\<rparr>]"
    by code_simp
  obtain w' where r: "Reconcile sample_ext sample_host rev sample_reconciler (''default'', ''test-lb'') empty_world = (Ret None, w')"
    using sample_Reconcile .
  show ?thesis
    using node_change_reaches_haproxy [OF sample_Combine sample_managed sample_listed sample_client(1) sample_known dist
        sample_client(2) labels, unfolded req, OF r] r bs
    by (auto simp: api_text_def sample_input_ok(4))
qed

theorem rotated_token_reaches_floaty_witness:
  "\<exists>w' vips. Reconcile sample_ext sample_host rev sample_reconciler (''default'', ''test-lb'') empty_world = (Ret None, w') \<and>
     holds_data sample_reconciler FloatyConfigFile (floaty_text (cloudscale_section ''verysecrettoken'') vips) w'"
proof -
  have req: "(Namespace (Meta sample_lbconfig), Name (Meta sample_lbconfig)) = (''default'', ''test-lb'')"
    and cloud: "Cloud (Spec sample_lbconfig) = ''cloudscale''"
    and ns: "WatchNamespace sample_reconciler \<noteq> []" "sec_Namespace sample_secret = WatchNamespace sample_reconciler"
    and tok: "sec_Data sample_secret ''token'' = Some ''verysecrettoken''"
    by (simp_all add: sample_lbconfig_def sample_spec_def sample_reconciler_def sample_secret_def)
  obtain w' where r: "Reconcile sample_ext sample_host rev sample_reconciler (''default'', ''test-lb'') empty_world = (Ret None, w')"
    using sample_Reconcile .
  show ?thesis
    using rotated_token_reaches_floaty [OF sample_Combine sample_managed sample_listed sample_client(1) sample_known cloud
        sample_client(2) ns, unfolded req, OF r] r tok
    by auto
qed

end
